(* ===== verification/Prelude.thy ===== *)
theory Prelude
  imports Main "HOL-Library.AList" "HOL-Library.Char_ord" "HOL-Library.List_Lexorder"
    "HOL-Library.Word" "HOL-Library.Multiset" "HOL-Library.Monad_Syntax"
begin

text \<open>
  The vocabulary the components share: byte strings, Go maps, outcomes that may panic, the
  error values of the packages, and the few functions of Go's \<open>strings\<close>, \<open>strconv\<close> and
  \<open>encoding/hex\<close> packages that the sources call.

  A Go string is a sequence of bytes, and so is a HOL \<^typ>\<open>string\<close> (its characters have eight
  bits): \<open>len(s)\<close> is \<^term>\<open>length s\<close>. A Go map is an association list with distinct keys; the
  order of its entries stands for the order in which a \<open>range\<close> loop happens to visit them, so
  no property of the development depends on it.
\<close>

named_theorems go_defs \<open>definitions of the small library functions of Go\<close>
named_theorems handler_defs \<open>definitions that unfold in proofs about handlers\<close>
named_theorems store_defs \<open>definitions of the operations of the stores\<close>

section \<open>Errors and outcomes\<close>

text \<open>
  The sentinel errors of the packages, an error of the database driver that carries an SQL
  state, and every other error as \<open>ErrOther\<close> with its text.
\<close>

datatype error =
    ErrDIDNotFound
  | ErrDIDDeactivated
  | ErrChallengeNotFound
  | ErrCredentialExists
  | ErrCredentialNotFound
  | ErrAPIKeyInvalid
  | ErrAPIKeyExists
  | ErrAPIKeyNotFound
  | ErrSQLState string
  | ErrOther string

text \<open>A Go call that may panic instead of returning.\<close>

datatype 'a outcome = Panic | Done 'a

text \<open>A \<open>float64\<close> is its IEEE 754 bit pattern.\<close>

type_synonym float64 = "64 word"

text \<open>
  The primitives the model takes as parameters: Ed25519 verification for a 32-byte key and a
  64-byte signature, the SHA-256 digest, and the conversions between decimal literals and
  \<open>float64\<close>. Every theorem holds for all of them, or names what it needs of them.
\<close>

record prims =
  ed25519_check :: "string \<Rightarrow> string \<Rightarrow> string \<Rightarrow> bool"
  sha256_Sum256 :: "string \<Rightarrow> string"
  parse_float64 :: "string \<Rightarrow> float64 option"
  format_float64 :: "float64 \<Rightarrow> string option"

text \<open>
  \<open>ed25519.Verify\<close> panics when the public key has not \<open>ed25519.PublicKeySize\<close> bytes and
  answers false for a signature that has not 64.
\<close>

definition PublicKeySize :: nat where "PublicKeySize = 32"

definition ed25519_Verify :: "prims \<Rightarrow> string \<Rightarrow> string \<Rightarrow> string \<Rightarrow> bool outcome" where
  "ed25519_Verify P pk msg sig =
     (if length pk \<noteq> PublicKeySize then Panic
      else Done (length sig = 64 \<and> ed25519_check P pk msg sig))"

text \<open>A signature that a key accepts for a message.\<close>

definition sig_ok :: "prims \<Rightarrow> string \<Rightarrow> string \<Rightarrow> string \<Rightarrow> bool" where
  "sig_ok P pk msg sig \<longleftrightarrow> length sig = 64 \<and> ed25519_check P pk msg sig"

lemma ed25519_Verify_ok [simp]:
  "length pk = PublicKeySize \<Longrightarrow> ed25519_Verify P pk msg sig = Done (sig_ok P pk msg sig)"
  by (simp add: ed25519_Verify_def sig_ok_def)

section \<open>Go maps\<close>

type_synonym 'v gomap = "(string \<times> 'v) list"

abbreviation gm_get :: "'v gomap \<Rightarrow> string \<Rightarrow> 'v option" where
  "gm_get m k \<equiv> map_of m k"

abbreviation gm_set :: "string \<Rightarrow> 'v \<Rightarrow> 'v gomap \<Rightarrow> 'v gomap" where
  "gm_set k v m \<equiv> AList.update k v m"

abbreviation gm_del :: "string \<Rightarrow> 'v gomap \<Rightarrow> 'v gomap" where
  "gm_del k m \<equiv> AList.delete k m"

abbreviation gm_wf :: "'v gomap \<Rightarrow> bool" where
  "gm_wf m \<equiv> distinct (map fst m)"

text \<open>A lookup is not to be rewritten into membership in the list of entries.\<close>

declare map_of_eq_Some_iff [simp del]

lemma gm_get_set [simp]: "map_of (AList.update k v m) = (map_of m)(k \<mapsto> v)"
  by (simp add: update_conv' fun_eq_iff)

lemma gm_get_del [simp]: "map_of (AList.delete k m) = (map_of m)(k := None)"
  by (simp add: delete_conv' fun_eq_iff)

lemma gm_wf_set [simp]: "gm_wf m \<Longrightarrow> gm_wf (AList.update k v m)"
  by (rule distinct_update)

lemma gm_wf_del [simp]: "gm_wf m \<Longrightarrow> gm_wf (AList.delete k m)"
  by (rule distinct_delete)

lemma gm_wf_filter [simp]: "gm_wf m \<Longrightarrow> gm_wf (filter P m)"
  by (rule distinct_map_filter)

lemma gm_get_filter:
  "gm_wf m \<Longrightarrow> map_of (filter (\<lambda>(k, v). P k v) m) k =
     (case map_of m k of None \<Rightarrow> None | Some v \<Rightarrow> if P k v then Some v else None)"
  by (induction m) (auto split: option.splits simp: map_of_eq_None_iff rev_image_eqI)

lemma gm_get_in_set: "gm_wf m \<Longrightarrow> map_of m k = Some v \<longleftrightarrow> (k, v) \<in> set m"
  by (simp add: map_of_eq_Some_iff)

lemma length_dom_map_of: "gm_wf m \<Longrightarrow> length m = card (dom (map_of m))"
  using distinct_card [of "map fst m"] by (simp add: dom_map_of_conv_image_fst)

section \<open>Strings\<close>

text \<open>\<open>strings.HasPrefix\<close>.\<close>

definition HasPrefix :: "string \<Rightarrow> string \<Rightarrow> bool" where
  "HasPrefix s p \<longleftrightarrow> take (length p) s = p"

lemma HasPrefix_iff: "HasPrefix s p \<longleftrightarrow> (\<exists>r. s = p @ r)"
  by (auto simp: HasPrefix_def) (metis append_take_drop_id)

definition HasSuffix :: "string \<Rightarrow> string \<Rightarrow> bool" where
  "HasSuffix s p \<longleftrightarrow> HasPrefix (rev s) (rev p)"

text \<open>
  \<open>strings.TrimSpace\<close> removes the code points of Unicode's White\_Space property at both ends.
  Their UTF-8 encodings are the byte sequences below; each begins with a byte that never
  continues another sequence, so a byte string starts (ends) with a white-space code point
  exactly when it starts (ends) with one of them.
\<close>

definition space_seqs :: "string list" where
  "space_seqs =
     [[CHR 0x09], [CHR 0x0A], [CHR 0x0B], [CHR 0x0C], [CHR 0x0D], [CHR 0x20],
      [CHR 0xC2, CHR 0x85], [CHR 0xC2, CHR 0xA0], [CHR 0xE1, CHR 0x9A, CHR 0x80]]
     @ map (\<lambda>n. [CHR 0xE2, CHR 0x80, char_of n]) [0x80::nat ..< 0x8B]
     @ [[CHR 0xE2, CHR 0x80, CHR 0xA8], [CHR 0xE2, CHR 0x80, CHR 0xA9],
        [CHR 0xE2, CHR 0x80, CHR 0xAF], [CHR 0xE2, CHR 0x81, CHR 0x9F],
        [CHR 0xE3, CHR 0x80, CHR 0x80]]"

definition strip_one :: "string list \<Rightarrow> string \<Rightarrow> string option" where
  "strip_one ps s = (case find (\<lambda>p. HasPrefix s p) ps of None \<Rightarrow> None | Some p \<Rightarrow> Some (drop (length p) s))"

fun strip_fuel :: "nat \<Rightarrow> string list \<Rightarrow> string \<Rightarrow> string" where
  "strip_fuel 0 ps s = s"
| "strip_fuel (Suc n) ps s =
     (case strip_one ps s of None \<Rightarrow> s | Some s' \<Rightarrow> strip_fuel n ps s')"

text \<open>One unit of fuel per byte is enough: every step removes at least one byte.\<close>

definition strip_all :: "string list \<Rightarrow> string \<Rightarrow> string" where
  "strip_all ps s = strip_fuel (length s) ps s"

definition TrimSpace :: "string \<Rightarrow> string" where
  "TrimSpace s = rev (strip_all (map rev space_seqs) (rev (strip_all space_seqs s)))"

text \<open>ASCII case mapping, for header names and for the case folding of field names.\<close>

definition upper_char :: "char \<Rightarrow> char" where
  "upper_char c = (let n = of_char c :: nat in if 97 \<le> n \<and> n \<le> 122 then char_of (n - 32) else c)"

text \<open>
  Simple case folding as far as it can make a string equal to one of ASCII letters: besides
  the letters themselves, the Kelvin sign folds to \<open>K\<close> and the long s to \<open>S\<close>.
\<close>

fun foldName :: "string \<Rightarrow> string" where
  "foldName (a # b # c # s) =
     (if [a, b, c] = [CHR 0xE2, CHR 0x84, CHR 0xAA] then CHR ''K'' # foldName s
      else if [a, b] = [CHR 0xC5, CHR 0xBF] then CHR ''S'' # foldName (c # s)
      else upper_char a # foldName (b # c # s))"
| "foldName [a, b] = (if [a, b] = [CHR 0xC5, CHR 0xBF] then ''S'' else [upper_char a, upper_char b])"
| "foldName [a] = [upper_char a]"
| "foldName [] = []"

definition EqualFold :: "string \<Rightarrow> string \<Rightarrow> bool" where
  "EqualFold s t \<longleftrightarrow> foldName s = foldName t"

text \<open>\<open>strings.Split\<close> for a separator of one byte, and \<open>strings.TrimRight\<close> for one byte.\<close>

fun SplitByte :: "char \<Rightarrow> string \<Rightarrow> string list" where
  "SplitByte c [] = [[]]"
| "SplitByte c (x # xs) =
     (if x = c then [] # SplitByte c xs
      else case SplitByte c xs of [] \<Rightarrow> [[x]] | p # ps \<Rightarrow> (x # p) # ps)"

definition TrimRightByte :: "char \<Rightarrow> string \<Rightarrow> string" where
  "TrimRightByte c s = rev (dropWhile (\<lambda>x. x = c) (rev s))"

lemma SplitByte_nonempty [simp]: "SplitByte c s \<noteq> []"
  by (induction s) (auto split: list.splits)

end
