(* ===== verification/GoTime.thy ===== *)
theory GoTime
  imports Prelude
begin

text \<open>
  The part of Go's \<open>time\<close> package the sources use. A \<open>time.Time\<close> is the number of
  nanoseconds since the Unix epoch, a \<open>time.Duration\<close> an integer in the range of \<open>int64\<close>.
  \<open>time.Format\<close> and \<open>time.Parse\<close> are given for the one layout the sources use,
  \<open>time.RFC3339\<close>, with the leniencies of Go's parser (a one-digit hour, a fraction after the
  seconds, offsets up to 24:60). The main result is the round trip: formatting an instant in
  UTC and parsing it again truncates it to whole seconds.
\<close>

type_synonym time = int
type_synonym duration = int

section \<open>Numbers\<close>

text \<open>Arithmetic of Go's \<open>int64\<close>: two's complement with wrap-around.\<close>

definition int64 :: "int \<Rightarrow> int" where
  "int64 x = (x + 2 ^ 63) mod 2 ^ 64 - 2 ^ 63"

lemma int64_id: "- (2 ^ 63) \<le> x \<Longrightarrow> x < 2 ^ 63 \<Longrightarrow> int64 x = x"
  by (simp add: int64_def)

lemma int64_range: "- (2 ^ 63) \<le> int64 x \<and> int64 x < 2 ^ 63"
  by (simp add: int64_def)

text \<open>Decimal digits: \<open>strconv.FormatInt\<close> in base ten, and zero padding.\<close>

definition digit_char :: "nat \<Rightarrow> char" where
  "digit_char n = char_of (48 + n mod 10)"

fun dec_digits :: "nat \<Rightarrow> string" where
  "dec_digits n = (if n < 10 then [digit_char n] else dec_digits (n div 10) @ [digit_char (n mod 10)])"

declare dec_digits.simps [simp del]

definition FormatInt :: "int \<Rightarrow> string" where
  "FormatInt i = (if i < 0 then CHR ''-'' # dec_digits (nat (- i)) else dec_digits (nat i))"

definition appendInt :: "int \<Rightarrow> nat \<Rightarrow> string" where
  "appendInt i width =
     (let ds = dec_digits (nat \<bar>i\<bar>)
      in (if i < 0 then ''-'' else []) @ replicate (width - length ds) (CHR ''0'') @ ds)"

definition is_digit :: "char \<Rightarrow> bool" where
  "is_digit c \<longleftrightarrow> 48 \<le> (of_char c :: nat) \<and> (of_char c :: nat) \<le> 57"

definition digit_val :: "char \<Rightarrow> nat" where
  "digit_val c = of_char c - 48"

lemma of_char_digit_char [simp]: "(of_char (digit_char n) :: nat) = 48 + n mod 10"
  by (simp add: digit_char_def)

lemma is_digit_digit_char [simp]: "is_digit (digit_char n)"
  by (simp add: is_digit_def)

lemma digit_val_digit_char [simp]: "digit_val (digit_char n) = n mod 10"
  by (simp add: digit_val_def)

section \<open>The calendar\<close>

text \<open>
  Days are counted from 1 January 1970. Inside a 400-year era that begins on 1 March the leap
  day is the last day of its year, of its four-year cycle and of its era, so the year is found
  by successive division.
\<close>

definition is_leap :: "int \<Rightarrow> bool" where
  "is_leap y \<longleftrightarrow> y mod 4 = 0 \<and> (y mod 100 \<noteq> 0 \<or> y mod 400 = 0)"

definition daysIn :: "int \<Rightarrow> int \<Rightarrow> int" where
  "daysIn m y =
     (if m = 2 then if is_leap y then 29 else 28
      else if m = 4 \<or> m = 6 \<or> m = 9 \<or> m = 11 then 30 else 31)"

text \<open>The year of the era and the day of that year, for a day of the era.\<close>

definition year_of_era :: "int \<Rightarrow> int \<times> int" where
  "year_of_era d1 =
     (let n100 = min 3 (d1 div 36524); d2 = d1 - 36524 * n100;
          n4 = d2 div 1461; d3 = d2 mod 1461;
          n1 = min 3 (d3 div 365)
      in (100 * n100 + 4 * n4 + n1, d3 - 365 * n1))"

definition civil_of_days :: "int \<Rightarrow> int \<times> int \<times> int" where
  "civil_of_days days =
     (let z = days + 719468; era = z div 146097;
          (yoe, doy) = year_of_era (z mod 146097);
          mp = (5 * doy + 2) div 153;
          m = (if mp < 10 then mp + 3 else mp - 9)
      in (400 * era + yoe + (if m \<le> 2 then 1 else 0), m, doy - (153 * mp + 2) div 5 + 1))"

definition days_of_civil :: "int \<Rightarrow> int \<Rightarrow> int \<Rightarrow> int" where
  "days_of_civil y m d =
     (let y' = (if m \<le> 2 then y - 1 else y); era = y' div 400; yoe = y' mod 400;
          mp = (if m \<le> 2 then m + 9 else m - 3);
          doy = (153 * mp + 2) div 5 + d - 1
      in 146097 * era + 365 * yoe + yoe div 4 - yoe div 100 + doy - 719468)"

lemma year_of_era_props:
  assumes d1: "0 \<le> d1" "d1 < 146097" and eq: "year_of_era d1 = (yoe, doy)"
  shows "0 \<le> yoe" "yoe < 400" "0 \<le> doy" "doy \<le> 365"
    and "365 * yoe + yoe div 4 - yoe div 100 + doy = d1"
    and "doy = 365 \<Longrightarrow> is_leap (yoe + 1)"
proof -
  define n100 where "n100 = min 3 (d1 div 36524)"
  define d2 where "d2 = d1 - 36524 * n100"
  define n4 where "n4 = d2 div 1461"
  define d3 where "d3 = d2 mod 1461"
  define n1 where "n1 = min 3 (d3 div 365)"
  have yoe: "yoe = 100 * n100 + 4 * n4 + n1" and doy: "doy = d3 - 365 * n1"
    using eq by (simp_all add: year_of_era_def Let_def n100_def d2_def n4_def d3_def n1_def)
  have q: "36524 * (d1 div 36524) + d1 mod 36524 = d1" "0 \<le> d1 mod 36524" "d1 mod 36524 < 36524"
    by simp_all
  have q0: "0 \<le> d1 div 36524" using d1 by simp
  have n100: "0 \<le> n100" "n100 \<le> 3"
    using q0 by (simp_all add: n100_def)
  have d2: "0 \<le> d2" "d2 \<le> 36524" "d2 = 36524 \<Longrightarrow> n100 = 3"
    using q q0 d1 by (cases "d1 div 36524 \<le> 3"; simp add: d2_def n100_def; linarith)+
  have n4: "0 \<le> n4" "n4 \<le> 24" and d2_eq: "d2 = 1461 * n4 + d3"
    using d2 by (auto simp: n4_def d3_def)
  have d3: "0 \<le> d3" "d3 \<le> 1460"
    using pos_mod_bound [of 1461 d2] by (simp_all add: d3_def)
  have r: "365 * (d3 div 365) + d3 mod 365 = d3" "0 \<le> d3 mod 365" "d3 mod 365 < 365"
    by simp_all
  have r0: "0 \<le> d3 div 365" using d3 by simp
  have n1: "0 \<le> n1" "n1 \<le> 3" and doy_b: "0 \<le> doy" "doy \<le> 365" "doy = 365 \<Longrightarrow> n1 = 3 \<and> d3 = 1460"
    using d3 r r0 by (cases "d3 div 365 \<le> 3"; simp add: n1_def doy; linarith)+
  have q4: "yoe div 4 = 25 * n100 + n4"
    by (rule int_div_pos_eq [where r = n1]) (use n1 in \<open>simp_all add: yoe\<close>)
  have q100: "yoe div 100 = n100"
    by (rule int_div_pos_eq [where r = "4 * n4 + n1"]) (use n1 n4 in \<open>simp_all add: yoe\<close>)
  show "0 \<le> yoe" "yoe < 400" using n100 n4 n1 by (auto simp: yoe)
  show "0 \<le> doy" "doy \<le> 365" by (fact doy_b)+
  show "365 * yoe + yoe div 4 - yoe div 100 + doy = d1"
    unfolding q4 q100 using d2_eq by (simp add: yoe doy d2_def)
  show "is_leap (yoe + 1)" if "doy = 365"
  proof -
    from that have n1_3: "n1 = 3" and d3_max: "d3 = 1460" using doy_b by auto
    have y1: "yoe + 1 = 4 * (25 * n100 + n4 + 1)" using n1_3 by (simp add: yoe)
    show ?thesis
    proof (cases "n4 = 24")
      case True
      then have "d2 = 36524" using d2_eq d3_max by simp
      then have "n100 = 3" using d2 by simp
      then show ?thesis using True n1_3 by (simp add: is_leap_def yoe)
    next
      case False
      then have "n4 \<le> 23" using n4 by simp
      then have "(yoe + 1) mod 100 = 4 * n4 + 4"
        by (intro int_mod_pos_eq [where q = n100]) (use n4 n1_3 in \<open>simp_all add: yoe\<close>)
      moreover have "(yoe + 1) mod 4 = 0" using y1 by simp
      ultimately show ?thesis using n4 by (simp add: is_leap_def)
    qed
  qed
qed

lemma civil_of_days_props:
  assumes eq: "civil_of_days days = (y, m, d)"
  shows "1 \<le> m" "m \<le> 12" "1 \<le> d" "d \<le> daysIn m y" "days_of_civil y m d = days"
proof -
  define z where "z = days + 719468"
  define era where "era = z div 146097"
  obtain yoe doy where yd: "year_of_era (z mod 146097) = (yoe, doy)" by fastforce
  define mp where "mp = (5 * doy + 2) div 153"
  have b: "0 \<le> yoe" "yoe < 400" "0 \<le> doy" "doy \<le> 365"
    and sum: "365 * yoe + yoe div 4 - yoe div 100 + doy = z mod 146097"
    and leap: "doy = 365 \<Longrightarrow> is_leap (yoe + 1)"
    using year_of_era_props [OF _ _ yd] by simp_all
  have m: "m = (if mp < 10 then mp + 3 else mp - 9)"
    and y: "y = 400 * era + yoe + (if m \<le> 2 then 1 else 0)"
    and d: "d = doy - (153 * mp + 2) div 5 + 1"
    using eq yd by (auto simp: civil_of_days_def Let_def z_def era_def mp_def)
  have mp: "0 \<le> mp" "mp \<le> 11" using b by (auto simp: mp_def)
  have ml: "m \<le> 2 \<longleftrightarrow> 10 \<le> mp" using m mp by auto
  show m1: "1 \<le> m" and m12: "m \<le> 12" using m mp by auto
  have mpm: "(if m \<le> 2 then m + 9 else m - 3) = mp" using m mp by auto
  have y': "(if m \<le> 2 then y - 1 else y) = 400 * era + yoe" using y by auto
  have "days_of_civil y m d =
      146097 * era + 365 * yoe + yoe div 4 - yoe div 100 + doy - 719468"
    unfolding days_of_civil_def Let_def y' mpm using b by (simp add: d)
  also have "\<dots> = 146097 * era + z mod 146097 - 719468" using sum by simp
  also have "\<dots> = days" by (simp add: era_def z_def)
  finally show "days_of_civil y m d = days" .
  have md: "153 * mp \<le> 5 * doy + 2" "5 * doy + 2 < 153 * mp + 153"
    unfolding mp_def by (simp_all add: mult.commute [of 153] minus_mod_eq_mult_div [symmetric])
  show "1 \<le> d" using md by (simp add: d)
  have "mp \<in> {0, 1, 2, 3, 4, 5, 6, 7, 8, 9, 10, 11}" using mp by simp presburger
  moreover have "is_leap y" if "mp = 11" "doy = 365"
  proof -
    have "y = (yoe + 1) + 400 * era" using that m y by simp
    moreover have "(yoe + 1 + 400 * era) mod k = (yoe + 1) mod k" if "k dvd 400" for k
    proof -
      from that obtain j where j: "400 = k * j" by (rule dvdE)
      have "yoe + 1 + 400 * era = (yoe + 1) + k * (j * era)" unfolding j by (simp add: mult.assoc)
      then show ?thesis by (simp only: mod_mult_self2)
    qed
    ultimately show ?thesis using leap [OF that(2)] by (simp add: is_leap_def)
  qed
  moreover have "doy \<le> 364 \<or> doy = 365" using b by linarith
  ultimately show "d \<le> daysIn m y" using md b
    by (auto simp: daysIn_def d m)
qed

section \<open>Instants\<close>

definition second :: duration where "second = 10 ^ 9"

text \<open>The zero value of \<open>time.Time\<close>: 1 January of year 1, midnight UTC.\<close>

definition zero_time :: time where "zero_time = - 62135596800 * second"

definition IsZero :: "time \<Rightarrow> bool" where "IsZero t \<longleftrightarrow> t = zero_time"

text \<open>\<open>t.Sub(u)\<close> saturates at the bounds of \<open>int64\<close>.\<close>

definition Sub :: "time \<Rightarrow> time \<Rightarrow> duration" where
  "Sub t u = max (- (2 ^ 63)) (min (2 ^ 63 - 1) (t - u))"

definition UnixMilli :: "int \<Rightarrow> time" where "UnixMilli ms = ms * 10 ^ 6"

definition unix_date :: "int \<Rightarrow> int \<Rightarrow> int \<Rightarrow> int \<Rightarrow> int \<Rightarrow> int \<Rightarrow> int \<Rightarrow> time" where
  "unix_date y mo d h mi s ns = (((days_of_civil y mo d * 24 + h) * 60 + mi) * 60 + s) * second + ns"

section \<open>RFC 3339\<close>

definition pad2 :: "int \<Rightarrow> string" where
  "pad2 i = appendInt i 2"

text \<open>\<open>t.UTC().Format(time.RFC3339)\<close>.\<close>

definition FormatRFC3339 :: "time \<Rightarrow> string" where
  "FormatRFC3339 t =
     (let secs = t div second; sod = secs mod 86400; (y, mo, d) = civil_of_days (secs div 86400)
      in appendInt y 4 @ ''-'' @ pad2 mo @ ''-'' @ pad2 d @ ''T'' @ pad2 (sod div 3600) @ '':''
         @ pad2 (sod mod 3600 div 60) @ '':'' @ pad2 (sod mod 60) @ ''Z'')"

text \<open>\<open>t.UTC().Format(time.RFC3339Nano)\<close>: a fraction without trailing zeros, when there is one.\<close>

definition FormatRFC3339Nano :: "time \<Rightarrow> string" where
  "FormatRFC3339Nano t =
     (let ns = t mod second
      in butlast (FormatRFC3339 t)
         @ (if ns = 0 then [] else CHR ''.'' # TrimRightByte (CHR ''0'') (appendInt ns 9)) @ ''Z'')"

text \<open>\<open>getnum\<close>: one or two digits, exactly two when \<open>fixed\<close>.\<close>

fun getnum :: "bool \<Rightarrow> string \<Rightarrow> (int \<times> string) option" where
  "getnum fixed (a # b # s) =
     (if \<not> is_digit a then None
      else if \<not> is_digit b then (if fixed then None else Some (int (digit_val a), b # s))
      else Some (int (digit_val a * 10 + digit_val b), s))"
| "getnum fixed [a] = (if is_digit a \<and> \<not> fixed then Some (int (digit_val a), []) else None)"
| "getnum fixed [] = None"

definition skip1 :: "char \<Rightarrow> string \<Rightarrow> string option" where
  "skip1 c s = (case s of x # r \<Rightarrow> if x = c then Some r else None | [] \<Rightarrow> None)"

fun get_year :: "string \<Rightarrow> (int \<times> string) option" where
  "get_year (a # b # c # d # s) =
     (if is_digit a \<and> is_digit b \<and> is_digit c \<and> is_digit d
      then Some (int (((digit_val a * 10 + digit_val b) * 10 + digit_val c) * 10 + digit_val d), s)
      else None)"
| "get_year _ = None"

text \<open>
  A fraction is taken when a period or a comma is followed by a digit; digits after the ninth
  are dropped.
\<close>

definition frac_nanos :: "string \<Rightarrow> int" where
  "frac_nanos ds = int (foldl (\<lambda>n c. n * 10 + digit_val c) 0 (take 9 ds)) * 10 ^ (9 - length (take 9 ds))"

definition get_frac :: "string \<Rightarrow> int \<times> string" where
  "get_frac s =
     (case s of
        p # c # r \<Rightarrow>
          if (p = CHR ''.'' \<or> p = CHR '','') \<and> is_digit c
          then (frac_nanos (takeWhile is_digit (c # r)), dropWhile is_digit (c # r))
          else (0, s)
      | _ \<Rightarrow> (0, s))"

text \<open>The zone: \<open>Z\<close>, or a sign, two digits, a colon and two digits; in seconds.\<close>

definition get_zone :: "string \<Rightarrow> (int \<times> string) option" where
  "get_zone s =
     (case s of
        [] \<Rightarrow> None
      | z # r \<Rightarrow>
          if z = CHR ''Z'' then Some (0, r)
          else (case s of
             sg # h1 # h2 # col # m1 # m2 # r \<Rightarrow>
               if col \<noteq> CHR '':'' then None
               else (case (getnum True [h1, h2], getnum True [m1, m2]) of
                  (Some (hr, _), Some (mm, _)) \<Rightarrow>
                    if hr > 24 \<or> mm > 60 then None
                    else if sg = CHR ''+'' then Some ((hr * 60 + mm) * 60, r)
                    else if sg = CHR ''-'' then Some (- ((hr * 60 + mm) * 60), r)
                    else None
                | _ \<Rightarrow> None)
           | _ \<Rightarrow> None))"

text \<open>\<open>time.Parse(time.RFC3339, s)\<close>; \<open>None\<close> is an error.\<close>

definition ParseRFC3339 :: "string \<Rightarrow> time option" where
  "ParseRFC3339 s =
     do {
       (y, s) \<leftarrow> get_year s;
       s \<leftarrow> skip1 (CHR ''-'') s;
       (mo, s) \<leftarrow> getnum True s;
       if mo < 1 \<or> 12 < mo then None else do {
         s \<leftarrow> skip1 (CHR ''-'') s;
         (d, s) \<leftarrow> getnum True s;
         s \<leftarrow> skip1 (CHR ''T'') s;
         (h, s) \<leftarrow> getnum False s;
         if 24 \<le> h then None else do {
           s \<leftarrow> skip1 (CHR '':'') s;
           (mi, s) \<leftarrow> getnum True s;
           if 60 \<le> mi then None else do {
             s \<leftarrow> skip1 (CHR '':'') s;
             (sc, s) \<leftarrow> getnum True s;
             if 60 \<le> sc then None else
             let (ns, s) = get_frac s in
             do {
               (off, s) \<leftarrow> get_zone s;
               if s \<noteq> [] then None
               else if d < 1 \<or> daysIn mo y < d then None
               else Some (unix_date y mo d h mi sc ns - off * second)
             }
           }
         }
       }
     }"

section \<open>The round trip\<close>

lemma digit_char_0: "CHR ''0'' = digit_char 0"
  by code_simp

lemma pad2_digits:
  assumes "0 \<le> i" "i < 100"
  shows "pad2 i = [digit_char (nat i div 10), digit_char (nat i mod 10)]"
proof (cases "nat i < 10")
  case True
  then show ?thesis using assms
    by (simp add: pad2_def appendInt_def dec_digits.simps [of "nat i"] digit_char_0)
next
  case False
  then have "nat i div 10 < 10" using assms by simp
  with False show ?thesis using assms
    by (simp add: pad2_def appendInt_def dec_digits.simps [of "nat i"] dec_digits.simps [of "nat i div 10"])
qed

lemma dec_digits_rec:
  "dec_digits n = (if n < 10 then [digit_char n] else dec_digits (n div 10) @ [digit_char (n mod 10)])"
  by (rule dec_digits.simps)

lemma year4_digits:
  assumes "0 \<le> y" "y < 10000"
  shows "appendInt y 4 = [digit_char (nat y div 1000), digit_char (nat y div 100 mod 10),
           digit_char (nat y div 10 mod 10), digit_char (nat y mod 10)]"
proof -
  define n where "n = nat y"
  have n: "n < 10000" using assms by (simp add: n_def)
  have pad: "replicate 3 (CHR ''0'') = [digit_char 0, digit_char 0, digit_char 0]"
    "replicate 2 (CHR ''0'') = [digit_char 0, digit_char 0]"
    by (simp_all add: digit_char_0 numeral_eq_Suc)
  have "appendInt y 4 = replicate (4 - length (dec_digits n)) (CHR ''0'') @ dec_digits n"
    using assms by (simp add: appendInt_def n_def Let_def)
  also have "\<dots> = [digit_char (n div 1000), digit_char (n div 100 mod 10),
           digit_char (n div 10 mod 10), digit_char (n mod 10)]"
  proof -
    consider "n < 10" | "10 \<le> n" "n < 100" | "100 \<le> n" "n < 1000" | "1000 \<le> n" by linarith
    then show ?thesis
    proof cases
      case 1
      then show ?thesis by (simp add: dec_digits_rec [of n] pad)
    next
      case 2
      then have "n div 10 < 10" by simp
      with 2 show ?thesis by (simp add: dec_digits_rec [of n] dec_digits_rec [of "n div 10"] pad)
    next
      case 3
      then have "\<not> n div 10 < 10" "n div 10 div 10 < 10" "n div 10 div 10 = n div 100" by simp_all
      with 3 show ?thesis
        by (simp add: dec_digits_rec [of n] dec_digits_rec [of "n div 10"] dec_digits_rec [of "n div 100"]
            digit_char_0)
    next
      case 4
      then have "\<not> n div 10 < 10" "\<not> n div 10 div 10 < 10" "n div 10 div 10 div 10 < 10"
        "n div 10 div 10 = n div 100" "n div 10 div 10 div 10 = n div 1000"
        using n by simp_all
      with 4 show ?thesis
        by (simp add: dec_digits_rec [of n] dec_digits_rec [of "n div 10"] dec_digits_rec [of "n div 100"]
            dec_digits_rec [of "n div 1000"])
    qed
  qed
  finally show ?thesis by (simp add: n_def)
qed

lemma getnum_pad2:
  assumes "0 \<le> i" "i < 100"
  shows "getnum fixed (pad2 i @ s) = Some (i, s)"
  using assms by (simp add: pad2_digits)

lemma get_year_append:
  assumes "0 \<le> y" "y < 10000"
  shows "get_year (appendInt y 4 @ s) = Some (y, s)"
proof -
  define n where "n = nat y"
  have "n div 1000 < 10" using assms by (simp add: n_def)
  have e1: "n div 1000 = n div 100 div 10" and e2: "n div 100 = n div 10 div 10"
    by (simp_all add: div_mult2_eq [symmetric])
  have s1: "n div 1000 * 10 + n div 100 mod 10 = n div 100"
    unfolding e1 by (rule div_mult_mod_eq)
  have s2: "n div 100 * 10 + n div 10 mod 10 = n div 10"
    unfolding e2 by (rule div_mult_mod_eq)
  have s3: "n div 10 * 10 + n mod 10 = n"
    by (rule div_mult_mod_eq)
  have "int (((n div 1000 * 10 + n div 100 mod 10) * 10 + n div 10 mod 10) * 10 + n mod 10) = y"
    unfolding s1 s2 s3 using assms by (simp add: n_def)
  then show ?thesis using \<open>n div 1000 < 10\<close>
    by (simp add: year4_digits [OF assms, folded n_def])
qed

lemma skip1_Cons [simp]: "skip1 c (c # s) = Some s"
  by (simp add: skip1_def)

lemma zone_Z [simp]: "get_frac ''Z'' = (0, ''Z'')" "get_zone ''Z'' = Some (0, [])"
  by (simp_all add: get_frac_def get_zone_def)

text \<open>The instants whose year has four digits.\<close>

definition four_digit_year :: "time \<Rightarrow> bool" where
  "four_digit_year t \<longleftrightarrow>
     (let (y, _, _) = civil_of_days (t div second div 86400) in 0 \<le> y \<and> y < 10000)"

lemma unix_date_of_parts:
  assumes "days_of_civil y mo d = t div second div 86400"
  shows "unix_date y mo d (t div second mod 86400 div 3600) (t div second mod 86400 mod 3600 div 60)
           (t div second mod 86400 mod 60) 0 = t - t mod second"
proof -
  define s where "s = t div second"
  define q where "q = s mod 86400"
  define r where "r = q mod 3600"
  have sum: "s = 86400 * D + q \<Longrightarrow> q = 3600 * H + r \<Longrightarrow> r = 60 * M + S \<Longrightarrow>
      ((D * 24 + H) * 60 + M) * 60 + S = s" for D H M S
    by simp
  have "((s div 86400 * 24 + q div 3600) * 60 + r div 60) * 60 + q mod 60 = s"
  proof (rule sum)
    show "s = 86400 * (s div 86400) + q" by (simp add: q_def)
    show "q = 3600 * (q div 3600) + r" by (simp add: r_def del: mod_mod_cancel)
    have "q mod 60 = r mod 60" by (simp add: r_def mod_mod_cancel)
    then show "r = 60 * (r div 60) + q mod 60" by simp
  qed
  then have "unix_date y mo d (q div 3600) (r div 60) (q mod 60) 0 = s * second"
    using assms by (simp add: unix_date_def s_def)
  then show ?thesis by (simp add: s_def q_def r_def minus_mod_eq_div_mult)
qed

lemma Parse_Format:
  assumes "four_digit_year t"
  shows "ParseRFC3339 (FormatRFC3339 t) = Some (t - t mod second)"
proof -
  obtain y mo d where c: "civil_of_days (t div second div 86400) = (y, mo, d)"
    by (metis surj_pair)
  note props = civil_of_days_props [OF c]
  have y: "0 \<le> y" "y < 10000" using assms c by (simp_all add: four_digit_year_def)
  have "daysIn mo y \<le> 31" by (simp add: daysIn_def)
  then have d: "d < 100" "0 \<le> d" using props by linarith+
  define sod where "sod = t div second mod 86400"
  have sod: "0 \<le> sod" "sod < 86400" by (simp_all add: sod_def)
  have r: "0 \<le> sod div 3600" "sod div 3600 < 24" "0 \<le> sod mod 3600 div 60" "sod mod 3600 div 60 < 60"
    "0 \<le> sod mod 60" "sod mod 60 < 60"
    using sod by simp_all
  have f: "FormatRFC3339 t = appendInt y 4 @ CHR ''-'' # pad2 mo @ CHR ''-'' # pad2 d @ CHR ''T'' #
      pad2 (sod div 3600) @ CHR '':'' # pad2 (sod mod 3600 div 60) @ CHR '':'' # pad2 (sod mod 60) @ ''Z''"
    by (simp add: FormatRFC3339_def c sod_def Let_def)
  have "ParseRFC3339 (FormatRFC3339 t) =
      Some (unix_date y mo d (sod div 3600) (sod mod 3600 div 60) (sod mod 60) 0)"
  proof -
    have g: "\<not> (mo < 1 \<or> 12 < mo)" "\<not> 24 \<le> sod div 3600" "\<not> 60 \<le> sod mod 3600 div 60"
      "\<not> 60 \<le> sod mod 60" "\<not> (d < 1 \<or> daysIn mo y < d)" "0 \<le> mo" "mo < 100"
      "sod div 3600 < 100" "sod mod 3600 div 60 < 100" "sod mod 60 < 100"
      using props r by linarith+
    show ?thesis
      unfolding f ParseRFC3339_def
      by (simp only: get_year_append [OF y] getnum_pad2 skip1_Cons zone_Z g d r Let_def prod.case
          Option.bind.bind_lunit if_False if_True simp_thms diff_zero mult_zero_left)
  qed
  also have "\<dots> = Some (t - t mod second)"
    using unix_date_of_parts [OF props(5)] by (simp add: sod_def)
  finally show ?thesis .
qed

lemma FormatRFC3339_nonempty [simp]: "FormatRFC3339 t \<noteq> []"
  by (simp add: FormatRFC3339_def Let_def split: prod.split)

end
