(* ===== verification/Base64.thy ===== *)
theory Base64
  imports Prelude
begin

text \<open>
  Go's \<open>encoding/base64\<close> and \<open>encoding/hex\<close> as the sources use them:
  \<open>base64.StdEncoding\<close> in both directions (the decoder skips carriage returns and line feeds,
  wants the padding, and does not look at the unused bits of the last character), the unpadded
  \<open>base64.RawURLEncoding\<close> encoder and the lower-case hexadecimal encoder. Decoding an encoded
  string gives it back, which is what makes a key that was accepted and stored readable again.
\<close>

section \<open>Alphabets\<close>

definition std_alphabet :: string where
  "std_alphabet = ''ABCDEFGHIJKLMNOPQRSTUVWXYZabcdefghijklmnopqrstuvwxyz0123456789+/''"

definition url_alphabet :: string where
  "url_alphabet = ''ABCDEFGHIJKLMNOPQRSTUVWXYZabcdefghijklmnopqrstuvwxyz0123456789-_''"

fun index_of :: "char \<Rightarrow> string \<Rightarrow> nat option" where
  "index_of c [] = None"
| "index_of c (x # xs) = (if x = c then Some 0 else map_option Suc (index_of c xs))"

definition enc6 :: "nat \<Rightarrow> char" where "enc6 n = std_alphabet ! n"

definition dec6 :: "char \<Rightarrow> nat option" where "dec6 c = index_of c std_alphabet"

abbreviation byte :: "char \<Rightarrow> nat" where "byte c \<equiv> of_char c"

section \<open>Encoding\<close>

text \<open>Three bytes become four characters; one or two remaining bytes are padded.\<close>

fun b64_quanta :: "(nat \<Rightarrow> char) \<Rightarrow> string \<Rightarrow> string \<Rightarrow> string" where
  "b64_quanta f pad (a # b # c # s) =
     [f (byte a div 4), f (byte a mod 4 * 16 + byte b div 16),
      f (byte b mod 16 * 4 + byte c div 64), f (byte c mod 64)] @ b64_quanta f pad s"
| "b64_quanta f pad [a, b] =
     [f (byte a div 4), f (byte a mod 4 * 16 + byte b div 16), f (byte b mod 16 * 4)] @ pad"
| "b64_quanta f pad [a] = [f (byte a div 4), f (byte a mod 4 * 16)] @ pad @ pad"
| "b64_quanta f pad [] = []"

definition StdEncode :: "string \<Rightarrow> string" where
  "StdEncode s = b64_quanta enc6 ''='' s"

definition RawURLEncode :: "string \<Rightarrow> string" where
  "RawURLEncode s = b64_quanta (\<lambda>n. url_alphabet ! n) [] s"

section \<open>Decoding\<close>

definition is_newline :: "char \<Rightarrow> bool" where
  "is_newline c \<longleftrightarrow> c = CHR 0x0A \<or> c = CHR 0x0D"

fun b64_decode :: "string \<Rightarrow> string option" where
  "b64_decode [] = Some []"
| "b64_decode (a # b # c # d # s) =
     (case (dec6 a, dec6 b) of
        (Some x, Some y) \<Rightarrow>
          (if c = CHR ''='' then
             (if d = CHR ''='' \<and> s = [] then Some [char_of (x * 4 + y div 16)] else None)
           else case dec6 c of
             None \<Rightarrow> None
           | Some z \<Rightarrow>
               if d = CHR ''='' then
                 (if s = [] then Some [char_of (x * 4 + y div 16), char_of (y mod 16 * 16 + z div 4)]
                  else None)
               else (case dec6 d of
                  None \<Rightarrow> None
                | Some w \<Rightarrow> map_option (\<lambda>r. [char_of (x * 4 + y div 16),
                      char_of (y mod 16 * 16 + z div 4), char_of (z mod 4 * 64 + w)] @ r) (b64_decode s)))
      | _ \<Rightarrow> None)"
| "b64_decode _ = None"

text \<open>\<open>DecodeString\<close>; \<open>None\<close> is an error.\<close>

definition StdDecode :: "string \<Rightarrow> string option" where
  "StdDecode s = b64_decode (filter (\<lambda>c. \<not> is_newline c) s)"

section \<open>Hexadecimal\<close>

definition hex_digit :: "nat \<Rightarrow> char" where
  "hex_digit n = ''0123456789abcdef'' ! (n mod 16)"

definition HexEncode :: "string \<Rightarrow> string" where
  "HexEncode s = concat (map (\<lambda>c. [hex_digit (byte c div 16), hex_digit (byte c)]) s)"

section \<open>Round trip\<close>

lemma byte_less [simp]: "byte c < 256"
  using of_char_mod_256 [of c] by (metis mod_less_divisor zero_less_numeral)

lemma enc6_table:
  "list_all (\<lambda>n. dec6 (enc6 n) = Some n \<and> enc6 n \<noteq> CHR ''='' \<and> \<not> is_newline (enc6 n)) [0..<64]"
  by code_simp

lemma enc6_props [simp]:
  assumes "n < 64"
  shows "dec6 (enc6 n) = Some n" "enc6 n \<noteq> CHR ''=''" "\<not> is_newline (enc6 n)"
  using enc6_table assms by (simp_all add: list_all_iff)

lemma pad_not_newline [simp]: "\<not> is_newline (CHR ''='')"
  by (simp add: is_newline_def)

lemma six_bits:
  fixes a b c :: nat
  assumes "a < 256" "b < 256" "c < 256"
  shows "a div 4 < 64" "a mod 4 * 16 + b div 16 < 64" "b mod 16 * 4 + c div 64 < 64" "c mod 64 < 64"
    "a mod 4 * 16 < 64" "b mod 16 * 4 < 64"
proof -
  have "a mod 4 < 4" "b mod 16 < 16" "b div 16 < 16" "c div 64 < 4" using assms by simp_all
  then show "a mod 4 * 16 + b div 16 < 64" "b mod 16 * 4 + c div 64 < 64"
    "a mod 4 * 16 < 64" "b mod 16 * 4 < 64" by linarith+
  show "a div 4 < 64" "c mod 64 < 64" using assms by simp_all
qed

lemma high_bits:
  "byte c div 16 div 16 = 0" "byte c div 16 mod 16 = byte c div 16"
  "byte c div 64 div 4 = 0" "byte c div 64 mod 4 = byte c div 64"
proof -
  have "byte c div 16 < 16" "byte c div 64 < 4" by (simp_all add: less_mult_imp_div_less)
  then show "byte c div 16 div 16 = 0" "byte c div 16 mod 16 = byte c div 16"
    "byte c div 64 div 4 = 0" "byte c div 64 mod 4 = byte c div 64"
    by (simp_all del: byte_less)
qed

lemmas byte_bits = six_bits [OF byte_less byte_less byte_less] high_bits

lemma filter_quanta:
  "filter (\<lambda>c. \<not> is_newline c) (b64_quanta enc6 ''='' s) = b64_quanta enc6 ''='' s"
  by (induction enc6 "''=''" s rule: b64_quanta.induct) (simp_all add: byte_bits)

lemma b64_decode_quanta: "b64_decode (b64_quanta enc6 ''='' s) = Some s"
  by (induction enc6 "''=''" s rule: b64_quanta.induct) (simp_all add: byte_bits del: One_nat_def)

lemma StdDecode_StdEncode [simp]: "StdDecode (StdEncode s) = Some s"
  by (simp add: StdDecode_def StdEncode_def filter_quanta b64_decode_quanta)

lemma length_b64_decode:
  "b64_decode s = Some r \<Longrightarrow> 4 * length r \<le> 3 * length s"
  by (induction s arbitrary: r rule: b64_decode.induct) (auto split: option.splits if_splits)

lemma length_StdEncode: "length (StdEncode s) = 4 * ((length s + 2) div 3)"
proof -
  have "(5 + n) div 3 = Suc ((Suc (Suc n)) div 3)" for n :: nat
    using div_add_self2 [of 3 "n + 2"] by (simp add: add.commute)
  then have "length (b64_quanta f ''='' s) = 4 * ((length s + 2) div 3)" for f
    by (induction f "''=''" s rule: b64_quanta.induct) simp_all
  then show ?thesis by (simp add: StdEncode_def)
qed

lemma length_HexEncode [simp]: "length (HexEncode s) = 2 * length s"
  by (induction s) (simp_all add: HexEncode_def)

end
