(* ===== verification/Json.thy ===== *)
theory Json
  imports GoTime Base64
begin

text \<open>
  The part of \<open>encoding/json\<close> the sources rely on. A request body is the syntax tree of the
  first JSON value it holds (scanning the text is left to the library); decoding it into a
  struct follows Go: members are taken in order, a member goes to the field of the same name or
  else of the same name up to case, unknown members are ignored, \<open>null\<close> leaves a field alone,
  and a value of the wrong kind makes the decoder fail. Values of Go's type \<open>any\<close> are
  \<^verbatim>\<open>gval\<close>; strings are marshalled with the escapes of \<open>json.Marshal\<close>.
\<close>

section \<open>Syntax trees and values\<close>

datatype json =
    JNull
  | JBool bool
  | JNumber string
  | JString string
  | JArray "json list"
  | JObject "(string \<times> json) list"

text \<open>
  A Go value stored in an \<open>any\<close>. \<open>GInt\<close> is an integer of a Go type, as the handlers put
  in their answers; the decoder yields \<open>GFloat\<close> only.
\<close>

datatype gval =
    GNil
  | GBool bool
  | GFloat float64
  | GInt int
  | GStr string
  | GArr "gval list"
  | GObj "(string \<times> gval) list"

type_synonym gmap = "gval gomap"

fun to_any :: "prims \<Rightarrow> json \<Rightarrow> gval option"
and to_any_list :: "prims \<Rightarrow> json list \<Rightarrow> gval list option"
and to_any_map :: "prims \<Rightarrow> (string \<times> json) list \<Rightarrow> gmap \<Rightarrow> gmap option" where
  "to_any P JNull = Some GNil"
| "to_any P (JBool b) = Some (GBool b)"
| "to_any P (JNumber lit) = map_option GFloat (parse_float64 P lit)"
| "to_any P (JString s) = Some (GStr s)"
| "to_any P (JArray xs) = map_option GArr (to_any_list P xs)"
| "to_any P (JObject ms) = map_option GObj (to_any_map P ms [])"
| "to_any_list P [] = Some []"
| "to_any_list P (x # xs) =
     (case to_any P x of None \<Rightarrow> None | Some v \<Rightarrow> map_option ((#) v) (to_any_list P xs))"
| "to_any_map P [] m = Some m"
| "to_any_map P ((k, x) # ms) m =
     (case to_any P x of None \<Rightarrow> None | Some v \<Rightarrow> to_any_map P ms (gm_set k v m))"

section \<open>Decoding into structs\<close>

type_synonym 'a fields = "(string \<times> (json \<Rightarrow> 'a \<Rightarrow> 'a option)) list"

definition field_for :: "'a fields \<Rightarrow> string \<Rightarrow> (json \<Rightarrow> 'a \<Rightarrow> 'a option) option" where
  "field_for fs k =
     (case map_of fs k of Some f \<Rightarrow> Some f
      | None \<Rightarrow> map_of (map (\<lambda>(n, f). (foldName n, f)) fs) (foldName k))"

fun decode_members :: "'a fields \<Rightarrow> (string \<times> json) list \<Rightarrow> 'a \<Rightarrow> 'a option" where
  "decode_members fs [] a = Some a"
| "decode_members fs ((k, v) # ms) a =
     (case field_for fs k of
        None \<Rightarrow> decode_members fs ms a
      | Some set_field \<Rightarrow>
          (case set_field v a of None \<Rightarrow> None | Some a' \<Rightarrow> decode_members fs ms a'))"

definition decode_struct :: "'a fields \<Rightarrow> json \<Rightarrow> 'a \<Rightarrow> 'a option" where
  "decode_struct fs j a =
     (case j of JNull \<Rightarrow> Some a | JObject ms \<Rightarrow> decode_members fs ms a | _ \<Rightarrow> None)"

text \<open>\<open>json.NewDecoder(r.Body).Decode(\<dots>)\<close>; a body of \<open>None\<close> has no well-formed value.\<close>

definition Decode :: "'a fields \<Rightarrow> json option \<Rightarrow> 'a \<Rightarrow> 'a option" where
  "Decode fs body zero = (case body of None \<Rightarrow> None | Some j \<Rightarrow> decode_struct fs j zero)"

text \<open>One setter per Go type of a field; \<open>upd\<close> is the update function of the record field.\<close>

definition string_field :: "((string \<Rightarrow> string) \<Rightarrow> 'a \<Rightarrow> 'a) \<Rightarrow> json \<Rightarrow> 'a \<Rightarrow> 'a option" where
  "string_field upd j a =
     (case j of JString s \<Rightarrow> Some (upd (\<lambda>_. s) a) | JNull \<Rightarrow> Some a | _ \<Rightarrow> None)"

definition bool_field :: "((bool \<Rightarrow> bool) \<Rightarrow> 'a \<Rightarrow> 'a) \<Rightarrow> json \<Rightarrow> 'a \<Rightarrow> 'a option" where
  "bool_field upd j a =
     (case j of JBool b \<Rightarrow> Some (upd (\<lambda>_. b) a) | JNull \<Rightarrow> Some a | _ \<Rightarrow> None)"

text \<open>\<open>strconv.ParseInt(lit, 10, 64)\<close> on the literal of a JSON number.\<close>

definition ParseInt64 :: "string \<Rightarrow> int option" where
  "ParseInt64 lit =
     (let neg = (case lit of c # _ \<Rightarrow> c = CHR ''-'' | [] \<Rightarrow> False);
          ds = (if neg then tl lit else lit);
          n = int (foldl (\<lambda>n c. n * 10 + digit_val c) 0 ds);
          i = (if neg then - n else n)
      in if ds = [] \<or> \<not> list_all is_digit ds \<or> i < - (2 ^ 63) \<or> 2 ^ 63 \<le> i then None else Some i)"

definition int64_field :: "((int \<Rightarrow> int) \<Rightarrow> 'a \<Rightarrow> 'a) \<Rightarrow> json \<Rightarrow> 'a \<Rightarrow> 'a option" where
  "int64_field upd j a =
     (case j of JNumber lit \<Rightarrow> map_option (\<lambda>i. upd (\<lambda>_. i) a) (ParseInt64 lit)
      | JNull \<Rightarrow> Some a | _ \<Rightarrow> None)"

text \<open>
  A \<open>[]string\<close>: an element that is \<open>null\<close> leaves what an earlier member of the same name put
  there, or the empty string.
\<close>

fun decode_strings :: "json list \<Rightarrow> string list \<Rightarrow> string list option" where
  "decode_strings [] old = Some []"
| "decode_strings (JString s # js) old = map_option ((#) s) (decode_strings js (tl old))"
| "decode_strings (JNull # js) old =
     map_option ((#) (case old of [] \<Rightarrow> [] | x # _ \<Rightarrow> x)) (decode_strings js (tl old))"
| "decode_strings _ old = None"

definition strings_field :: "((string list \<Rightarrow> string list) \<Rightarrow> 'a \<Rightarrow> 'a) \<Rightarrow> ('a \<Rightarrow> string list)
    \<Rightarrow> json \<Rightarrow> 'a \<Rightarrow> 'a option" where
  "strings_field upd get j a =
     (case j of
        JArray js \<Rightarrow> map_option (\<lambda>xs. upd (\<lambda>_. xs) a) (decode_strings js (get a))
      | JNull \<Rightarrow> Some (upd (\<lambda>_. []) a)
      | _ \<Rightarrow> None)"

text \<open>A \<open>map[string]any\<close>: \<open>None\<close> is the nil map; members go into a map that is already there.\<close>

definition map_field :: "prims \<Rightarrow> ((gmap option \<Rightarrow> gmap option) \<Rightarrow> 'a \<Rightarrow> 'a) \<Rightarrow> ('a \<Rightarrow> gmap option)
    \<Rightarrow> json \<Rightarrow> 'a \<Rightarrow> 'a option" where
  "map_field P upd get j a =
     (case j of
        JObject ms \<Rightarrow>
          map_option (\<lambda>m. upd (\<lambda>_. Some m) a)
            (to_any_map P ms (case get a of None \<Rightarrow> [] | Some m \<Rightarrow> m))
      | JNull \<Rightarrow> Some (upd (\<lambda>_. None) a)
      | _ \<Rightarrow> None)"

lemmas field_defs [go_defs] =
  string_field_def bool_field_def int64_field_def strings_field_def map_field_def

section \<open>Well-formed values\<close>

text \<open>Every object of a value has distinct keys; what the decoder yields is well formed.\<close>

fun gval_wf :: "gval \<Rightarrow> bool" where
  "gval_wf (GArr xs) = list_all gval_wf xs"
| "gval_wf (GObj ms) = (gm_wf ms \<and> list_all (\<lambda>(k, v). gval_wf v) ms)"
| "gval_wf _ = True"

lemma gval_wf_update:
  "list_all (\<lambda>(k, v). gval_wf v) m \<Longrightarrow> gval_wf v \<Longrightarrow> list_all (\<lambda>(k, v). gval_wf v) (AList.update k v m)"
  by (induction m) auto

lemma to_any_wf:
  "to_any P j = Some v \<Longrightarrow> gval_wf v"
  "to_any_list P js = Some vs \<Longrightarrow> list_all gval_wf vs"
  "to_any_map P ms m = Some m' \<Longrightarrow> gm_wf m \<and> list_all (\<lambda>(k, v). gval_wf v) m
     \<Longrightarrow> gm_wf m' \<and> list_all (\<lambda>(k, v). gval_wf v) m'"
  by (induction P j and P js and P ms m arbitrary: v and vs and m' rule: to_any_to_any_list_to_any_map.induct)
    (auto split: option.splits simp: gval_wf_update)

section \<open>Marshalling strings\<close>

abbreviation cont :: "char \<Rightarrow> bool" where
  "cont c \<equiv> 0x80 \<le> byte c \<and> byte c \<le> 0xBF"

text \<open>The well-formed UTF-8 sequences of two, three and four bytes.\<close>

definition utf8_2 :: "char \<Rightarrow> char \<Rightarrow> bool" where
  "utf8_2 a b \<longleftrightarrow> 0xC2 \<le> byte a \<and> byte a \<le> 0xDF \<and> cont b"

definition utf8_3 :: "char \<Rightarrow> char \<Rightarrow> char \<Rightarrow> bool" where
  "utf8_3 a b c \<longleftrightarrow>
     0xE0 \<le> byte a \<and> byte a \<le> 0xEF \<and> cont b \<and> cont c
     \<and> (byte a = 0xE0 \<longrightarrow> 0xA0 \<le> byte b) \<and> (byte a = 0xED \<longrightarrow> byte b \<le> 0x9F)"

definition utf8_4 :: "char \<Rightarrow> char \<Rightarrow> char \<Rightarrow> char \<Rightarrow> bool" where
  "utf8_4 a b c d \<longleftrightarrow>
     0xF0 \<le> byte a \<and> byte a \<le> 0xF4 \<and> cont b \<and> cont c \<and> cont d
     \<and> (byte a = 0xF0 \<longrightarrow> 0x90 \<le> byte b) \<and> (byte a = 0xF4 \<longrightarrow> byte b \<le> 0x8F)"

definition esc_ascii :: "char \<Rightarrow> string" where
  "esc_ascii c =
     (if c = CHR 0x22 \<or> c = CHR 0x5C then [CHR 0x5C, c]
      else if c = CHR 0x08 then [CHR 0x5C, CHR ''b'']
      else if c = CHR 0x0C then [CHR 0x5C, CHR ''f'']
      else if c = CHR 0x0A then [CHR 0x5C, CHR ''n'']
      else if c = CHR 0x0D then [CHR 0x5C, CHR ''r'']
      else if c = CHR 0x09 then [CHR 0x5C, CHR ''t'']
      else if byte c < 0x20 \<or> c = CHR ''<'' \<or> c = CHR ''>'' \<or> c = CHR ''&''
        then CHR 0x5C # ''u00'' @ [hex_digit (byte c div 16), hex_digit (byte c)]
      else [c])"

text \<open>The body of \<open>appendString\<close> with HTML escaping, which \<open>json.Marshal\<close> switches on.\<close>

fun esc_string :: "string \<Rightarrow> string" where
  "esc_string [] = []"
| "esc_string (a # s) =
     (if byte a < 0x80 then esc_ascii a @ esc_string s
      else case s of
        [] \<Rightarrow> CHR 0x5C # ''ufffd''
      | b # s1 \<Rightarrow>
          if utf8_2 a b then [a, b] @ esc_string s1
          else case s1 of
            [] \<Rightarrow> CHR 0x5C # ''ufffd'' @ esc_string s
          | c # s2 \<Rightarrow>
              if utf8_3 a b c then
                (if a = CHR 0xE2 \<and> b = CHR 0x80 \<and> (c = CHR 0xA8 \<or> c = CHR 0xA9)
                 then CHR 0x5C # ''u202'' @ [hex_digit (byte c)] else [a, b, c]) @ esc_string s2
              else case s2 of
                [] \<Rightarrow> CHR 0x5C # ''ufffd'' @ esc_string s
              | d # s3 \<Rightarrow>
                  if utf8_4 a b c d then [a, b, c, d] @ esc_string s3
                  else CHR 0x5C # ''ufffd'' @ esc_string s)"

definition MarshalString :: "string \<Rightarrow> string" where
  "MarshalString s = CHR 0x22 # esc_string s @ [CHR 0x22]"

end
