(* ===== verification/Http.thy ===== *)
theory Http
  imports Json
begin

text \<open>
  Requests and responses of \<open>net/http\<close> as far as the handlers read and write them, and the
  package \<open>response\<close>. A handler that panics is answered by the recovering middleware, so its
  result is an outcome.
\<close>

record request =
  rq_method :: string
  rq_path :: "string list"
  rq_headers :: "(string \<times> string) list"
  rq_RemoteAddr :: string
  rq_body :: "json option"

record response =
  rs_status :: nat
  rs_headers :: "(string \<times> string) list"
  rs_body :: gval

abbreviation StatusOK :: nat where "StatusOK \<equiv> 200"
abbreviation StatusCreated :: nat where "StatusCreated \<equiv> 201"
abbreviation StatusBadRequest :: nat where "StatusBadRequest \<equiv> 400"
abbreviation StatusUnauthorized :: nat where "StatusUnauthorized \<equiv> 401"
abbreviation StatusForbidden :: nat where "StatusForbidden \<equiv> 403"
abbreviation StatusNotFound :: nat where "StatusNotFound \<equiv> 404"
abbreviation StatusConflict :: nat where "StatusConflict \<equiv> 409"
abbreviation StatusTooManyRequests :: nat where "StatusTooManyRequests \<equiv> 429"
abbreviation StatusInternalServerError :: nat where "StatusInternalServerError \<equiv> 500"
abbreviation StatusBadGateway :: nat where "StatusBadGateway \<equiv> 502"
abbreviation StatusServiceUnavailable :: nat where "StatusServiceUnavailable \<equiv> 503"

text \<open>\<open>response.JSON\<close> and \<open>response.Error\<close>.\<close>

definition JSON :: "nat \<Rightarrow> gval \<Rightarrow> response" where
  "JSON status payload =
     \<lparr>rs_status = status, rs_headers = [(''Content-Type'', ''application/json'')], rs_body = payload\<rparr>"

definition Error :: "nat \<Rightarrow> string \<Rightarrow> response" where
  "Error status message = JSON status (GObj [(''error'', GStr message)])"

lemma rs_status_JSON [simp]: "rs_status (JSON s p) = s" "rs_body (JSON s p) = p"
  by (simp_all add: JSON_def)

lemma rs_status_Error [simp]: "rs_status (Error s m) = s"
  by (simp add: Error_def)

lemma Error_eq [simp]: "Error s m = Error s' m' \<longleftrightarrow> s = s' \<and> m = m'"
  by (auto simp: Error_def JSON_def)

lemma JSON_eq [simp]: "JSON s p = JSON s' p' \<longleftrightarrow> s = s' \<and> p = p'"
  by (auto simp: JSON_def)

text \<open>A handler has answered with a status.\<close>

definition answers :: "response outcome \<Rightarrow> nat \<Rightarrow> bool" where
  "answers out status \<longleftrightarrow> (\<exists>rs. out = Done rs \<and> rs_status rs = status)"

lemma answers_Done [simp]: "answers (Done rs) s \<longleftrightarrow> rs_status rs = s" "\<not> answers Panic s"
  by (auto simp: answers_def)

text \<open>\<open>r.Header.Get\<close>: names are compared without case, the first value counts.\<close>

definition Header_Get :: "request \<Rightarrow> string \<Rightarrow> string" where
  "Header_Get r name =
     (case map_of (map (\<lambda>(n, v). (map upper_char n, v)) (rq_headers r)) (map upper_char name) of
        None \<Rightarrow> [] | Some v \<Rightarrow> v)"

text \<open>Readings of the clock during one request: \<open>clk i\<close> is the \<open>i\<close>-th call of \<open>time.Now\<close>.\<close>

type_synonym clock = "nat \<Rightarrow> time"

definition strings_payload :: "string list \<Rightarrow> gval" where
  "strings_payload xs = GArr (map GStr xs)"

end
