(* ===== verification/Sql.thy ===== *)
theory Sql
  imports Json
begin

text \<open>
  What the Postgres stores rely on: a table with a primary key, as a map from the key to the
  other columns, and statements that either run or fail. The driver is outside the repository,
  so its failures are a parameter: a script with one entry per statement. A statement may fail
  before it had an effect (connection refused, value the server rejects) or after it (the
  connection is lost once the server has committed). Text, JSONB and nullable columns are
  strings, values and options.
\<close>

datatype db_fault = NoFault | FailBefore | FailAfter

record 'r sqldb =
  sql_rows :: "'r gomap"
  sql_faults :: "db_fault list"

definition next_fault :: "'r sqldb \<Rightarrow> db_fault \<times> 'r sqldb" where
  "next_fault db =
     (case sql_faults db of [] \<Rightarrow> (NoFault, db) | f # fs \<Rightarrow> (f, db\<lparr>sql_faults := fs\<rparr>))"

abbreviation ErrDB :: error where "ErrDB \<equiv> ErrOther ''database error''"

text \<open>\<open>ExecContext\<close>: the answer is the number of affected rows.\<close>

definition db_exec :: "('r gomap \<Rightarrow> error + (nat \<times> 'r gomap)) \<Rightarrow> 'r sqldb \<Rightarrow> (error + nat) \<times> 'r sqldb" where
  "db_exec stmt db =
     (let (f, db') = next_fault db in
      case f of
        FailBefore \<Rightarrow> (Inl ErrDB, db')
      | FailAfter \<Rightarrow> (Inl ErrDB,
          case stmt (sql_rows db') of Inl _ \<Rightarrow> db' | Inr (n, rows) \<Rightarrow> db'\<lparr>sql_rows := rows\<rparr>)
      | NoFault \<Rightarrow>
          (case stmt (sql_rows db') of
             Inl e \<Rightarrow> (Inl e, db')
           | Inr (n, rows) \<Rightarrow> (Inr n, db'\<lparr>sql_rows := rows\<rparr>)))"

text \<open>\<open>QueryContext\<close> and \<open>QueryRowContext\<close>.\<close>

definition db_query :: "('r gomap \<Rightarrow> 'a) \<Rightarrow> 'r sqldb \<Rightarrow> (error + 'a) \<times> 'r sqldb" where
  "db_query q db =
     (let (f, db') = next_fault db
      in (if f = NoFault then Inr (q (sql_rows db')) else Inl ErrDB, db'))"

text \<open>\<open>INSERT\<close> of one row, and \<open>UPDATE \<dots> WHERE key = \<dots>\<close>.\<close>

definition unique_violation :: string where "unique_violation = ''23505''"

definition sql_insert :: "string \<Rightarrow> 'r \<Rightarrow> 'r gomap \<Rightarrow> error + (nat \<times> 'r gomap)" where
  "sql_insert k r rows =
     (if gm_get rows k = None then Inr (1, gm_set k r rows) else Inl (ErrSQLState unique_violation))"

definition sql_update :: "string \<Rightarrow> ('r \<Rightarrow> 'r) \<Rightarrow> 'r gomap \<Rightarrow> error + (nat \<times> 'r gomap)" where
  "sql_update k f rows =
     (case gm_get rows k of None \<Rightarrow> Inr (0, rows) | Some r \<Rightarrow> Inr (1, gm_set k (f r) rows))"

text \<open>\<open>NULLIF(x, '')\<close> and \<open>COALESCE\<close> on nullable text columns.\<close>

definition NULLIF_empty :: "string \<Rightarrow> string option" where
  "NULLIF_empty s = (if s = [] then None else Some s)"

definition COALESCE :: "string option \<Rightarrow> string option \<Rightarrow> string option" where
  "COALESCE a b = (case a of None \<Rightarrow> b | Some _ \<Rightarrow> a)"

definition text_or_empty :: "string option \<Rightarrow> string" where
  "text_or_empty c = (case c of None \<Rightarrow> [] | Some s \<Rightarrow> s)"

text \<open>\<open>isUniqueViolation\<close> of the packages \<open>storage\<close>, \<open>handlers\<close> and \<open>middleware\<close>.\<close>

definition isUniqueViolation :: "error \<Rightarrow> bool" where
  "isUniqueViolation e \<longleftrightarrow> (case e of ErrSQLState st \<Rightarrow> st = ''23505'' | _ \<Rightarrow> False)"

section \<open>Laws of the statements\<close>

definition db_wf :: "'r sqldb \<Rightarrow> bool" where
  "db_wf db \<longleftrightarrow> gm_wf (sql_rows db)"

lemma next_fault_rows [simp]: "next_fault db = (f, db') \<Longrightarrow> sql_rows db' = sql_rows db"
  by (auto simp: next_fault_def split: list.splits)

lemma next_fault_none:
  "sql_faults db = [] \<Longrightarrow> next_fault db = (NoFault, db)"
  by (simp add: next_fault_def)

lemma db_query_rows:
  assumes "db_query q db = (r, db')"
  shows "sql_rows db' = sql_rows db" "\<And>v. r = Inr v \<Longrightarrow> v = q (sql_rows db)"
  using assms by (auto simp: db_query_def Let_def split: prod.splits if_splits)

lemma db_query_ok:
  "sql_faults db = [] \<Longrightarrow> db_query q db = (Inr (q (sql_rows db)), db)"
  by (simp add: db_query_def next_fault_none)

lemma db_exec_insert:
  assumes "db_exec (sql_insert k v) db = (r, db')"
  shows "sql_rows db' = sql_rows db \<or>
      gm_get (sql_rows db) k = None \<and> sql_rows db' = gm_set k v (sql_rows db)"
    and "\<And>n. r = Inr n \<Longrightarrow> gm_get (sql_rows db) k = None \<and> sql_rows db' = gm_set k v (sql_rows db)"
  using assms
  by (auto simp: db_exec_def sql_insert_def Let_def split: prod.splits db_fault.splits if_splits sum.splits)

lemma db_exec_update:
  assumes "db_exec (sql_update k f) db = (r, db')"
  shows "sql_rows db' = sql_rows db \<or>
      (\<exists>v. gm_get (sql_rows db) k = Some v \<and> sql_rows db' = gm_set k (f v) (sql_rows db))"
    and "\<And>n. r = Inr n \<Longrightarrow> n \<noteq> 0 \<Longrightarrow>
      \<exists>v. gm_get (sql_rows db) k = Some v \<and> sql_rows db' = gm_set k (f v) (sql_rows db)"
    and "r = Inr 0 \<Longrightarrow> gm_get (sql_rows db) k = None"
  using assms
  by (auto simp: db_exec_def sql_update_def Let_def
      split: prod.splits db_fault.splits if_splits sum.splits option.splits)

lemma db_exec_ok:
  "sql_faults db = [] \<Longrightarrow> db_exec stmt db =
     (case stmt (sql_rows db) of Inl e \<Rightarrow> (Inl e, db) | Inr (n, rows) \<Rightarrow> (Inr n, db\<lparr>sql_rows := rows\<rparr>))"
  by (simp add: db_exec_def next_fault_none)

lemma db_exec_faults_nil:
  "sql_faults db = [] \<Longrightarrow> db_exec stmt db = (r, db') \<Longrightarrow> sql_faults db' = []"
  by (auto simp: db_exec_ok split: sum.splits)

end
