(* ===== verification/DidStore.thy ===== *)
theory DidStore
  imports Http Sql
begin

text \<open>
  \<open>internal/blockchain/store.go\<close> and \<open>postgres_store.go\<close>: the DID registry's storage. The Go
  interface \<open>DIDStore\<close> is a record of operations over the state of a store; the memory store
  and the Postgres store are two values of it. The locale states the contract of the interface
  over the abstract view of a store, a partial map from DIDs to documents; both stores are
  interpretations of it.
\<close>

section \<open>Documents and the interface\<close>

record DIDDocument =
  doc_Context :: "string list"
  doc_ID :: string
  doc_PublicKeyBase64 :: string
  doc_Created :: string
  doc_Updated :: string
  doc_Deactivated :: bool

record RegistryStats =
  st_TotalDIDs :: int
  st_ActiveDIDs :: int
  st_DeactivatedDIDs :: int
  st_Backend :: string

record 's DIDStore =
  ds_Exists :: "'s \<Rightarrow> string \<Rightarrow> (error + bool) \<times> 's"
  ds_Create :: "'s \<Rightarrow> DIDDocument \<Rightarrow> (error + unit) \<times> 's"
  ds_Resolve :: "'s \<Rightarrow> string \<Rightarrow> (error + DIDDocument) \<times> 's"
  ds_Update :: "time \<Rightarrow> 's \<Rightarrow> DIDDocument \<Rightarrow> (error + unit) \<times> 's"
  ds_Stats :: "'s \<Rightarrow> (error + RegistryStats) \<times> 's"

section \<open>The memory store\<close>

record MemoryDIDStore =
  dids :: "DIDDocument gomap"

definition NewMemoryDIDStore :: MemoryDIDStore where
  "NewMemoryDIDStore = \<lparr>dids = []\<rparr>"

definition MemoryDIDStore_Exists :: "MemoryDIDStore \<Rightarrow> string \<Rightarrow> (error + bool) \<times> MemoryDIDStore" where
  "MemoryDIDStore_Exists s did = (Inr (gm_get (dids s) did \<noteq> None), s)"

definition MemoryDIDStore_Create :: "MemoryDIDStore \<Rightarrow> DIDDocument \<Rightarrow> (error + unit) \<times> MemoryDIDStore" where
  "MemoryDIDStore_Create s doc = (Inr (), s\<lparr>dids := gm_set (doc_ID doc) doc (dids s)\<rparr>)"

definition MemoryDIDStore_Resolve :: "MemoryDIDStore \<Rightarrow> string \<Rightarrow> (error + DIDDocument) \<times> MemoryDIDStore" where
  "MemoryDIDStore_Resolve s did =
     (case gm_get (dids s) did of
        None \<Rightarrow> (Inl ErrDIDNotFound, s)
      | Some doc \<Rightarrow> (Inr doc, s))"

definition MemoryDIDStore_Update :: "time \<Rightarrow> MemoryDIDStore \<Rightarrow> DIDDocument \<Rightarrow> (error + unit) \<times> MemoryDIDStore" where
  "MemoryDIDStore_Update now s doc =
     (if gm_get (dids s) (doc_ID doc) = None then (Inl ErrDIDNotFound, s)
      else (let doc = doc\<lparr>doc_Updated := FormatRFC3339 now\<rparr>
            in (Inr (), s\<lparr>dids := gm_set (doc_ID doc) doc (dids s)\<rparr>)))"

text \<open>The loop of \<open>Stats\<close> over the entries of the map.\<close>

fun stats_loop :: "DIDDocument gomap \<Rightarrow> RegistryStats \<Rightarrow> RegistryStats" where
  "stats_loop [] stats = stats"
| "stats_loop ((_, doc) # rest) stats =
     (let stats = stats\<lparr>st_TotalDIDs := st_TotalDIDs stats + 1\<rparr>
      in if doc_Deactivated doc
         then stats_loop rest (stats\<lparr>st_DeactivatedDIDs := st_DeactivatedDIDs stats + 1\<rparr>)
         else stats_loop rest (stats\<lparr>st_ActiveDIDs := st_ActiveDIDs stats + 1\<rparr>))"

definition MemoryDIDStore_Stats :: "MemoryDIDStore \<Rightarrow> (error + RegistryStats) \<times> MemoryDIDStore" where
  "MemoryDIDStore_Stats s =
     (Inr (stats_loop (dids s)
        \<lparr>st_TotalDIDs = 0, st_ActiveDIDs = 0, st_DeactivatedDIDs = 0, st_Backend = ''memory''\<rparr>), s)"

definition memory_did_store :: "MemoryDIDStore DIDStore" where
  "memory_did_store =
     \<lparr>ds_Exists = MemoryDIDStore_Exists, ds_Create = MemoryDIDStore_Create,
      ds_Resolve = MemoryDIDStore_Resolve, ds_Update = MemoryDIDStore_Update,
      ds_Stats = MemoryDIDStore_Stats\<rparr>"

lemmas memory_did_defs [store_defs] =
  memory_did_store_def MemoryDIDStore_Exists_def MemoryDIDStore_Create_def
  MemoryDIDStore_Resolve_def MemoryDIDStore_Update_def MemoryDIDStore_Stats_def

section \<open>The Postgres store\<close>

text \<open>A row of the table \<open>dids\<close>; its primary key is the DID.\<close>

record did_row =
  row_context :: gval
  row_public_key_base64 :: string
  row_created :: string
  row_updated :: string
  row_deactivated :: bool

type_synonym PostgresDIDStore = "did_row sqldb"

text \<open>\<open>json.Marshal\<close> and \<open>json.Unmarshal\<close> of the context through the JSONB column.\<close>

fun unmarshal_strings :: "gval list \<Rightarrow> string list option" where
  "unmarshal_strings [] = Some []"
| "unmarshal_strings (GStr s # vs) = map_option ((#) s) (unmarshal_strings vs)"
| "unmarshal_strings (GNil # vs) = map_option ((#) []) (unmarshal_strings vs)"
| "unmarshal_strings _ = None"

definition unmarshal_context :: "gval \<Rightarrow> string list option" where
  "unmarshal_context v = (case v of GNil \<Rightarrow> Some [] | GArr vs \<Rightarrow> unmarshal_strings vs | _ \<Rightarrow> None)"

definition did_row_of :: "DIDDocument \<Rightarrow> did_row" where
  "did_row_of doc =
     \<lparr>row_context = strings_payload (doc_Context doc), row_public_key_base64 = doc_PublicKeyBase64 doc,
      row_created = doc_Created doc, row_updated = doc_Updated doc, row_deactivated = doc_Deactivated doc\<rparr>"

definition PostgresDIDStore_Exists :: "PostgresDIDStore \<Rightarrow> string \<Rightarrow> (error + bool) \<times> PostgresDIDStore" where
  "PostgresDIDStore_Exists s did = db_query (\<lambda>rows. gm_get rows did \<noteq> None) s"

definition PostgresDIDStore_Create :: "PostgresDIDStore \<Rightarrow> DIDDocument \<Rightarrow> (error + unit) \<times> PostgresDIDStore" where
  "PostgresDIDStore_Create s doc =
     (case db_exec (sql_insert (doc_ID doc) (did_row_of doc)) s of
        (Inl e, s') \<Rightarrow> (Inl e, s')
      | (Inr _, s') \<Rightarrow> (Inr (), s'))"

definition PostgresDIDStore_Resolve :: "PostgresDIDStore \<Rightarrow> string \<Rightarrow> (error + DIDDocument) \<times> PostgresDIDStore" where
  "PostgresDIDStore_Resolve s did =
     (case db_query (\<lambda>rows. gm_get rows did) s of
        (Inl e, s') \<Rightarrow> (Inl e, s')
      | (Inr None, s') \<Rightarrow> (Inl ErrDIDNotFound, s')
      | (Inr (Some row), s') \<Rightarrow>
          (case unmarshal_context (row_context row) of
             None \<Rightarrow> (Inl (ErrOther ''unmarshal''), s')
           | Some ctx \<Rightarrow>
               (Inr \<lparr>doc_Context = ctx, doc_ID = did, doc_PublicKeyBase64 = row_public_key_base64 row,
                 doc_Created = row_created row, doc_Updated = row_updated row,
                 doc_Deactivated = row_deactivated row\<rparr>, s')))"

definition PostgresDIDStore_Update :: "time \<Rightarrow> PostgresDIDStore \<Rightarrow> DIDDocument \<Rightarrow> (error + unit) \<times> PostgresDIDStore" where
  "PostgresDIDStore_Update now s doc =
     (let doc = (if doc_Updated doc = [] then doc\<lparr>doc_Updated := FormatRFC3339 now\<rparr> else doc) in
      case db_exec (sql_update (doc_ID doc) (\<lambda>_. did_row_of doc)) s of
        (Inl e, s') \<Rightarrow> (Inl e, s')
      | (Inr n, s') \<Rightarrow> (if n = 0 then Inl ErrDIDNotFound else Inr (), s'))"

definition PostgresDIDStore_Stats :: "PostgresDIDStore \<Rightarrow> (error + RegistryStats) \<times> PostgresDIDStore" where
  "PostgresDIDStore_Stats s =
     (case db_query (\<lambda>rows. (int (length rows),
          int (length (filter (\<lambda>(_, r). \<not> row_deactivated r) rows)),
          int (length (filter (\<lambda>(_, r). row_deactivated r) rows)))) s of
        (Inl e, s') \<Rightarrow> (Inl e, s')
      | (Inr (n, active, deactivated), s') \<Rightarrow>
          (Inr \<lparr>st_TotalDIDs = n, st_ActiveDIDs = active, st_DeactivatedDIDs = deactivated,
             st_Backend = ''postgres''\<rparr>, s'))"

definition postgres_did_store :: "PostgresDIDStore DIDStore" where
  "postgres_did_store =
     \<lparr>ds_Exists = PostgresDIDStore_Exists, ds_Create = PostgresDIDStore_Create,
      ds_Resolve = PostgresDIDStore_Resolve, ds_Update = PostgresDIDStore_Update,
      ds_Stats = PostgresDIDStore_Stats\<rparr>"

lemmas postgres_did_defs [store_defs] =
  postgres_did_store_def PostgresDIDStore_Exists_def PostgresDIDStore_Create_def
  PostgresDIDStore_Resolve_def PostgresDIDStore_Update_def PostgresDIDStore_Stats_def

section \<open>The contract of the interface\<close>

text \<open>
  \<open>view s\<close> is the registry a store holds, \<open>inv\<close> its representation invariant. A call may
  fail; a failing write may or may not have taken effect, but it never does anything else.
\<close>

locale did_store =
  fixes ops :: "'s DIDStore"
    and view :: "'s \<Rightarrow> string \<Rightarrow> DIDDocument option"
    and inv :: "'s \<Rightarrow> bool"
  assumes view_ID: "inv s \<Longrightarrow> view s d = Some doc \<Longrightarrow> doc_ID doc = d"
    and finite_view: "inv s \<Longrightarrow> finite (dom (view s))"
    and Exists_law: "inv s \<Longrightarrow> ds_Exists ops s d = (rb, s') \<Longrightarrow>
      inv s' \<and> view s' = view s \<and> (\<forall>b. rb = Inr b \<longrightarrow> b = (view s d \<noteq> None))"
    and Create_law: "inv s \<Longrightarrow> ds_Create ops s doc = (ru, s') \<Longrightarrow>
      inv s' \<and> (view s' = view s \<or> view s' = (view s)(doc_ID doc \<mapsto> doc))
      \<and> (ru = Inr () \<longrightarrow> view s' = (view s)(doc_ID doc \<mapsto> doc))"
    and Resolve_law: "inv s \<Longrightarrow> ds_Resolve ops s d = (rd, s') \<Longrightarrow>
      inv s' \<and> view s' = view s \<and> (\<forall>doc. rd = Inr doc \<longrightarrow> view s d = Some doc)
      \<and> (rd = Inl ErrDIDNotFound \<longrightarrow> view s d = None)"
    and Update_law: "inv s \<Longrightarrow> ds_Update ops now s doc = (ru, s') \<Longrightarrow>
      inv s'
      \<and> (view s' = view s \<or> view s (doc_ID doc) \<noteq> None
            \<and> (\<exists>u. view s' = (view s)(doc_ID doc \<mapsto> doc\<lparr>doc_Updated := u\<rparr>)))
      \<and> (ru = Inr () \<longrightarrow> view s (doc_ID doc) \<noteq> None
            \<and> (\<exists>u. view s' = (view s)(doc_ID doc \<mapsto> doc\<lparr>doc_Updated := u\<rparr>)))"
    and Stats_law: "inv s \<Longrightarrow> ds_Stats ops s = (rs, s') \<Longrightarrow>
      inv s' \<and> view s' = view s
      \<and> (\<forall>st. rs = Inr st \<longrightarrow>
            st_TotalDIDs st = int (card (dom (view s)))
            \<and> st_DeactivatedDIDs st = int (card {d. \<exists>doc. view s d = Some doc \<and> doc_Deactivated doc})
            \<and> st_ActiveDIDs st = int (card {d. \<exists>doc. view s d = Some doc \<and> \<not> doc_Deactivated doc}))"

text \<open>A store none of whose calls fails for a reason outside the registry itself.\<close>

locale reliable_did_store = did_store +
  assumes Exists_ok: "inv s \<Longrightarrow> ds_Exists ops s d = (rb, s') \<Longrightarrow> rb = Inr (view s d \<noteq> None)"
    and Create_ok: "inv s \<Longrightarrow> view s (doc_ID doc) = None \<Longrightarrow>
      ds_Create ops s doc = (ru, s') \<Longrightarrow> ru = Inr ()"
    and Resolve_ok: "inv s \<Longrightarrow> ds_Resolve ops s d = (rd, s') \<Longrightarrow>
      rd = (case view s d of None \<Rightarrow> Inl ErrDIDNotFound | Some doc \<Rightarrow> Inr doc)"
    and Update_ok: "inv s \<Longrightarrow> view s (doc_ID doc) \<noteq> None \<Longrightarrow>
      ds_Update ops now s doc = (ru, s') \<Longrightarrow> ru = Inr ()"
    and Stats_ok: "inv s \<Longrightarrow> ds_Stats ops s = (rs, s') \<Longrightarrow> \<exists>st. rs = Inr st"

subsection \<open>The memory store keeps it\<close>

definition mem_view :: "MemoryDIDStore \<Rightarrow> string \<Rightarrow> DIDDocument option" where
  "mem_view s = map_of (dids s)"

definition mem_inv :: "MemoryDIDStore \<Rightarrow> bool" where
  "mem_inv s \<longleftrightarrow> gm_wf (dids s) \<and> (\<forall>d doc. map_of (dids s) d = Some doc \<longrightarrow> doc_ID doc = d)"

lemma card_dom_filter:
  "gm_wf m \<Longrightarrow> card {k. \<exists>v. map_of m k = Some v \<and> P v} = length (filter (\<lambda>(_, v). P v) m)"
proof -
  assume wf: "gm_wf m"
  have "{k. \<exists>v. map_of m k = Some v \<and> P v} = set (map fst (filter (\<lambda>(_, v). P v) m))"
    using wf by (force simp: image_iff map_of_eq_Some_iff)
  moreover have "distinct (map fst (filter (\<lambda>(_, v). P v) m))"
    using wf by (rule distinct_map_filter)
  ultimately show ?thesis by (metis distinct_card length_map)
qed

lemma stats_loop_counts:
  "stats_loop m st = st
     \<lparr>st_TotalDIDs := st_TotalDIDs st + int (length m),
      st_ActiveDIDs := st_ActiveDIDs st + int (length (filter (\<lambda>(_, d). \<not> doc_Deactivated d) m)),
      st_DeactivatedDIDs := st_DeactivatedDIDs st + int (length (filter (\<lambda>(_, d). doc_Deactivated d) m))\<rparr>"
  by (induction m st rule: stats_loop.induct) (simp_all add: Let_def)

interpretation mem: reliable_did_store memory_did_store mem_view mem_inv
proof unfold_locales
  fix s :: MemoryDIDStore
  assume "mem_inv s"
  then show "finite (dom (mem_view s))" by (simp add: mem_view_def finite_dom_map_of)
next
  fix s s' r
  assume inv: "mem_inv s" and st: "ds_Stats memory_did_store s = (r, s')"
  have wf: "gm_wf (dids s)" using inv by (simp add: mem_inv_def)
  show "mem_inv s' \<and> mem_view s' = mem_view s
      \<and> (\<forall>st. r = Inr st \<longrightarrow>
            st_TotalDIDs st = int (card (dom (mem_view s)))
            \<and> st_DeactivatedDIDs st = int (card {d. \<exists>doc. mem_view s d = Some doc \<and> doc_Deactivated doc})
            \<and> st_ActiveDIDs st = int (card {d. \<exists>doc. mem_view s d = Some doc \<and> \<not> doc_Deactivated doc}))"
    using inv st card_dom_filter [OF wf, of doc_Deactivated]
      card_dom_filter [OF wf, of "\<lambda>d. \<not> doc_Deactivated d"]
    by (auto simp: store_defs mem_view_def stats_loop_counts length_dom_map_of [OF wf])
qed (auto simp: store_defs mem_view_def mem_inv_def Let_def fun_upd_def split: option.splits if_splits)

subsection \<open>The Postgres store keeps it\<close>

definition did_of_row :: "string \<Rightarrow> did_row \<Rightarrow> DIDDocument option" where
  "did_of_row did row =
     map_option (\<lambda>ctx. \<lparr>doc_Context = ctx, doc_ID = did,
        doc_PublicKeyBase64 = row_public_key_base64 row, doc_Created = row_created row,
        doc_Updated = row_updated row, doc_Deactivated = row_deactivated row\<rparr>)
      (unmarshal_context (row_context row))"

definition pg_view :: "PostgresDIDStore \<Rightarrow> string \<Rightarrow> DIDDocument option" where
  "pg_view s did = Option.bind (gm_get (sql_rows s) did) (did_of_row did)"

text \<open>Every stored context column can be read back.\<close>

definition pg_inv :: "PostgresDIDStore \<Rightarrow> bool" where
  "pg_inv s \<longleftrightarrow> db_wf s \<and> (\<forall>d row. gm_get (sql_rows s) d = Some row \<longrightarrow> unmarshal_context (row_context row) \<noteq> None)"

lemma unmarshal_context_payload [simp]: "unmarshal_context (strings_payload xs) = Some xs"
proof -
  have "unmarshal_strings (map GStr xs) = Some xs" by (induction xs) simp_all
  then show ?thesis by (simp add: unmarshal_context_def strings_payload_def)
qed

lemma did_of_row_of [simp]: "did_of_row (doc_ID doc) (did_row_of doc) = Some doc"
  by (simp add: did_of_row_def did_row_of_def)

lemma pg_view_set:
  assumes "sql_rows s' = gm_set (doc_ID doc) (did_row_of doc) (sql_rows s)"
  shows "pg_view s' = (pg_view s)(doc_ID doc \<mapsto> doc)"
  using assms by (auto simp: pg_view_def fun_eq_iff)

lemma pg_view_same: "sql_rows s' = sql_rows s \<Longrightarrow> pg_view s' = pg_view s \<and> pg_inv s' = pg_inv s"
  by (simp add: pg_view_def fun_eq_iff pg_inv_def db_wf_def)

lemma pg_inv_set:
  assumes "pg_inv s" "sql_rows s' = gm_set (doc_ID doc) (did_row_of doc) (sql_rows s)"
  shows "pg_inv s'"
  using assms by (auto simp: pg_inv_def db_wf_def did_row_of_def)

lemma pg_view_None: "pg_inv s \<Longrightarrow> pg_view s d = None \<longleftrightarrow> gm_get (sql_rows s) d = None"
  by (cases "gm_get (sql_rows s) d") (auto simp: pg_view_def pg_inv_def did_of_row_def)

lemma pg_view_dom: "pg_inv s \<Longrightarrow> dom (pg_view s) = dom (gm_get (sql_rows s))"
  using pg_view_None [of s] by (auto simp: dom_def)

lemma pg_view_count:
  assumes "pg_inv s"
  shows "card {d. \<exists>doc. pg_view s d = Some doc \<and> P (doc_Deactivated doc)}
       = length (filter (\<lambda>(_, row). P (row_deactivated row)) (sql_rows s))"
proof -
  have "(\<exists>doc. pg_view s d = Some doc \<and> P (doc_Deactivated doc)) \<longleftrightarrow>
      (\<exists>row. gm_get (sql_rows s) d = Some row \<and> P (row_deactivated row))" for d
  proof (cases "gm_get (sql_rows s) d")
    case (Some row)
    then obtain ctx where "unmarshal_context (row_context row) = Some ctx"
      using assms by (auto simp: pg_inv_def)
    with Some show ?thesis by (simp add: pg_view_def did_of_row_def)
  qed (simp add: pg_view_def)
  then show ?thesis
    using assms card_dom_filter [of "sql_rows s" "\<lambda>row. P (row_deactivated row)"]
    by (simp add: pg_inv_def db_wf_def)
qed

lemma pg_Update_row:
  assumes "db_exec (sql_update k (\<lambda>_. row)) s = (r, s')"
  shows "sql_rows s' = sql_rows s \<or> gm_get (sql_rows s) k \<noteq> None \<and> sql_rows s' = gm_set k row (sql_rows s)"
    and "r = Inr n \<Longrightarrow> n \<noteq> 0 \<Longrightarrow> gm_get (sql_rows s) k \<noteq> None \<and> sql_rows s' = gm_set k row (sql_rows s)"
  using db_exec_update [OF assms] by auto

lemma pg_Update_law:
  assumes inv: "pg_inv s" and up: "ds_Update postgres_did_store now s doc = (r, s')"
  shows "pg_inv s'"
    and "pg_view s' = pg_view s \<or> pg_view s (doc_ID doc) \<noteq> None
            \<and> (\<exists>u. pg_view s' = (pg_view s)(doc_ID doc \<mapsto> doc\<lparr>doc_Updated := u\<rparr>))"
    and "r = Inr () \<Longrightarrow> pg_view s (doc_ID doc) \<noteq> None
            \<and> (\<exists>u. pg_view s' = (pg_view s)(doc_ID doc \<mapsto> doc\<lparr>doc_Updated := u\<rparr>))"
proof -
  define doc' where "doc' = (if doc_Updated doc = [] then doc\<lparr>doc_Updated := FormatRFC3339 now\<rparr> else doc)"
  have id: "doc_ID doc' = doc_ID doc" and u: "\<exists>u. doc' = doc\<lparr>doc_Updated := u\<rparr>"
    by (auto simp: doc'_def intro: exI [of _ "doc_Updated doc"])
  obtain q where ex: "db_exec (sql_update (doc_ID doc') (\<lambda>_. did_row_of doc')) s = (q, s')"
    and r: "r = Inr () \<Longrightarrow> \<exists>n. q = Inr n \<and> n \<noteq> 0"
    using up unfolding postgres_did_store_def PostgresDIDStore_Update_def
    by (auto simp: Let_def doc'_def split: prod.splits sum.splits if_splits)
  note rows = pg_Update_row [OF ex]
  have set: "pg_inv s' \<and> pg_view s (doc_ID doc) \<noteq> None
      \<and> (\<exists>u. pg_view s' = (pg_view s)(doc_ID doc \<mapsto> doc\<lparr>doc_Updated := u\<rparr>))"
    if "gm_get (sql_rows s) (doc_ID doc') \<noteq> None"
      "sql_rows s' = gm_set (doc_ID doc') (did_row_of doc') (sql_rows s)"
    using that pg_inv_set [OF inv that(2)] pg_view_set [OF that(2)] pg_view_None [OF inv, of "doc_ID doc"] u
    by (auto simp: id)
  show "pg_inv s'" using rows(1) set pg_view_same [of s' s] inv by blast
  show "pg_view s' = pg_view s \<or> pg_view s (doc_ID doc) \<noteq> None
            \<and> (\<exists>u. pg_view s' = (pg_view s)(doc_ID doc \<mapsto> doc\<lparr>doc_Updated := u\<rparr>))"
    using rows(1) set pg_view_same [of s' s] by blast
  show "r = Inr () \<Longrightarrow> pg_view s (doc_ID doc) \<noteq> None
            \<and> (\<exists>u. pg_view s' = (pg_view s)(doc_ID doc \<mapsto> doc\<lparr>doc_Updated := u\<rparr>))"
    using r rows(2) set by blast
qed

lemma pg_Create_law:
  assumes inv: "pg_inv s" and cr: "ds_Create postgres_did_store s doc = (r, s')"
  shows "pg_inv s' \<and> (pg_view s' = pg_view s \<or> pg_view s' = (pg_view s)(doc_ID doc \<mapsto> doc))
      \<and> (r = Inr () \<longrightarrow> pg_view s' = (pg_view s)(doc_ID doc \<mapsto> doc))"
proof -
  obtain q where ex: "db_exec (sql_insert (doc_ID doc) (did_row_of doc)) s = (q, s')"
    and r: "r = Inr () \<Longrightarrow> \<exists>n. q = Inr n"
    using cr unfolding postgres_did_store_def PostgresDIDStore_Create_def
    by (auto split: prod.splits sum.splits)
  show ?thesis
    using db_exec_insert [OF ex] r pg_view_same [of s' s] inv
      pg_inv_set [OF inv, of s' doc] pg_view_set [of s' doc s] by blast
qed

interpretation pg: did_store postgres_did_store pg_view pg_inv
proof unfold_locales
  fix s d doc
  assume "pg_inv s" "pg_view s d = Some doc"
  then show "doc_ID doc = d"
    by (auto simp: pg_view_def did_of_row_def split: bind_splits)
next
  fix s
  assume "pg_inv s"
  then show "finite (dom (pg_view s))" by (simp add: pg_view_dom finite_dom_map_of)
next
  fix s d s' and r :: "error + bool"
  assume inv: "pg_inv s" and ex: "ds_Exists postgres_did_store s d = (r, s')"
  have q: "db_query (\<lambda>rows. gm_get rows d \<noteq> None) s = (r, s')"
    using ex by (simp add: postgres_did_store_def PostgresDIDStore_Exists_def)
  show "pg_inv s' \<and> pg_view s' = pg_view s \<and> (\<forall>b. r = Inr b \<longrightarrow> b = (pg_view s d \<noteq> None))"
    using db_query_rows [OF q] pg_view_same [of s' s] inv pg_view_None [OF inv, of d] by auto
next
  fix s d s' and r :: "error + DIDDocument"
  assume inv: "pg_inv s" and rs: "ds_Resolve postgres_did_store s d = (r, s')"
  obtain q where q: "db_query (\<lambda>rows. gm_get rows d) s = (q, s')"
    using rs unfolding postgres_did_store_def PostgresDIDStore_Resolve_def
    by (auto split: prod.splits sum.splits option.splits)
  have view: "pg_view s d = Option.bind (gm_get (sql_rows s) d) (did_of_row d)"
    by (simp add: pg_view_def)
  have "(\<forall>doc. r = Inr doc \<longrightarrow> pg_view s d = Some doc) \<and> (r = Inl ErrDIDNotFound \<longrightarrow> pg_view s d = None)"
    using rs q db_query_rows(2) [OF q] unfolding postgres_did_store_def PostgresDIDStore_Resolve_def view
    by (auto simp: did_of_row_def db_query_def Let_def split: prod.splits sum.splits option.splits if_splits)
  then show "pg_inv s' \<and> pg_view s' = pg_view s \<and> (\<forall>doc. r = Inr doc \<longrightarrow> pg_view s d = Some doc)
      \<and> (r = Inl ErrDIDNotFound \<longrightarrow> pg_view s d = None)"
    using db_query_rows(1) [OF q] pg_view_same [of s' s] inv by blast
next
  fix s s' and r :: "error + RegistryStats"
  assume inv: "pg_inv s" and st: "ds_Stats postgres_did_store s = (r, s')"
  have len: "card (dom (pg_view s)) = length (sql_rows s)"
    using inv by (simp add: pg_view_dom length_dom_map_of pg_inv_def db_wf_def)
  obtain q where q: "db_query (\<lambda>rows. (int (length rows),
          int (length (filter (\<lambda>(_, r). \<not> row_deactivated r) rows)),
          int (length (filter (\<lambda>(_, r). row_deactivated r) rows)))) s = (q, s')"
    and r: "r = (case q of Inl e \<Rightarrow> Inl e | Inr (n, a, d) \<Rightarrow> Inr \<lparr>st_TotalDIDs = n,
        st_ActiveDIDs = a, st_DeactivatedDIDs = d, st_Backend = ''postgres''\<rparr>)"
    using st unfolding postgres_did_store_def PostgresDIDStore_Stats_def
    by (auto split: prod.splits sum.splits)
  note rows = db_query_rows [OF q]
  have "pg_inv s' \<and> pg_view s' = pg_view s" using rows(1) pg_view_same [of s' s] inv by blast
  moreover have "\<forall>st. r = Inr st \<longrightarrow> st_TotalDIDs st = int (card (dom (pg_view s)))
      \<and> st_DeactivatedDIDs st = int (card {d. \<exists>doc. pg_view s d = Some doc \<and> doc_Deactivated doc})
      \<and> st_ActiveDIDs st = int (card {d. \<exists>doc. pg_view s d = Some doc \<and> \<not> doc_Deactivated doc})"
    using r rows(2) len pg_view_count [OF inv, of "\<lambda>b. b"] pg_view_count [OF inv, of "\<lambda>b. \<not> b"]
    by (auto split: sum.splits)
  ultimately show "pg_inv s' \<and> pg_view s' = pg_view s
      \<and> (\<forall>st. r = Inr st \<longrightarrow> st_TotalDIDs st = int (card (dom (pg_view s)))
      \<and> st_DeactivatedDIDs st = int (card {d. \<exists>doc. pg_view s d = Some doc \<and> doc_Deactivated doc})
      \<and> st_ActiveDIDs st = int (card {d. \<exists>doc. pg_view s d = Some doc \<and> \<not> doc_Deactivated doc}))"
    by blast
qed (use pg_Create_law pg_Update_law in blast)+

text \<open>While its driver reports no failure the Postgres store is as reliable as the memory store.\<close>

definition pg_quiet :: "PostgresDIDStore \<Rightarrow> bool" where
  "pg_quiet s \<longleftrightarrow> pg_inv s \<and> sql_faults s = []"

lemma pg_quiet_faults:
  assumes "sql_faults s = []"
  shows "ds_Exists postgres_did_store s d = (rb, s') \<Longrightarrow> sql_faults s' = []"
    and "ds_Create postgres_did_store s doc = (ru, s') \<Longrightarrow> sql_faults s' = []"
    and "ds_Resolve postgres_did_store s d = (rd, s') \<Longrightarrow> sql_faults s' = []"
    and "ds_Update postgres_did_store now s doc = (ru, s') \<Longrightarrow> sql_faults s' = []"
    and "ds_Stats postgres_did_store s = (rs, s') \<Longrightarrow> sql_faults s' = []"
  using assms
  by (auto simp: postgres_did_defs db_query_ok db_exec_ok Let_def sql_insert_def sql_update_def
      split: option.splits if_splits)

interpretation pgq: reliable_did_store postgres_did_store pg_view pg_quiet
proof (unfold_locales, goal_cases)
  case (1 s d doc)
  then show ?case using pg.view_ID [of s d doc] by (simp add: pg_quiet_def)
next
  case (2 s)
  then show ?case using pg.finite_view [of s] by (simp add: pg_quiet_def)
next
  case (3 s d rb s')
  then show ?case using pg.Exists_law [of s d rb s'] pg_quiet_faults(1) [of s d rb s']
    by (simp add: pg_quiet_def)
next
  case (4 s doc ru s')
  then show ?case using pg.Create_law [of s doc ru s'] pg_quiet_faults(2) [of s doc ru s']
    by (simp add: pg_quiet_def)
next
  case (5 s d rd s')
  then show ?case using pg.Resolve_law [of s d rd s'] pg_quiet_faults(3) [of s d rd s']
    by (simp add: pg_quiet_def)
next
  case (6 s now doc ru s')
  then show ?case using pg.Update_law [of s now doc ru s'] pg_quiet_faults(4) [of s now doc ru s']
    by (simp add: pg_quiet_def)
next
  case (7 s rs s')
  then show ?case using pg.Stats_law [of s rs s'] pg_quiet_faults(5) [of s rs s']
    by (simp add: pg_quiet_def)
next
  case (8 s d rb s')
  then show ?case using pg_view_None [of s d] by (auto simp: pg_quiet_def postgres_did_defs db_query_ok)
next
  case (9 s doc ru s')
  then show ?case using pg_view_None [of s "doc_ID doc"]
    by (auto simp: pg_quiet_def postgres_did_defs db_exec_ok sql_insert_def)
next
  case (10 s d rd s')
  show ?case
  proof (cases "gm_get (sql_rows s) d")
    case None
    then show ?thesis using 10 by (auto simp: pg_quiet_def postgres_did_defs db_query_ok pg_view_def)
  next
    case (Some row)
    then obtain ctx where "unmarshal_context (row_context row) = Some ctx"
      using 10 by (auto simp: pg_quiet_def pg_inv_def)
    with Some show ?thesis
      using 10 by (auto simp: pg_quiet_def postgres_did_defs db_query_ok pg_view_def did_of_row_def)
  qed
next
  case (11 s doc now ru s')
  then show ?case using pg_view_None [of s "doc_ID doc"]
    by (auto simp: pg_quiet_def postgres_did_defs db_exec_ok sql_update_def Let_def split: if_splits)
next
  case (12 s rs s')
  then show ?case by (auto simp: pg_quiet_def postgres_did_defs db_query_ok)
qed

end
