(* ===== verification/Client.thy ===== *)
theory Client
  imports DidStore
begin

text \<open>
  \<open>internal/blockchain/client.go\<close>: the client the handlers call, over any store that keeps the
  contract of \<^verbatim>\<open>did_store\<close>. Its operations are defined for an arbitrary value of the store
  interface; their laws are proved once, inside the locale, and interpreted for both stores.
\<close>

record 's Client =
  cl_rpc :: string
  cl_store :: 's

record RegisterDIDParams =
  rp_DID :: string
  rp_PublicKey :: string

record UpdateDIDParams =
  up_DID :: string
  up_PublicKey :: string
  up_Context :: "string list"

definition NewClientWithStore :: "string \<Rightarrow> 's \<Rightarrow> 's Client" where
  "NewClientWithStore rpc store = \<lparr>cl_rpc = rpc, cl_store = store\<rparr>"

definition NewClient :: "string \<Rightarrow> MemoryDIDStore Client" where
  "NewClient rpc = NewClientWithStore rpc NewMemoryDIDStore"

definition default_context :: "string list" where
  "default_context = [''https://www.w3.org/ns/did/v1'', ''https://uddi.network/v1'']"

definition Client_DIDExists :: "'s DIDStore \<Rightarrow> 's Client \<Rightarrow> string \<Rightarrow> (error + bool) \<times> 's Client" where
  "Client_DIDExists ops c did =
     (let (r, s) = ds_Exists ops (cl_store c) did in (r, c\<lparr>cl_store := s\<rparr>))"

definition registered_doc :: "time \<Rightarrow> RegisterDIDParams \<Rightarrow> DIDDocument" where
  "registered_doc t params =
     (let now = FormatRFC3339 t in
      \<lparr>doc_Context = default_context, doc_ID = rp_DID params,
       doc_PublicKeyBase64 = StdEncode (rp_PublicKey params),
       doc_Created = now, doc_Updated = now, doc_Deactivated = False\<rparr>)"

definition tx_hash :: "prims \<Rightarrow> string \<Rightarrow> string" where
  "tx_hash P text = ''0x'' @ HexEncode (sha256_Sum256 P text)"

definition Client_RegisterDID :: "prims \<Rightarrow> 's DIDStore \<Rightarrow> time \<Rightarrow> 's Client \<Rightarrow> RegisterDIDParams
    \<Rightarrow> (error + string) \<times> 's Client" where
  "Client_RegisterDID P ops t c params =
     (case ds_Create ops (cl_store c) (registered_doc t params) of
        (Inl e, s) \<Rightarrow> (Inl e, c\<lparr>cl_store := s\<rparr>)
      | (Inr _, s) \<Rightarrow>
          (Inr (tx_hash P (cl_rpc c @ '':'' @ rp_DID params @ '':'' @ FormatRFC3339 t)), c\<lparr>cl_store := s\<rparr>))"

definition Client_ResolveDID :: "'s DIDStore \<Rightarrow> 's Client \<Rightarrow> string \<Rightarrow> (error + DIDDocument) \<times> 's Client" where
  "Client_ResolveDID ops c did =
     (let (r, s) = ds_Resolve ops (cl_store c) did in (r, c\<lparr>cl_store := s\<rparr>))"

definition Client_RevokeDID :: "'s DIDStore \<Rightarrow> time \<Rightarrow> 's Client \<Rightarrow> string \<Rightarrow> (error + unit) \<times> 's Client" where
  "Client_RevokeDID ops t c did =
     (case ds_Resolve ops (cl_store c) did of
        (Inl e, s) \<Rightarrow> (Inl e, c\<lparr>cl_store := s\<rparr>)
      | (Inr doc, s) \<Rightarrow>
          (let doc = doc\<lparr>doc_Deactivated := True\<rparr>;
               (r, s) = ds_Update ops t s doc
           in (r, c\<lparr>cl_store := s\<rparr>)))"

text \<open>The document \<open>UpdateDID\<close> writes back.\<close>

definition updated_doc :: "time \<Rightarrow> UpdateDIDParams \<Rightarrow> DIDDocument \<Rightarrow> DIDDocument" where
  "updated_doc t params doc =
     (let doc = (if 0 < length (up_Context params) then doc\<lparr>doc_Context := up_Context params\<rparr> else doc)
      in doc\<lparr>doc_PublicKeyBase64 := StdEncode (up_PublicKey params), doc_Updated := FormatRFC3339 t\<rparr>)"

text \<open>\<open>t\<close> is the reading of the clock in the client, \<open>t'\<close> the one in the store.\<close>

definition Client_UpdateDID :: "prims \<Rightarrow> 's DIDStore \<Rightarrow> time \<Rightarrow> time \<Rightarrow> 's Client \<Rightarrow> UpdateDIDParams
    \<Rightarrow> (error + string) \<times> 's Client" where
  "Client_UpdateDID P ops t t' c params =
     (case ds_Resolve ops (cl_store c) (up_DID params) of
        (Inl e, s) \<Rightarrow> (Inl e, c\<lparr>cl_store := s\<rparr>)
      | (Inr doc, s) \<Rightarrow>
          if doc_Deactivated doc then (Inl ErrDIDDeactivated, c\<lparr>cl_store := s\<rparr>)
          else (case ds_Update ops t' s (updated_doc t params doc) of
             (Inl e, s) \<Rightarrow> (Inl e, c\<lparr>cl_store := s\<rparr>)
           | (Inr _, s) \<Rightarrow>
               (Inr (tx_hash P (cl_rpc c @ '':'' @ up_DID params @ '':update:'' @ FormatRFC3339 t)),
                c\<lparr>cl_store := s\<rparr>)))"

definition registryBackend :: "string \<Rightarrow> string \<Rightarrow> string" where
  "registryBackend rpc fallback =
     (if rpc = [] then fallback
      else if rpc = ''memory://local'' \<or> rpc = ''memory://test'' then fallback
      else if fallback \<noteq> [] then fallback
      else rpc)"

definition Client_RegistryStats :: "'s DIDStore \<Rightarrow> 's Client \<Rightarrow> (error + RegistryStats) \<times> 's Client" where
  "Client_RegistryStats ops c =
     (case ds_Stats ops (cl_store c) of
        (Inl e, s) \<Rightarrow> (Inl e, c\<lparr>cl_store := s\<rparr>)
      | (Inr stats, s) \<Rightarrow>
          (Inr (stats\<lparr>st_Backend := registryBackend (cl_rpc c) (st_Backend stats)\<rparr>), c\<lparr>cl_store := s\<rparr>))"

lemmas client_defs [handler_defs] =
  Client_DIDExists_def Client_RegisterDID_def Client_ResolveDID_def Client_RevokeDID_def
  Client_UpdateDID_def Client_RegistryStats_def

lemma doc_ID_registered_doc [simp]: "doc_ID (registered_doc t p) = rp_DID p"
  by (simp add: registered_doc_def Let_def)

lemma doc_fields_updated_doc [simp]:
  "doc_ID (updated_doc t p doc) = doc_ID doc"
  "doc_Created (updated_doc t p doc) = doc_Created doc"
  "doc_Deactivated (updated_doc t p doc) = doc_Deactivated doc"
  "doc_PublicKeyBase64 (updated_doc t p doc) = StdEncode (up_PublicKey p)"
  by (simp_all add: updated_doc_def Let_def)

section \<open>The client over any store of the contract\<close>

text \<open>
  How one call of the client may change the registry: not at all, or at the one DID it names,
  and there only in the way the operation says. \<open>same_but_updated\<close> ignores the time of the
  last update, on which the two stores differ.
\<close>

definition same_but_updated :: "DIDDocument \<Rightarrow> DIDDocument \<Rightarrow> bool" where
  "same_but_updated a b \<longleftrightarrow> (\<exists>u. a = b\<lparr>doc_Updated := u\<rparr>)"

lemma same_but_updated_fields:
  assumes "same_but_updated a b"
  shows "doc_ID a = doc_ID b" "doc_Context a = doc_Context b" "doc_Created a = doc_Created b"
    "doc_PublicKeyBase64 a = doc_PublicKeyBase64 b" "doc_Deactivated a = doc_Deactivated b"
  using assms by (auto simp: same_but_updated_def)

definition writes :: "(string \<Rightarrow> DIDDocument option) \<Rightarrow> DIDDocument \<Rightarrow> (string \<Rightarrow> DIDDocument option) \<Rightarrow> bool" where
  "writes v doc v' \<longleftrightarrow> (\<exists>doc'. same_but_updated doc' doc \<and> v' = v(doc_ID doc \<mapsto> doc'))"

context did_store
begin

abbreviation cview :: "'s Client \<Rightarrow> string \<Rightarrow> DIDDocument option" where
  "cview c \<equiv> view (cl_store c)"

abbreviation cinv :: "'s Client \<Rightarrow> bool" where
  "cinv c \<equiv> inv (cl_store c)"

lemma DIDExists_law:
  assumes "cinv c" "Client_DIDExists ops c did = (r, c')"
  shows "cinv c' \<and> cview c' = cview c \<and> (\<forall>b. r = Inr b \<longrightarrow> b = (cview c did \<noteq> None))"
  using assms Exists_law by (auto simp: Client_DIDExists_def split: prod.splits)

lemma ResolveDID_law:
  assumes "cinv c" "Client_ResolveDID ops c did = (r, c')"
  shows "cinv c' \<and> cview c' = cview c \<and> (\<forall>doc. r = Inr doc \<longrightarrow> cview c did = Some doc)
      \<and> (r = Inl ErrDIDNotFound \<longrightarrow> cview c did = None)"
  using assms Resolve_law by (auto simp: Client_ResolveDID_def split: prod.splits)

lemma RegisterDID_law:
  assumes "cinv c" "Client_RegisterDID P ops t c params = (r, c')"
  shows "cinv c' \<and> (cview c' = cview c \<or> cview c' = (cview c)(rp_DID params \<mapsto> registered_doc t params))
      \<and> (\<forall>h. r = Inr h \<longrightarrow> cview c' = (cview c)(rp_DID params \<mapsto> registered_doc t params)
            \<and> h = tx_hash P (cl_rpc c @ '':'' @ rp_DID params @ '':'' @ FormatRFC3339 t))"
proof -
  obtain q s where cr: "ds_Create ops (cl_store c) (registered_doc t params) = (q, s)" by fastforce
  show ?thesis
    using assms Create_law [OF assms(1) cr] cr
    by (auto simp: Client_RegisterDID_def split: sum.splits)
qed

lemma Update_writes:
  assumes "inv s" "ds_Update ops t s doc = (r, s')"
  shows "inv s'"
    and "view s' = view s \<or> view s (doc_ID doc) \<noteq> None \<and> writes (view s) doc (view s')"
    and "r = Inr () \<Longrightarrow> view s (doc_ID doc) \<noteq> None \<and> writes (view s) doc (view s')"
  using Update_law [OF assms] unfolding writes_def same_but_updated_def by blast+

lemma RevokeDID_law:
  assumes "cinv c" "Client_RevokeDID ops t c did = (r, c')"
  shows "cinv c'
      \<and> (cview c' = cview c
          \<or> (\<exists>doc. cview c did = Some doc \<and> writes (cview c) (doc\<lparr>doc_Deactivated := True\<rparr>) (cview c')))
      \<and> (r = Inr () \<longrightarrow>
          (\<exists>doc. cview c did = Some doc \<and> writes (cview c) (doc\<lparr>doc_Deactivated := True\<rparr>) (cview c')))"
proof -
  obtain q s where rs: "ds_Resolve ops (cl_store c) did = (q, s)" by fastforce
  note rl = Resolve_law [OF assms(1) rs]
  show ?thesis
  proof (cases q)
    case (Inl e)
    then show ?thesis using assms rl rs by (auto simp: Client_RevokeDID_def)
  next
    case (Inr doc)
    obtain u s2 where up: "ds_Update ops t s (doc\<lparr>doc_Deactivated := True\<rparr>) = (u, s2)" by fastforce
    from rl have "inv s" by blast
    note ul = Update_writes [OF this up]
    have "r = u" "cl_store c' = s2"
      using assms(2) rs Inr up by (auto simp: Client_RevokeDID_def Let_def)
    then show ?thesis using ul rl Inr by auto
  qed
qed

lemma UpdateDID_law:
  assumes "cinv c" "Client_UpdateDID P ops t t' c params = (r, c')"
  shows "cinv c'
      \<and> (cview c' = cview c
          \<or> (\<exists>doc. cview c (up_DID params) = Some doc \<and> \<not> doc_Deactivated doc
                \<and> writes (cview c) (updated_doc t params doc) (cview c')))
      \<and> (\<forall>h. r = Inr h \<longrightarrow>
          (\<exists>doc. cview c (up_DID params) = Some doc \<and> \<not> doc_Deactivated doc
                \<and> writes (cview c) (updated_doc t params doc) (cview c')))"
proof -
  obtain q s where rs: "ds_Resolve ops (cl_store c) (up_DID params) = (q, s)" by fastforce
  note rl = Resolve_law [OF assms(1) rs]
  show ?thesis
  proof (cases "\<exists>doc. q = Inr doc \<and> \<not> doc_Deactivated doc")
    case False
    then show ?thesis using assms rl rs
      by (cases q) (auto simp: Client_UpdateDID_def)
  next
    case True
    then obtain doc where doc: "q = Inr doc" "\<not> doc_Deactivated doc" by blast
    obtain u s2 where up: "ds_Update ops t' s (updated_doc t params doc) = (u, s2)" by fastforce
    from rl have "inv s" by blast
    note ul = Update_writes [OF this up]
    have "cl_store c' = s2" "\<And>h. r = Inr h \<Longrightarrow> u = Inr ()"
      using assms(2) rs doc up by (auto simp: Client_UpdateDID_def split: sum.splits)
    then show ?thesis using ul rl doc by auto
  qed
qed

lemma RegistryStats_law:
  assumes "cinv c" "Client_RegistryStats ops c = (r, c')"
  shows "cinv c' \<and> cview c' = cview c
    \<and> (\<forall>st. r = Inr st \<longrightarrow> st_TotalDIDs st = int (card (dom (cview c)))
        \<and> st_TotalDIDs st = st_ActiveDIDs st + st_DeactivatedDIDs st
        \<and> st_DeactivatedDIDs st = int (card {d. \<exists>doc. cview c d = Some doc \<and> doc_Deactivated doc}))"
proof -
  obtain q s where st: "ds_Stats ops (cl_store c) = (q, s)" by fastforce
  let ?D = "{d. \<exists>doc. cview c d = Some doc \<and> doc_Deactivated doc}"
  let ?A = "{d. \<exists>doc. cview c d = Some doc \<and> \<not> doc_Deactivated doc}"
  have "dom (cview c) = ?A \<union> ?D" "?A \<inter> ?D = {}" by auto
  moreover have "finite (dom (cview c))" using finite_view assms(1) by blast
  ultimately have "card (dom (cview c)) = card ?A + card ?D"
    by (metis (no_types, lifting) card_Un_disjoint finite_Un)
  then show ?thesis
    using assms Stats_law [OF assms(1) st] st
    by (auto simp: Client_RegistryStats_def split: sum.splits)
qed

end

context reliable_did_store
begin

lemma ResolveDID_ok:
  assumes "cinv c" "Client_ResolveDID ops c did = (r, c')"
  shows "r = (case cview c did of None \<Rightarrow> Inl ErrDIDNotFound | Some doc \<Rightarrow> Inr doc)"
  using assms Resolve_ok by (auto simp: Client_ResolveDID_def split: prod.splits)

lemma DIDExists_ok:
  assumes "cinv c" "Client_DIDExists ops c did = (r, c')"
  shows "r = Inr (cview c did \<noteq> None)"
  using assms Exists_ok by (auto simp: Client_DIDExists_def split: prod.splits)

lemma RegisterDID_ok:
  assumes "cinv c" "cview c (rp_DID params) = None" "Client_RegisterDID P ops t c params = (r, c')"
  shows "r = Inr (tx_hash P (cl_rpc c @ '':'' @ rp_DID params @ '':'' @ FormatRFC3339 t))"
proof -
  obtain q s where cr: "ds_Create ops (cl_store c) (registered_doc t params) = (q, s)" by fastforce
  have "q = Inr ()" by (rule Create_ok [OF assms(1) _ cr]) (simp add: assms(2))
  then show ?thesis using assms(3) cr by (simp add: Client_RegisterDID_def)
qed

lemma RevokeDID_ok:
  assumes "cinv c" "cview c did = Some doc" "Client_RevokeDID ops t c did = (r, c')"
  shows "r = Inr ()"
proof -
  obtain q s where rs: "ds_Resolve ops (cl_store c) did = (q, s)" by fastforce
  have q: "q = Inr doc" using Resolve_ok [OF assms(1) rs] assms(2) by simp
  obtain u s2 where up: "ds_Update ops t s (doc\<lparr>doc_Deactivated := True\<rparr>) = (u, s2)" by fastforce
  have "inv s" "view s = view (cl_store c)" using Resolve_law [OF assms(1) rs] by blast+
  moreover have "doc_ID doc = did" using view_ID assms(1,2) by blast
  ultimately have "u = Inr ()" using Update_ok [OF _ _ up] assms(2) by simp
  then show ?thesis using assms(3) rs q up by (simp add: Client_RevokeDID_def Let_def)
qed

lemma UpdateDID_ok:
  assumes "cinv c" "cview c (up_DID params) = Some doc" "\<not> doc_Deactivated doc"
    "Client_UpdateDID P ops t t' c params = (r, c')"
  shows "r = Inr (tx_hash P (cl_rpc c @ '':'' @ up_DID params @ '':update:'' @ FormatRFC3339 t))"
proof -
  obtain q s where rs: "ds_Resolve ops (cl_store c) (up_DID params) = (q, s)" by fastforce
  have q: "q = Inr doc" using Resolve_ok [OF assms(1) rs] assms(2) by simp
  obtain u s2 where up: "ds_Update ops t' s (updated_doc t params doc) = (u, s2)" by fastforce
  have "inv s" "view s = view (cl_store c)" using Resolve_law [OF assms(1) rs] by blast+
  moreover have "doc_ID doc = up_DID params" using view_ID assms(1,2) by blast
  ultimately have "u = Inr ()" using Update_ok [OF _ _ up] assms(2) by simp
  then show ?thesis using assms(3,4) rs q up by (simp add: Client_UpdateDID_def)
qed

end

end
