(* ===== verification/DidHandler.thy ===== *)
theory DidHandler
  imports Client
begin

text \<open>
  \<open>internal/handlers/did.go\<close>: the endpoints that register, resolve, revoke and update a DID, and
  \<open>registry.go\<close>. Each handler is one function of the parameters, the store interface, the clock,
  the client and the request; its answer is a response, or a panic of \<open>ed25519.Verify\<close>.
  The second half is about runs: every change the handlers ever make to the registry is one of
  three authorised changes, and what follows from that for documents, keys and revocation.
\<close>

section \<open>Requests\<close>

definition isValidDID :: "string \<Rightarrow> bool" where
  "isValidDID did =
     (if \<not> HasPrefix did ''did:uddi:z'' then False
      else let suffix = drop (length ''did:uddi:z'') did
           in 40 \<le> length suffix \<and> length suffix \<le> 100)"

record RegisterDIDRequest =
  reg_DID :: string
  reg_PublicKeyBase64 :: string
  reg_SignatureBase64 :: string
  reg_Timestamp :: string

definition RegisterDIDRequest_fields :: "RegisterDIDRequest fields" where
  "RegisterDIDRequest_fields =
     [(''did'', string_field reg_DID_update),
      (''publicKeyBase64'', string_field reg_PublicKeyBase64_update),
      (''signatureBase64'', string_field reg_SignatureBase64_update),
      (''timestamp'', string_field reg_Timestamp_update)]"

definition decode_register :: "json option \<Rightarrow> RegisterDIDRequest option" where
  "decode_register body = Decode RegisterDIDRequest_fields body
     \<lparr>reg_DID = [], reg_PublicKeyBase64 = [], reg_SignatureBase64 = [], reg_Timestamp = []\<rparr>"

record RevokeDIDRequest =
  rev_DID :: string
  rev_SignatureBase64 :: string
  rev_Timestamp :: string

definition RevokeDIDRequest_fields :: "RevokeDIDRequest fields" where
  "RevokeDIDRequest_fields =
     [(''did'', string_field rev_DID_update),
      (''signatureBase64'', string_field rev_SignatureBase64_update),
      (''timestamp'', string_field rev_Timestamp_update)]"

definition decode_revoke :: "json option \<Rightarrow> RevokeDIDRequest option" where
  "decode_revoke body = Decode RevokeDIDRequest_fields body
     \<lparr>rev_DID = [], rev_SignatureBase64 = [], rev_Timestamp = []\<rparr>"

record UpdateDIDRequest =
  upd_DID :: string
  upd_PublicKeyBase64 :: string
  upd_Context :: "string list"
  upd_SignatureBase64 :: string
  upd_Timestamp :: string

definition UpdateDIDRequest_fields :: "UpdateDIDRequest fields" where
  "UpdateDIDRequest_fields =
     [(''did'', string_field upd_DID_update),
      (''publicKeyBase64'', string_field upd_PublicKeyBase64_update),
      (''context'', strings_field upd_Context_update upd_Context),
      (''signatureBase64'', string_field upd_SignatureBase64_update),
      (''timestamp'', string_field upd_Timestamp_update)]"

definition decode_update :: "json option \<Rightarrow> UpdateDIDRequest option" where
  "decode_update body = Decode UpdateDIDRequest_fields body
     \<lparr>upd_DID = [], upd_PublicKeyBase64 = [], upd_Context = [], upd_SignatureBase64 = [], upd_Timestamp = []\<rparr>"

text \<open>The messages the three signatures cover.\<close>

definition register_message :: "string \<Rightarrow> string \<Rightarrow> string" where
  "register_message did ts = ''register:'' @ did @ '':'' @ ts"

definition revoke_message :: "string \<Rightarrow> string \<Rightarrow> string" where
  "revoke_message did ts = ''revoke:'' @ did @ '':'' @ ts"

definition update_message :: "string \<Rightarrow> string \<Rightarrow> string \<Rightarrow> string" where
  "update_message did key ts = ''update:'' @ did @ '':'' @ key @ '':'' @ ts"

section \<open>The handlers\<close>

type_synonym 's handled = "response outcome \<times> 's"

definition DIDHandler_Register ::
  "prims \<Rightarrow> 's DIDStore \<Rightarrow> clock \<Rightarrow> 's Client \<Rightarrow> json option \<Rightarrow> 's Client handled" where
  "DIDHandler_Register P ops clk c body =
     (case decode_register body of
        None \<Rightarrow> (Done (Error StatusBadRequest ''invalid request body''), c)
      | Some req \<Rightarrow>
        if \<not> isValidDID (reg_DID req) then (Done (Error StatusBadRequest ''invalid DID format''), c)
        else case StdDecode (reg_PublicKeyBase64 req) of
          None \<Rightarrow> (Done (Error StatusBadRequest ''invalid public key''), c)
        | Some pubKeyBytes \<Rightarrow>
          if length pubKeyBytes \<noteq> PublicKeySize then (Done (Error StatusBadRequest ''invalid public key''), c)
          else case StdDecode (reg_SignatureBase64 req) of
            None \<Rightarrow> (Done (Error StatusBadRequest ''invalid signature encoding''), c)
          | Some sigBytes \<Rightarrow>
            case ed25519_Verify P pubKeyBytes (register_message (reg_DID req) (reg_Timestamp req)) sigBytes of
              Panic \<Rightarrow> (Panic, c)
            | Done False \<Rightarrow> (Done (Error StatusUnauthorized ''signature verification failed''), c)
            | Done True \<Rightarrow>
              case Client_DIDExists ops c (reg_DID req) of
                (Inl _, c) \<Rightarrow> (Done (Error StatusInternalServerError ''blockchain query failed''), c)
              | (Inr True, c) \<Rightarrow> (Done (Error StatusConflict ''DID already registered''), c)
              | (Inr False, c) \<Rightarrow>
                case Client_RegisterDID P ops (clk 0) c
                       \<lparr>rp_DID = reg_DID req, rp_PublicKey = pubKeyBytes\<rparr> of
                  (Inl _, c) \<Rightarrow>
                    (Done (Error StatusInternalServerError ''failed to register DID on blockchain''), c)
                | (Inr txHash, c) \<Rightarrow>
                    (Done (JSON StatusCreated (GObj
                      [(''did'', GStr (reg_DID req)), (''txHash'', GStr txHash),
                       (''status'', GStr ''REGISTERED''),
                       (''createdAt'', GStr (FormatRFC3339 (clk 1)))])), c))"

definition document_payload :: "DIDDocument \<Rightarrow> gval" where
  "document_payload doc =
     GObj [(''@context'', strings_payload (doc_Context doc)), (''id'', GStr (doc_ID doc)),
       (''publicKeyBase64'', GStr (doc_PublicKeyBase64 doc)), (''created'', GStr (doc_Created doc)),
       (''updated'', GStr (doc_Updated doc)), (''deactivated'', GBool (doc_Deactivated doc))]"

definition DIDHandler_Resolve :: "'s DIDStore \<Rightarrow> 's Client \<Rightarrow> string \<Rightarrow> 's Client handled" where
  "DIDHandler_Resolve ops c did =
     (if \<not> isValidDID did then (Done (Error StatusBadRequest ''invalid DID format''), c)
      else case Client_ResolveDID ops c did of
        (Inl e, c) \<Rightarrow>
          if e = ErrDIDNotFound then (Done (Error StatusNotFound ''DID not found''), c)
          else (Done (Error StatusInternalServerError ''resolution failed''), c)
      | (Inr didDoc, c) \<Rightarrow>
          (Done (JSON StatusOK (GObj
            [(''didDocument'', document_payload didDoc),
             (''didDocumentMetadata'', GObj
               [(''created'', GStr (doc_Created didDoc)), (''updated'', GStr (doc_Updated didDoc)),
                (''deactivated'', GBool (doc_Deactivated didDoc))]),
             (''didResolutionMetadata'', GObj
               [(''contentType'', GStr ''application/did+ld+json'')])])), c))"

definition DIDHandler_Revoke ::
  "prims \<Rightarrow> 's DIDStore \<Rightarrow> clock \<Rightarrow> 's Client \<Rightarrow> json option \<Rightarrow> 's Client handled" where
  "DIDHandler_Revoke P ops clk c body =
     (case decode_revoke body of
        None \<Rightarrow> (Done (Error StatusBadRequest ''invalid request body''), c)
      | Some req \<Rightarrow>
        case Client_ResolveDID ops c (rev_DID req) of
          (Inl _, c) \<Rightarrow> (Done (Error StatusNotFound ''DID not found''), c)
        | (Inr didDoc, c) \<Rightarrow>
          case StdDecode (doc_PublicKeyBase64 didDoc) of
            None \<Rightarrow> (Done (Error StatusInternalServerError ''invalid stored public key''), c)
          | Some pubKeyBytes \<Rightarrow>
            case StdDecode (rev_SignatureBase64 req) of
              None \<Rightarrow> (Done (Error StatusBadRequest ''invalid signature encoding''), c)
            | Some sigBytes \<Rightarrow>
              case ed25519_Verify P pubKeyBytes (revoke_message (rev_DID req) (rev_Timestamp req)) sigBytes of
                Panic \<Rightarrow> (Panic, c)
              | Done False \<Rightarrow> (Done (Error StatusUnauthorized ''signature verification failed''), c)
              | Done True \<Rightarrow>
                case Client_RevokeDID ops (clk 0) c (rev_DID req) of
                  (Inl _, c) \<Rightarrow> (Done (Error StatusInternalServerError ''revocation failed''), c)
                | (Inr _, c) \<Rightarrow>
                    (Done (JSON StatusOK (GObj
                      [(''status'', GStr ''REVOKED''), (''did'', GStr (rev_DID req))])), c))"

definition DIDHandler_Update ::
  "prims \<Rightarrow> 's DIDStore \<Rightarrow> clock \<Rightarrow> 's Client \<Rightarrow> string \<Rightarrow> json option \<Rightarrow> 's Client handled" where
  "DIDHandler_Update P ops clk c did body =
     (case decode_update body of
        None \<Rightarrow> (Done (Error StatusBadRequest ''invalid request body''), c)
      | Some req0 \<Rightarrow>
        let req = (if upd_DID req0 = [] then req0\<lparr>upd_DID := did\<rparr> else req0) in
        if did \<noteq> upd_DID req then (Done (Error StatusBadRequest ''DID path and body mismatch''), c)
        else if \<not> isValidDID (upd_DID req) then (Done (Error StatusBadRequest ''invalid DID format''), c)
        else case Client_ResolveDID ops c (upd_DID req) of
          (Inl _, c) \<Rightarrow> (Done (Error StatusNotFound ''DID not found''), c)
        | (Inr didDoc, c) \<Rightarrow>
          if doc_Deactivated didDoc then (Done (Error StatusConflict ''DID is deactivated''), c)
          else case StdDecode (doc_PublicKeyBase64 didDoc) of
            None \<Rightarrow> (Done (Error StatusInternalServerError ''invalid stored public key''), c)
          | Some currentPubKeyBytes \<Rightarrow>
            if length currentPubKeyBytes \<noteq> PublicKeySize
            then (Done (Error StatusInternalServerError ''invalid stored public key''), c)
            else case StdDecode (upd_PublicKeyBase64 req) of
              None \<Rightarrow> (Done (Error StatusBadRequest ''invalid public key''), c)
            | Some newPubKeyBytes \<Rightarrow>
              if length newPubKeyBytes \<noteq> PublicKeySize
              then (Done (Error StatusBadRequest ''invalid public key''), c)
              else case StdDecode (upd_SignatureBase64 req) of
                None \<Rightarrow> (Done (Error StatusBadRequest ''invalid signature encoding''), c)
              | Some sigBytes \<Rightarrow>
                case ed25519_Verify P currentPubKeyBytes
                       (update_message (upd_DID req) (upd_PublicKeyBase64 req) (upd_Timestamp req)) sigBytes of
                  Panic \<Rightarrow> (Panic, c)
                | Done False \<Rightarrow> (Done (Error StatusUnauthorized ''signature verification failed''), c)
                | Done True \<Rightarrow>
                  case Client_UpdateDID P ops (clk 0) (clk 1) c
                         \<lparr>up_DID = upd_DID req, up_PublicKey = newPubKeyBytes, up_Context = upd_Context req\<rparr> of
                    (Inl _, c) \<Rightarrow> (Done (Error StatusInternalServerError ''DID update failed''), c)
                  | (Inr txHash, c) \<Rightarrow>
                      (Done (JSON StatusOK (GObj
                        [(''did'', GStr (upd_DID req)), (''txHash'', GStr txHash),
                         (''status'', GStr ''UPDATED''),
                         (''updatedAt'', GStr (FormatRFC3339 (clk 2)))])), c))"

definition RegistryHandler_Stats :: "'s DIDStore \<Rightarrow> 's Client \<Rightarrow> 's Client handled" where
  "RegistryHandler_Stats ops c =
     (case Client_RegistryStats ops c of
        (Inl _, c) \<Rightarrow> (Done (Error StatusInternalServerError ''registry stats failed''), c)
      | (Inr stats, c) \<Rightarrow>
          (Done (JSON StatusOK (GObj
            [(''totalDIDs'', GInt (st_TotalDIDs stats)), (''activeDIDs'', GInt (st_ActiveDIDs stats)),
             (''deactivatedDIDs'', GInt (st_DeactivatedDIDs stats)),
             (''backend'', GStr (st_Backend stats))])), c))"

section \<open>Runs of the endpoints\<close>

datatype did_op =
    OpRegister "json option"
  | OpResolve string
  | OpRevoke "json option"
  | OpUpdate string "json option"
  | OpStats

definition did_serve :: "prims \<Rightarrow> 's DIDStore \<Rightarrow> clock \<Rightarrow> did_op \<Rightarrow> 's Client \<Rightarrow> 's Client handled" where
  "did_serve P ops clk op c =
     (case op of
        OpRegister body \<Rightarrow> DIDHandler_Register P ops clk c body
      | OpResolve did \<Rightarrow> DIDHandler_Resolve ops c did
      | OpRevoke body \<Rightarrow> DIDHandler_Revoke P ops clk c body
      | OpUpdate did body \<Rightarrow> DIDHandler_Update P ops clk c did body
      | OpStats \<Rightarrow> RegistryHandler_Stats ops c)"

inductive did_reach :: "prims \<Rightarrow> 's DIDStore \<Rightarrow> 's Client \<Rightarrow> 's Client \<Rightarrow> bool"
  for P :: prims and ops :: "'s DIDStore" and c0 :: "'s Client" where
  start: "did_reach P ops c0 c0"
| serve: "did_reach P ops c0 c \<Longrightarrow> did_serve P ops clk op c = (out, c') \<Longrightarrow> did_reach P ops c0 c'"

text \<open>
  The three changes a request may make to the registry, each with what authorises it: a
  signature under the key being registered for a DID that was not there, under the stored key
  for a revocation, under the stored key of an active DID for a change of key.
\<close>

inductive authorised :: "prims \<Rightarrow> did_op \<Rightarrow> (string \<Rightarrow> DIDDocument option) \<Rightarrow> (string \<Rightarrow> DIDDocument option) \<Rightarrow> bool"
  for P :: prims where
  register: "decode_register body = Some req \<Longrightarrow> isValidDID (reg_DID req)
     \<Longrightarrow> StdDecode (reg_PublicKeyBase64 req) = Some key \<Longrightarrow> length key = PublicKeySize
     \<Longrightarrow> StdDecode (reg_SignatureBase64 req) = Some sg
     \<Longrightarrow> sig_ok P key (register_message (reg_DID req) (reg_Timestamp req)) sg
     \<Longrightarrow> v (reg_DID req) = None
     \<Longrightarrow> authorised P (OpRegister body) v
           (v(reg_DID req \<mapsto> registered_doc t \<lparr>rp_DID = reg_DID req, rp_PublicKey = key\<rparr>))"
| revoke: "decode_revoke body = Some req \<Longrightarrow> v (rev_DID req) = Some doc
     \<Longrightarrow> StdDecode (doc_PublicKeyBase64 doc) = Some key
     \<Longrightarrow> StdDecode (rev_SignatureBase64 req) = Some sg
     \<Longrightarrow> sig_ok P key (revoke_message (rev_DID req) (rev_Timestamp req)) sg
     \<Longrightarrow> writes v (doc\<lparr>doc_Deactivated := True\<rparr>) v'
     \<Longrightarrow> authorised P (OpRevoke body) v v'"
| update: "decode_update body = Some req \<Longrightarrow> upd_DID req = did \<or> upd_DID req = [] \<Longrightarrow> isValidDID did
     \<Longrightarrow> v did = Some doc \<Longrightarrow> \<not> doc_Deactivated doc
     \<Longrightarrow> StdDecode (doc_PublicKeyBase64 doc) = Some key \<Longrightarrow> length key = PublicKeySize
     \<Longrightarrow> StdDecode (upd_PublicKeyBase64 req) = Some newkey \<Longrightarrow> length newkey = PublicKeySize
     \<Longrightarrow> StdDecode (upd_SignatureBase64 req) = Some sg
     \<Longrightarrow> sig_ok P key (update_message did (upd_PublicKeyBase64 req) (upd_Timestamp req)) sg
     \<Longrightarrow> writes v (updated_doc t \<lparr>up_DID = did, up_PublicKey = newkey, up_Context = upd_Context req\<rparr> doc) v'
     \<Longrightarrow> authorised P (OpUpdate did body) v v'"

inductive_cases authorised_RegisterE: "authorised P (OpRegister body) v v'"
inductive_cases authorised_RevokeE: "authorised P (OpRevoke body) v v'"
inductive_cases authorised_UpdateE: "authorised P (OpUpdate did body) v v'"

text \<open>What every registry the endpoints build satisfies.\<close>

definition registry_ok :: "(string \<Rightarrow> DIDDocument option) \<Rightarrow> bool" where
  "registry_ok v \<longleftrightarrow>
     (\<forall>d doc. v d = Some doc \<longrightarrow> doc_ID doc = d \<and> isValidDID d
        \<and> (\<exists>key. length key = PublicKeySize \<and> doc_PublicKeyBase64 doc = StdEncode key))"

lemma registry_okD:
  assumes "registry_ok v" "v d = Some doc"
  obtains key where "doc_ID doc = d" "isValidDID d" "length key = PublicKeySize"
    "doc_PublicKeyBase64 doc = StdEncode key" "StdDecode (doc_PublicKeyBase64 doc) = Some key"
  using assms by (auto simp: registry_ok_def)

section \<open>The paths through the handlers\<close>

text \<open>
  Each handler either rejects the request with the client as it was, or passes every check and
  reaches its call of the client. These are the only facts about the code of the handlers the
  proofs below use.
\<close>

lemmas handler_splits =
  option.splits sum.splits prod.splits outcome.splits bool.splits if_splits

lemma Register_paths:
  assumes "DIDHandler_Register P ops clk c body = (out, c')"
  shows "(\<exists>rs. out = Done rs \<and> c' = c \<and> 400 \<le> rs_status rs)
    \<or> (\<exists>req key sg r c1. decode_register body = Some req \<and> isValidDID (reg_DID req)
        \<and> StdDecode (reg_PublicKeyBase64 req) = Some key \<and> length key = PublicKeySize
        \<and> StdDecode (reg_SignatureBase64 req) = Some sg
        \<and> sig_ok P key (register_message (reg_DID req) (reg_Timestamp req)) sg
        \<and> Client_DIDExists ops c (reg_DID req) = (r, c1)
        \<and> (if r = Inr False then
             (\<exists>q. Client_RegisterDID P ops (clk 0) c1 \<lparr>rp_DID = reg_DID req, rp_PublicKey = key\<rparr> = (q, c')
               \<and> (\<exists>rs. out = Done rs \<and> (rs_status rs = (if isl q then 500 else 201))))
           else c' = c1 \<and> (\<exists>rs. out = Done rs \<and> 400 \<le> rs_status rs)))"
  using assms unfolding DIDHandler_Register_def
  by (fastforce split: handler_splits)

lemma Revoke_paths:
  assumes "DIDHandler_Revoke P ops clk c body = (out, c')"
  shows "(\<exists>rs. out = Done rs \<and> c' = c \<and> rs_status rs = 400)
    \<or> (\<exists>req r c1. decode_revoke body = Some req \<and> Client_ResolveDID ops c (rev_DID req) = (r, c1)
        \<and> ((\<exists>rs. out = Done rs \<and> c' = c1 \<and> 400 \<le> rs_status rs)
          \<or> (\<exists>doc key sg. r = Inr doc \<and> StdDecode (doc_PublicKeyBase64 doc) = Some key
              \<and> StdDecode (rev_SignatureBase64 req) = Some sg
              \<and> (if length key \<noteq> PublicKeySize then out = Panic \<and> c' = c1
                 else sig_ok P key (revoke_message (rev_DID req) (rev_Timestamp req)) sg
                   \<and> (\<exists>q. Client_RevokeDID ops (clk 0) c1 (rev_DID req) = (q, c')
                     \<and> (\<exists>rs. out = Done rs \<and> rs_status rs = (if isl q then 500 else 200)))))))"
  using assms unfolding DIDHandler_Revoke_def ed25519_Verify_def sig_ok_def
  by (fastforce split: handler_splits)

lemma Update_paths:
  assumes "DIDHandler_Update P ops clk c did body = (out, c')"
  shows "(\<exists>rs. out = Done rs \<and> c' = c \<and> 400 \<le> rs_status rs)
    \<or> (\<exists>req r c1. decode_update body = Some req \<and> (upd_DID req = did \<or> upd_DID req = []) \<and> isValidDID did
        \<and> Client_ResolveDID ops c did = (r, c1)
        \<and> ((\<exists>rs. out = Done rs \<and> c' = c1 \<and> 400 \<le> rs_status rs)
          \<or> (\<exists>doc key newkey sg q. r = Inr doc \<and> \<not> doc_Deactivated doc
              \<and> StdDecode (doc_PublicKeyBase64 doc) = Some key \<and> length key = PublicKeySize
              \<and> StdDecode (upd_PublicKeyBase64 req) = Some newkey \<and> length newkey = PublicKeySize
              \<and> StdDecode (upd_SignatureBase64 req) = Some sg
              \<and> sig_ok P key (update_message did (upd_PublicKeyBase64 req) (upd_Timestamp req)) sg
              \<and> Client_UpdateDID P ops (clk 0) (clk 1) c1
                    \<lparr>up_DID = did, up_PublicKey = newkey, up_Context = upd_Context req\<rparr> = (q, c')
              \<and> (\<exists>rs. out = Done rs \<and> rs_status rs = (if isl q then 500 else 200)))))"
proof -
  show ?thesis
    using assms unfolding DIDHandler_Update_def Let_def
    by (fastforce split: handler_splits)
qed

lemma Resolve_paths:
  assumes "DIDHandler_Resolve ops c did = (out, c')"
  shows "\<exists>rs. out = Done rs \<and> (c' = c \<or> (\<exists>r. Client_ResolveDID ops c did = (r, c')))"
  using assms unfolding DIDHandler_Resolve_def by (auto split: handler_splits)

lemma Stats_paths:
  assumes "RegistryHandler_Stats ops c = (out, c')"
  shows "\<exists>rs r. out = Done rs \<and> Client_RegistryStats ops c = (r, c')"
  using assms unfolding RegistryHandler_Stats_def by (auto split: handler_splits)

section \<open>Every change is authorised\<close>

lemma writes_view:
  assumes "writes v doc v'"
  obtains doc' where "same_but_updated doc' doc" "v' = v(doc_ID doc \<mapsto> doc')"
  using assms by (auto simp: writes_def)

lemma authorised_registry_ok:
  assumes "authorised P op v v'" "registry_ok v"
  shows "registry_ok v'"
  using assms
proof (cases rule: authorised.cases)
  case (register body req key sg t)
  then show ?thesis using assms(2) by (auto simp: registry_ok_def registered_doc_def Let_def)
next
  case (revoke body req doc key sg)
  from revoke(7) obtain doc' where
    doc': "same_but_updated doc' (doc\<lparr>doc_Deactivated := True\<rparr>)" "v' = v(doc_ID doc \<mapsto> doc')"
    by (auto elim: writes_view)
  from assms(2) revoke(3) obtain k where "doc_ID doc = rev_DID req" "isValidDID (rev_DID req)"
    "length k = PublicKeySize" "doc_PublicKeyBase64 doc = StdEncode k"
    by (rule registry_okD)
  then show ?thesis using assms(2) doc'(2) same_but_updated_fields [OF doc'(1)]
    by (auto simp: registry_ok_def)
next
  case (update body req did doc key newkey sg t)
  from update(13) obtain doc' where
    doc': "same_but_updated doc' (updated_doc t \<lparr>up_DID = did, up_PublicKey = newkey, up_Context = upd_Context req\<rparr> doc)"
      "v' = v(doc_ID doc \<mapsto> doc')"
    by (auto elim: writes_view)
  from assms(2) update(5) have "doc_ID doc = did" by (rule registry_okD)
  then show ?thesis using assms(2) doc'(2) same_but_updated_fields [OF doc'(1)] update
    by (auto simp: registry_ok_def)
qed

context did_store
begin

lemma serve_authorised:
  assumes inv: "cinv c" and ok: "registry_ok (cview c)" and sv: "did_serve P ops clk op c = (out, c')"
  shows "cinv c'" "cview c' = cview c \<or> authorised P op (cview c) (cview c')" "out \<noteq> Panic"
proof -
  have "cinv c' \<and> (cview c' = cview c \<or> authorised P op (cview c) (cview c')) \<and> out \<noteq> Panic"
  proof (cases op)
    case (OpRegister body)
    with sv have h: "DIDHandler_Register P ops clk c body = (out, c')" by (simp add: did_serve_def)
    from Register_paths [OF h] show ?thesis
    proof (elim disjE exE conjE, goal_cases)
      case 1
      then show ?case using inv by simp
    next
      case (2 req key sg r c1)
      note ex = DIDExists_law [OF inv 2(7)]
      then have inv1: "cinv c1" and v1: "cview c1 = cview c" by blast+
      show ?case
      proof (cases "r = Inr False")
        case True
        with 2 obtain q rs where
          q: "Client_RegisterDID P ops (clk 0) c1 \<lparr>rp_DID = reg_DID req, rp_PublicKey = key\<rparr> = (q, c')"
          and out: "out = Done rs" by auto
        have "cview c (reg_DID req) = None" using ex True by auto
        then show ?thesis
          using RegisterDID_law [OF inv1 q] v1 out authorised.register [where v = "cview c", OF 2(1-6)] OpRegister by auto
      next
        case False
        then show ?thesis using 2 inv1 v1 by auto
      qed
    qed
  next
    case (OpResolve did)
    with sv have "DIDHandler_Resolve ops c did = (out, c')" by (simp add: did_serve_def)
    from Resolve_paths [OF this] show ?thesis using inv ResolveDID_law [OF inv] by blast
  next
    case (OpRevoke body)
    with sv have h: "DIDHandler_Revoke P ops clk c body = (out, c')" by (simp add: did_serve_def)
    from Revoke_paths [OF h] show ?thesis
    proof (elim disjE exE conjE, goal_cases)
      case 1
      then show ?case using inv by simp
    next
      case (2 req r c1)
      then show ?case using ResolveDID_law [OF inv 2(2)] by auto
    next
      case (3 req r c1 doc key sg)
      have inv1: "cinv c1" and v1: "cview c1 = cview c" and doc: "cview c (rev_DID req) = Some doc"
        using ResolveDID_law [OF inv 3(2)] 3(3) by blast+
      from ok doc 3(4) have len: "length key = PublicKeySize" by (auto elim: registry_okD)
      with 3 obtain q rs where sg: "sig_ok P key (revoke_message (rev_DID req) (rev_Timestamp req)) sg"
        and q: "Client_RevokeDID ops (clk 0) c1 (rev_DID req) = (q, c')" and out: "out = Done rs" by auto
      show ?case
        using RevokeDID_law [OF inv1 q] authorised.revoke [where v = "cview c", OF 3(1) doc 3(4,5) sg] doc v1 out OpRevoke
        by auto
    qed
  next
    case (OpUpdate did body)
    with sv have h: "DIDHandler_Update P ops clk c did body = (out, c')" by (simp add: did_serve_def)
    from Update_paths [OF h] show ?thesis
    proof (elim exE conjE disjE [of "\<exists>rs. out = Done rs \<and> c' = c \<and> _ rs"], goal_cases)
      case 1
      then show ?case using inv by simp
    next
      case (2 req r c1)
      have inv1: "cinv c1" and v1: "cview c1 = cview c" using ResolveDID_law [OF inv 2(4)] by blast+
      from 2(5) show ?case
      proof (elim disjE exE conjE, goal_cases)
        case 1
        then show ?case using inv1 v1 by simp
      next
        case (2 doc key newkey sg q rs)
        then have doc: "cview c did = Some doc" using ResolveDID_law [OF inv] \<open>Client_ResolveDID ops c did = (r, c1)\<close> by blast
        show ?case
          using UpdateDID_law [OF inv1 2(9)] v1 doc 2
            authorised.update [where v = "cview c", OF \<open>decode_update body = Some req\<close> \<open>upd_DID req = did \<or> upd_DID req = []\<close>
              \<open>isValidDID did\<close> doc 2(2-8)] OpUpdate by auto
      qed
    qed
  next
    case OpStats
    with sv have "RegistryHandler_Stats ops c = (out, c')" by (simp add: did_serve_def)
    from Stats_paths [OF this] show ?thesis using RegistryStats_law [OF inv] by blast
  qed
  then show "cinv c'" "cview c' = cview c \<or> authorised P op (cview c) (cview c')" "out \<noteq> Panic" by blast+
qed

end

section \<open>What the authorised changes keep\<close>

text \<open>
  How a document may change over time: it keeps its identifier and its creation time, a
  revoked one stays revoked and keeps its key and its context.
\<close>

definition doc_succ :: "DIDDocument \<Rightarrow> DIDDocument \<Rightarrow> bool" where
  "doc_succ a b \<longleftrightarrow> doc_ID b = doc_ID a \<and> doc_Created b = doc_Created a
     \<and> (doc_Deactivated a \<longrightarrow> doc_Deactivated b \<and> doc_PublicKeyBase64 b = doc_PublicKeyBase64 a
          \<and> doc_Context b = doc_Context a)"

lemma doc_succ_refl [simp]: "doc_succ a a"
  by (simp add: doc_succ_def)

lemma doc_succ_trans: "doc_succ a b \<Longrightarrow> doc_succ b c \<Longrightarrow> doc_succ a c"
  by (auto simp: doc_succ_def)

text \<open>What a request that changes the key of a DID must have been.\<close>

definition key_change_signed :: "prims \<Rightarrow> did_op \<Rightarrow> string \<Rightarrow> DIDDocument \<Rightarrow> DIDDocument \<Rightarrow> bool" where
  "key_change_signed P op d a b \<longleftrightarrow>
     (\<exists>body req key newkey sg. op = OpUpdate d body \<and> decode_update body = Some req
        \<and> \<not> doc_Deactivated a
        \<and> StdDecode (doc_PublicKeyBase64 a) = Some key
        \<and> StdDecode (upd_PublicKeyBase64 req) = Some newkey \<and> length newkey = PublicKeySize
        \<and> doc_PublicKeyBase64 b = StdEncode newkey
        \<and> StdDecode (upd_SignatureBase64 req) = Some sg
        \<and> sig_ok P key (update_message d (upd_PublicKeyBase64 req) (upd_Timestamp req)) sg)"

lemma authorised_at:
  assumes au: "authorised P op v v'" and ok: "registry_ok v" and d: "v d = Some a"
  obtains b where "v' d = Some b" "doc_succ a b"
    "doc_PublicKeyBase64 b \<noteq> doc_PublicKeyBase64 a \<or> doc_Context b \<noteq> doc_Context a
       \<Longrightarrow> key_change_signed P op d a b"
  using au
proof (cases rule: authorised.cases)
  case (register body req key sg t)
  then have "d \<noteq> reg_DID req" using d by auto
  then show thesis using that [of a] register(2) d by simp
next
  case (revoke body req doc key sg)
  from revoke(7) obtain doc' where
    doc': "same_but_updated doc' (doc\<lparr>doc_Deactivated := True\<rparr>)" "v' = v(doc_ID doc \<mapsto> doc')"
    by (auto elim: writes_view)
  from ok revoke(3) have id: "doc_ID doc = rev_DID req" by (rule registry_okD)
  note f = same_but_updated_fields [OF doc'(1)]
  show thesis
  proof (cases "d = rev_DID req")
    case True
    then have "doc = a" using revoke(3) d by simp
    then show thesis using that [of doc'] True doc'(2) f id by (simp add: doc_succ_def)
  next
    case False
    then show thesis using that [of a] d doc'(2) id by simp
  qed
next
  case (update body req did doc key newkey sg t)
  from update(13) obtain doc' where
    doc': "same_but_updated doc' (updated_doc t \<lparr>up_DID = did, up_PublicKey = newkey, up_Context = upd_Context req\<rparr> doc)"
      "v' = v(doc_ID doc \<mapsto> doc')"
    by (auto elim: writes_view)
  from ok update(5) have id: "doc_ID doc = did" by (rule registry_okD)
  note f = same_but_updated_fields [OF doc'(1)]
  show thesis
  proof (cases "d = did")
    case True
    then have a: "doc = a" using update(5) d by simp
    have "key_change_signed P op d a doc'"
      unfolding key_change_signed_def using update True a f by auto
    then show thesis using that [of doc'] True doc'(2) f id a update(6) by (simp add: doc_succ_def)
  next
    case False
    then show thesis using that [of a] d doc'(2) id by simp
  qed
qed

context did_store
begin

lemma reach_ok:
  assumes "did_reach P ops c0 c" "cinv c0" "registry_ok (cview c0)"
  shows "cinv c \<and> registry_ok (cview c)"
  using assms
proof (induction rule: did_reach.induct)
  case (serve c clk op out c')
  then have inv: "cinv c" and ok: "registry_ok (cview c)" by blast+
  note sa = serve_authorised [OF inv ok serve.hyps(2)]
  then show ?case using authorised_registry_ok [OF _ ok] ok by metis
qed simp

lemma serve_at:
  assumes "cinv c" "registry_ok (cview c)" "did_serve P ops clk op c = (out, c')" "cview c d = Some a"
  obtains b where "cview c' d = Some b" "doc_succ a b"
    "doc_PublicKeyBase64 b \<noteq> doc_PublicKeyBase64 a \<or> doc_Context b \<noteq> doc_Context a
       \<Longrightarrow> key_change_signed P op d a b"
proof (cases "cview c' = cview c")
  case True
  then show thesis using that [of a] assms(4) by simp
next
  case False
  then have "authorised P op (cview c) (cview c')" using serve_authorised(2) [OF assms(1-3)] by blast
  from this assms(2,4) show thesis by (rule authorised_at) (use that in blast)
qed

lemma reach_succ:
  assumes "did_reach P ops c c'" "cinv c" "registry_ok (cview c)" "cview c d = Some a"
  shows "\<exists>b. cview c' d = Some b \<and> doc_succ a b"
  using assms
proof (induction rule: did_reach.induct)
  case (serve c1 clk op out c2)
  then obtain b where b: "cview c1 d = Some b" "doc_succ a b" by blast
  have "cinv c1" "registry_ok (cview c1)" using reach_ok [OF serve.hyps(1)] serve.prems by blast+
  from serve_at [OF this serve.hyps(2) b(1)] obtain b' where "cview c2 d = Some b'" "doc_succ b b'" by blast
  then show ?case using b doc_succ_trans by blast
qed auto

end

section \<open>When the endpoints accept\<close>

text \<open>
  The conditions under which the endpoints must accept, over the registry alone. With a store
  that does not fail they are also sufficient.
\<close>

definition register_valid :: "prims \<Rightarrow> (string \<Rightarrow> DIDDocument option) \<Rightarrow> json option
    \<Rightarrow> RegisterDIDRequest \<Rightarrow> string \<Rightarrow> bool" where
  "register_valid P v body req key \<longleftrightarrow> decode_register body = Some req \<and> isValidDID (reg_DID req)
     \<and> StdDecode (reg_PublicKeyBase64 req) = Some key \<and> length key = PublicKeySize
     \<and> (\<exists>sg. StdDecode (reg_SignatureBase64 req) = Some sg
          \<and> sig_ok P key (register_message (reg_DID req) (reg_Timestamp req)) sg)
     \<and> v (reg_DID req) = None"

definition revoke_valid :: "prims \<Rightarrow> (string \<Rightarrow> DIDDocument option) \<Rightarrow> json option
    \<Rightarrow> RevokeDIDRequest \<Rightarrow> DIDDocument \<Rightarrow> bool" where
  "revoke_valid P v body req doc \<longleftrightarrow> decode_revoke body = Some req \<and> v (rev_DID req) = Some doc
     \<and> (\<exists>key sg. StdDecode (doc_PublicKeyBase64 doc) = Some key
          \<and> StdDecode (rev_SignatureBase64 req) = Some sg
          \<and> sig_ok P key (revoke_message (rev_DID req) (rev_Timestamp req)) sg)"

definition update_valid :: "prims \<Rightarrow> (string \<Rightarrow> DIDDocument option) \<Rightarrow> string \<Rightarrow> json option
    \<Rightarrow> UpdateDIDRequest \<Rightarrow> DIDDocument \<Rightarrow> string \<Rightarrow> bool" where
  "update_valid P v did body req doc newkey \<longleftrightarrow> decode_update body = Some req
     \<and> (upd_DID req = did \<or> upd_DID req = []) \<and> isValidDID did
     \<and> v did = Some doc \<and> \<not> doc_Deactivated doc
     \<and> StdDecode (upd_PublicKeyBase64 req) = Some newkey \<and> length newkey = PublicKeySize
     \<and> (\<exists>key sg. StdDecode (doc_PublicKeyBase64 doc) = Some key
          \<and> StdDecode (upd_SignatureBase64 req) = Some sg
          \<and> sig_ok P key (update_message did (upd_PublicKeyBase64 req) (upd_Timestamp req)) sg)"

lemma registry_ok_keylen:
  assumes "registry_ok v" "v d = Some doc" "StdDecode (doc_PublicKeyBase64 doc) = Some key"
  shows "length key = PublicKeySize"
  using assms by (auto elim: registry_okD)

context reliable_did_store
begin

lemma Register_iff:
  assumes inv: "cinv c" and h: "DIDHandler_Register P ops clk c body = (out, c')"
  shows "(\<exists>rs. out = Done rs \<and> rs_status rs = 201) \<longleftrightarrow> (\<exists>req key. register_valid P (cview c) body req key)"
    and "register_valid P (cview c) body req key \<Longrightarrow> cview c' =
      (cview c)(reg_DID req \<mapsto> registered_doc (clk 0) \<lparr>rp_DID = reg_DID req, rp_PublicKey = key\<rparr>)"
proof -
  have "(\<exists>rs. out = Done rs \<and> rs_status rs = 201) \<and> cview c' =
      (cview c)(reg_DID req \<mapsto> registered_doc (clk 0) \<lparr>rp_DID = reg_DID req, rp_PublicKey = key\<rparr>)"
    if v: "register_valid P (cview c) body req key" for req key
  proof -
    obtain r c1 where ex: "Client_DIDExists ops c (reg_DID req) = (r, c1)" by fastforce
    have r: "r = Inr False" using DIDExists_ok [OF inv ex] v by (simp add: register_valid_def)
    have inv1: "cinv c1" and v1: "cview c1 = cview c" using DIDExists_law [OF inv ex] by blast+
    obtain q c2 where rg: "Client_RegisterDID P ops (clk 0) c1
        \<lparr>rp_DID = reg_DID req, rp_PublicKey = key\<rparr> = (q, c2)" by fastforce
    from v have "cview c1 (reg_DID req) = None" by (simp add: v1 register_valid_def)
    then obtain hash where q: "q = Inr hash" using RegisterDID_ok [OF inv1 _ rg] by simp
    have "(\<exists>rs. out = Done rs \<and> rs_status rs = 201) \<and> c' = c2"
      using h v ex r rg q by (auto simp: DIDHandler_Register_def register_valid_def)
    then show ?thesis using RegisterDID_law [OF inv1 rg] q v1 by auto
  qed
  moreover have "\<exists>req key. register_valid P (cview c) body req key"
    if "\<exists>rs. out = Done rs \<and> rs_status rs = 201"
    using Register_paths [OF h] that
  proof (elim disjE exE conjE, goal_cases)
    case (2 rs req key sg r c1)
    then have "r = Inr False" by (auto split: if_splits)
    then have "cview c (reg_DID req) = None" using DIDExists_law [OF inv 2(9)] by auto
    then show ?case using 2 unfolding register_valid_def by blast
  qed auto
  ultimately show "(\<exists>rs. out = Done rs \<and> rs_status rs = 201) \<longleftrightarrow> (\<exists>req key. register_valid P (cview c) body req key)"
    and "register_valid P (cview c) body req key \<Longrightarrow> cview c' =
      (cview c)(reg_DID req \<mapsto> registered_doc (clk 0) \<lparr>rp_DID = reg_DID req, rp_PublicKey = key\<rparr>)"
    by blast+
qed

lemma Revoke_iff:
  assumes inv: "cinv c" and ok: "registry_ok (cview c)" and h: "DIDHandler_Revoke P ops clk c body = (out, c')"
  shows "(\<exists>rs. out = Done rs \<and> rs_status rs = 200) \<longleftrightarrow> (\<exists>req doc. revoke_valid P (cview c) body req doc)"
    and "revoke_valid P (cview c) body req doc \<Longrightarrow> writes (cview c) (doc\<lparr>doc_Deactivated := True\<rparr>) (cview c')"
proof -
  have "(\<exists>rs. out = Done rs \<and> rs_status rs = 200) \<and> writes (cview c) (doc\<lparr>doc_Deactivated := True\<rparr>) (cview c')"
    if v: "revoke_valid P (cview c) body req doc" for req doc
  proof -
    from v obtain key sg where v: "decode_revoke body = Some req" "cview c (rev_DID req) = Some doc"
      "StdDecode (doc_PublicKeyBase64 doc) = Some key" "StdDecode (rev_SignatureBase64 req) = Some sg"
      "sig_ok P key (revoke_message (rev_DID req) (rev_Timestamp req)) sg"
      by (auto simp: revoke_valid_def)
    have len: "length key = PublicKeySize" using registry_ok_keylen [OF ok v(2,3)] .
    obtain r c1 where rs: "Client_ResolveDID ops c (rev_DID req) = (r, c1)" by fastforce
    have r: "r = Inr doc" using ResolveDID_ok [OF inv rs] v by simp
    have inv1: "cinv c1" and v1: "cview c1 = cview c" using ResolveDID_law [OF inv rs] by blast+
    obtain q c2 where rv: "Client_RevokeDID ops (clk 0) c1 (rev_DID req) = (q, c2)" by fastforce
    have q: "q = Inr ()" by (rule RevokeDID_ok [OF inv1 _ rv]) (simp add: v1 v)
    have "(\<exists>rs. out = Done rs \<and> rs_status rs = 200) \<and> c' = c2"
      using h v len rs r rv q by (auto simp: DIDHandler_Revoke_def)
    then show ?thesis using RevokeDID_law [OF inv1 rv] q v1 v by auto
  qed
  moreover have "\<exists>req doc. revoke_valid P (cview c) body req doc"
    if "\<exists>rs. out = Done rs \<and> rs_status rs = 200"
    using Revoke_paths [OF h] that
  proof (elim disjE exE conjE, goal_cases)
    case (3 rs req r c1 doc key sg)
    have doc: "cview c (rev_DID req) = Some doc" using ResolveDID_law [OF inv 3(4)] 3(5) by blast
    then have "length key = PublicKeySize" using registry_ok_keylen [OF ok doc] 3 by simp
    then show ?case using 3 doc unfolding revoke_valid_def by auto
  qed auto
  ultimately show "(\<exists>rs. out = Done rs \<and> rs_status rs = 200) \<longleftrightarrow> (\<exists>req doc. revoke_valid P (cview c) body req doc)"
    and "revoke_valid P (cview c) body req doc \<Longrightarrow> writes (cview c) (doc\<lparr>doc_Deactivated := True\<rparr>) (cview c')"
    by blast+
qed

lemma Update_iff:
  assumes inv: "cinv c" and ok: "registry_ok (cview c)" and h: "DIDHandler_Update P ops clk c did body = (out, c')"
  shows "(\<exists>rs. out = Done rs \<and> rs_status rs = 200) \<longleftrightarrow>
      (\<exists>req doc newkey. update_valid P (cview c) did body req doc newkey)"
    and "update_valid P (cview c) did body req doc newkey \<Longrightarrow> writes (cview c)
        (updated_doc (clk 0) \<lparr>up_DID = did, up_PublicKey = newkey, up_Context = upd_Context req\<rparr> doc) (cview c')"
proof -
  have "(\<exists>rs. out = Done rs \<and> rs_status rs = 200) \<and> writes (cview c)
        (updated_doc (clk 0) \<lparr>up_DID = did, up_PublicKey = newkey, up_Context = upd_Context req\<rparr> doc) (cview c')"
    if v: "update_valid P (cview c) did body req doc newkey" for req doc newkey
  proof -
    let ?p = "\<lparr>up_DID = did, up_PublicKey = newkey, up_Context = upd_Context req\<rparr>"
    from v obtain key sg where v: "decode_update body = Some req" "upd_DID req = did \<or> upd_DID req = []"
      "isValidDID did" "cview c did = Some doc" "\<not> doc_Deactivated doc"
      "StdDecode (upd_PublicKeyBase64 req) = Some newkey" "length newkey = PublicKeySize"
      "StdDecode (doc_PublicKeyBase64 doc) = Some key" "StdDecode (upd_SignatureBase64 req) = Some sg"
      "sig_ok P key (update_message did (upd_PublicKeyBase64 req) (upd_Timestamp req)) sg"
      by (auto simp: update_valid_def)
    have len: "length key = PublicKeySize" using registry_ok_keylen [OF ok v(4,8)] .
    obtain r c1 where rs: "Client_ResolveDID ops c did = (r, c1)" by fastforce
    have r: "r = Inr doc" using ResolveDID_ok [OF inv rs] v by simp
    have inv1: "cinv c1" and v1: "cview c1 = cview c" using ResolveDID_law [OF inv rs] by blast+
    obtain q c2 where up: "Client_UpdateDID P ops (clk 0) (clk 1) c1 ?p = (q, c2)" by fastforce
    obtain hash where q: "q = Inr hash"
      using UpdateDID_ok [OF inv1 _ v(5) up] by (auto simp: v1 v)
    have "(\<exists>rs. out = Done rs \<and> rs_status rs = 200) \<and> c' = c2"
      using h v len rs r up q
      by (cases "upd_DID req = []") (auto simp: DIDHandler_Update_def Let_def)
    then show ?thesis using UpdateDID_law [OF inv1 up] q v1 v by auto
  qed
  moreover have "\<exists>req doc newkey. update_valid P (cview c) did body req doc newkey"
    if "\<exists>rs. out = Done rs \<and> rs_status rs = 200"
    using Update_paths [OF h] that
  proof (elim exE conjE disjE [of "\<exists>rs. out = Done rs \<and> c' = c \<and> _ rs"], goal_cases)
    case (2 rs req r c1)
    then have rs: "Client_ResolveDID ops c did = (r, c1)" by blast
    obtain doc key newkey sg where d: "r = Inr doc" "\<not> doc_Deactivated doc"
      "StdDecode (doc_PublicKeyBase64 doc) = Some key"
      "StdDecode (upd_PublicKeyBase64 req) = Some newkey" "length newkey = PublicKeySize"
      "StdDecode (upd_SignatureBase64 req) = Some sg"
      "sig_ok P key (update_message did (upd_PublicKeyBase64 req) (upd_Timestamp req)) sg"
      using 2 by auto
    have "cview c did = Some doc" using ResolveDID_law [OF inv rs] d(1) by blast
    then show ?case using 2 d unfolding update_valid_def by blast
  qed auto
  ultimately show "(\<exists>rs. out = Done rs \<and> rs_status rs = 200) \<longleftrightarrow>
      (\<exists>req doc newkey. update_valid P (cview c) did body req doc newkey)"
    and "update_valid P (cview c) did body req doc newkey \<Longrightarrow> writes (cview c)
        (updated_doc (clk 0) \<lparr>up_DID = did, up_PublicKey = newkey, up_Context = upd_Context req\<rparr> doc) (cview c')"
    by blast+
qed

lemma Resolve_response:
  assumes inv: "cinv c" and valid: "isValidDID did"
  shows "fst (DIDHandler_Resolve ops c did) =
    (case cview c did of
       None \<Rightarrow> Done (Error StatusNotFound ''DID not found'')
     | Some doc \<Rightarrow> Done (JSON StatusOK (GObj
         [(''didDocument'', document_payload doc),
          (''didDocumentMetadata'', GObj
            [(''created'', GStr (doc_Created doc)), (''updated'', GStr (doc_Updated doc)),
             (''deactivated'', GBool (doc_Deactivated doc))]),
          (''didResolutionMetadata'', GObj [(''contentType'', GStr ''application/did+ld+json'')])])))"
proof -
  obtain r c1 where rs: "Client_ResolveDID ops c did = (r, c1)" by fastforce
  show ?thesis using ResolveDID_ok [OF inv rs] rs valid
    by (auto simp: DIDHandler_Resolve_def split: option.splits)
qed

end

end
