(* ===== verification/Demo.thy ===== *)
theory Demo
  imports Http
begin

text \<open>
  Concrete parameters and requests for the closed examples of the development. The verification
  function of the demo accepts a signature whose first half is the key and whose second half is
  the key again; the digest and the number conversions are constants.
\<close>

definition demo_prims :: prims where
  "demo_prims = \<lparr>ed25519_check = (\<lambda>pk msg sig. sig = pk @ pk), sha256_Sum256 = (\<lambda>s. replicate 32 (CHR ''h'')),
     parse_float64 = (\<lambda>s. Some 0), format_float64 = (\<lambda>x. Some ''0'')\<rparr>"

definition demo_key :: string where "demo_key = replicate 32 (CHR ''A'')"
definition demo_key2 :: string where "demo_key2 = replicate 32 (CHR ''B'')"
definition demo_key64 :: string where "demo_key64 = StdEncode demo_key"
definition demo_key64_2 :: string where "demo_key64_2 = StdEncode demo_key2"
definition demo_sig64 :: string where "demo_sig64 = StdEncode (demo_key @ demo_key)"
definition demo_sig64_2 :: string where "demo_sig64_2 = StdEncode (demo_key2 @ demo_key2)"
definition demo_did :: string where "demo_did = ''did:uddi:z'' @ replicate 40 (CHR ''x'')"
definition demo_clock :: clock where "demo_clock i = (1700000000 + int i) * second"

definition demo_register :: "json option" where
  "demo_register = Some (JObject
     [(''did'', JString demo_did), (''publicKeyBase64'', JString demo_key64),
      (''signatureBase64'', JString demo_sig64), (''timestamp'', JString ''1'')])"

definition demo_revoke :: "json option" where
  "demo_revoke = Some (JObject
     [(''did'', JString demo_did), (''signatureBase64'', JString demo_sig64), (''timestamp'', JString ''2'')])"

definition demo_update :: "json option" where
  "demo_update = Some (JObject
     [(''publicKeyBase64'', JString demo_key64_2), (''signatureBase64'', JString demo_sig64),
      (''timestamp'', JString ''3'')])"

text \<open>The facts the examples evaluate with; the encoded strings stay folded.\<close>

lemma demo_decodes [simp]:
  "StdDecode demo_key64 = Some demo_key" "StdDecode demo_key64_2 = Some demo_key2"
  "StdDecode demo_sig64 = Some (demo_key @ demo_key)"
  "StdDecode demo_sig64_2 = Some (demo_key2 @ demo_key2)"
  by (simp_all add: demo_key64_def demo_key64_2_def demo_sig64_def demo_sig64_2_def)

lemma demo_lengths [simp]:
  "length demo_key = PublicKeySize" "length demo_key2 = PublicKeySize" "length demo_did = 50"
  by (simp_all add: demo_key_def demo_key2_def demo_did_def PublicKeySize_def)

lemma demo_keys_differ [simp]: "demo_key \<noteq> demo_key2" "demo_key64 \<noteq> demo_key64_2"
proof -
  show ne: "demo_key \<noteq> demo_key2" by (simp add: demo_key_def demo_key2_def numeral_eq_Suc)
  then show "demo_key64 \<noteq> demo_key64_2" using demo_decodes(1,2) by (metis option.inject)
qed

lemma demo_sig_ok [simp]:
  "sig_ok demo_prims demo_key m (demo_key @ demo_key)"
  "sig_ok demo_prims demo_key2 m (demo_key2 @ demo_key2)"
  "\<not> sig_ok demo_prims demo_key2 m (demo_key @ demo_key)"
  by (simp_all add: sig_ok_def demo_prims_def PublicKeySize_def)

lemma demo_did_nonempty [simp]: "demo_did \<noteq> []"
  by (simp add: demo_did_def)

end
