(* ===== verification/DidRuns.thy ===== *)
theory DidRuns
  imports DidHandler Demo
begin

text \<open>
  The properties of the DID registry, over the model's own stores: a client of the memory store
  as \<open>NewClient\<close> makes it, and a client of a Postgres store whose table starts empty and whose
  driver fails by an arbitrary script. Each rests on the lemmas of the contract in
  \<^verbatim>\<open>DidHandler\<close>, through the interpretations for the two stores.
\<close>

section \<open>Runs of the two registries\<close>

definition empty_dids :: "db_fault list \<Rightarrow> PostgresDIDStore" where
  "empty_dids faults = \<lparr>sql_rows = [], sql_faults = faults\<rparr>"

definition mem_run :: "prims \<Rightarrow> string \<Rightarrow> MemoryDIDStore Client \<Rightarrow> bool" where
  "mem_run P rpc c \<longleftrightarrow> did_reach P memory_did_store (NewClient rpc) c"

definition pg_run :: "prims \<Rightarrow> string \<Rightarrow> db_fault list \<Rightarrow> PostgresDIDStore Client \<Rightarrow> bool" where
  "pg_run P rpc faults c \<longleftrightarrow> did_reach P postgres_did_store (NewClientWithStore rpc (empty_dids faults)) c"

abbreviation mview :: "MemoryDIDStore Client \<Rightarrow> string \<Rightarrow> DIDDocument option" where
  "mview c \<equiv> mem_view (cl_store c)"

abbreviation pview :: "PostgresDIDStore Client \<Rightarrow> string \<Rightarrow> DIDDocument option" where
  "pview c \<equiv> pg_view (cl_store c)"

lemma new_client_ok:
  "mem_inv (cl_store (NewClient rpc))" "registry_ok (mview (NewClient rpc))"
  "pg_inv (cl_store (NewClientWithStore rpc (empty_dids fs)))"
  "pg_quiet (cl_store (NewClientWithStore rpc (empty_dids [])))"
  "registry_ok (pview (NewClientWithStore rpc (empty_dids fs)))"
  by (simp_all add: NewClient_def NewClientWithStore_def NewMemoryDIDStore_def empty_dids_def mem_inv_def
      mem_view_def registry_ok_def pg_inv_def pg_view_def pg_quiet_def db_wf_def)

lemma mem_run_ok:
  assumes "mem_run P rpc c" shows "mem_inv (cl_store c)" "registry_ok (mview c)"
  using assms mem.reach_ok new_client_ok(1,2) unfolding mem_run_def by blast+

lemma pg_run_ok:
  assumes "pg_run P rpc fs c" shows "pg_inv (cl_store c)" "registry_ok (pview c)"
  using assms pg.reach_ok new_client_ok(3,5) unfolding pg_run_def by blast+

lemma pg_run_quiet:
  assumes "pg_run P rpc [] c" shows "pg_quiet (cl_store c)"
  using assms pgq.reach_ok new_client_ok(4,5) unfolding pg_run_def by blast

lemma did_reach_trans:
  "did_reach P ops b c \<Longrightarrow> did_reach P ops a b \<Longrightarrow> did_reach P ops a c"
  by (induction rule: did_reach.induct) (auto intro: did_reach.serve)

lemma fst_handled: "fst x = Done r \<Longrightarrow> x = (Done r, snd x)"
  by (cases x) simp

section \<open>The example run\<close>

lemma demo_valid [simp]: "isValidDID demo_did"
  by (simp add: isValidDID_def HasPrefix_def demo_did_def)

lemma demo_decode_register [simp]: "decode_register demo_register =
   Some \<lparr>reg_DID = demo_did, reg_PublicKeyBase64 = demo_key64, reg_SignatureBase64 = demo_sig64, reg_Timestamp = ''1''\<rparr>"
  by (simp add: decode_register_def demo_register_def Decode_def decode_struct_def field_for_def
      RegisterDIDRequest_fields_def go_defs)

lemma demo_decode_revoke [simp]: "decode_revoke demo_revoke =
   Some \<lparr>rev_DID = demo_did, rev_SignatureBase64 = demo_sig64, rev_Timestamp = ''2''\<rparr>"
  by (simp add: decode_revoke_def demo_revoke_def Decode_def decode_struct_def field_for_def
      RevokeDIDRequest_fields_def go_defs)

lemma demo_decode_update [simp]: "decode_update demo_update =
   Some \<lparr>upd_DID = [], upd_PublicKeyBase64 = demo_key64_2, upd_Context = [], upd_SignatureBase64 = demo_sig64, upd_Timestamp = ''3''\<rparr>"
  by (simp add: decode_update_def demo_update_def Decode_def decode_struct_def field_for_def
      UpdateDIDRequest_fields_def go_defs)

definition demo_doc :: DIDDocument where
  "demo_doc = registered_doc (demo_clock 0) \<lparr>rp_DID = demo_did, rp_PublicKey = demo_key\<rparr>"

lemma demo_doc_fields [simp]:
  "doc_ID demo_doc = demo_did" "doc_PublicKeyBase64 demo_doc = demo_key64" "\<not> doc_Deactivated demo_doc"
  by (simp_all add: demo_doc_def registered_doc_def Let_def demo_key64_def)

text \<open>A registration, then a revocation, in both stores.\<close>

definition demo_m1 :: "MemoryDIDStore Client" where
  "demo_m1 = snd (DIDHandler_Register demo_prims memory_did_store demo_clock (NewClient ''r'') demo_register)"
definition demo_m2 :: "MemoryDIDStore Client" where
  "demo_m2 = snd (DIDHandler_Revoke demo_prims memory_did_store demo_clock demo_m1 demo_revoke)"
definition demo_p1 :: "PostgresDIDStore Client" where
  "demo_p1 = snd (DIDHandler_Register demo_prims postgres_did_store demo_clock
     (NewClientWithStore ''r'' (empty_dids [])) demo_register)"
definition demo_p2 :: "PostgresDIDStore Client" where
  "demo_p2 = snd (DIDHandler_Revoke demo_prims postgres_did_store demo_clock demo_p1 demo_revoke)"

lemmas demo_run_defs = DIDHandler_Register_def DIDHandler_Revoke_def DIDHandler_Update_def handler_defs store_defs
  NewClient_def NewClientWithStore_def NewMemoryDIDStore_def empty_dids_def
  db_query_def db_exec_def sql_insert_def sql_update_def next_fault_def

lemma demo_m1_eq: "demo_m1 = \<lparr>cl_rpc = ''r'', cl_store = \<lparr>dids = [(demo_did, demo_doc)]\<rparr>\<rparr>"
  unfolding demo_m1_def by (simp add: demo_run_defs demo_doc_def)

lemma demo_p1_eq: "demo_p1 = \<lparr>cl_rpc = ''r'', cl_store = \<lparr>sql_rows = [(demo_did, did_row_of demo_doc)], sql_faults = []\<rparr>\<rparr>"
  unfolding demo_p1_def by (simp add: demo_run_defs demo_doc_def)

lemma demo_m2_eq: "demo_m2 = \<lparr>cl_rpc = ''r'', cl_store = \<lparr>dids =
    [(demo_did, demo_doc\<lparr>doc_Deactivated := True, doc_Updated := FormatRFC3339 (demo_clock 0)\<rparr>)]\<rparr>\<rparr>"
  unfolding demo_m2_def demo_m1_eq by (simp add: demo_run_defs)

lemma demo_runs [simp]:
  "mem_run demo_prims ''r'' demo_m1" "mem_run demo_prims ''r'' demo_m2"
  "pg_run demo_prims ''r'' [] demo_p1" "did_reach demo_prims memory_did_store demo_m1 demo_m2"
proof -
  have step: "did_reach demo_prims ops c0 (snd (did_serve demo_prims ops demo_clock op c))"
    if "did_reach demo_prims ops c0 c" for op and ops :: "'s DIDStore" and c0 c
    by (rule did_reach.serve [OF that, where out = "fst (did_serve demo_prims ops demo_clock op c)"]) simp
  show m1: "mem_run demo_prims ''r'' demo_m1" and "pg_run demo_prims ''r'' [] demo_p1"
    using step [OF did_reach.start, of _ _ "OpRegister demo_register"]
    by (simp_all add: mem_run_def pg_run_def did_serve_def demo_m1_def demo_p1_def)
  show m2: "did_reach demo_prims memory_did_store demo_m1 demo_m2"
    using step [OF did_reach.start, of _ _ "OpRevoke demo_revoke"] by (simp add: did_serve_def demo_m2_def)
  show "mem_run demo_prims ''r'' demo_m2"
    using m1 m2 did_reach_trans unfolding mem_run_def by blast
qed

lemma demo_views [simp]:
  "mview demo_m1 demo_did = Some demo_doc"
  "mview demo_m2 demo_did = Some (demo_doc\<lparr>doc_Deactivated := True, doc_Updated := FormatRFC3339 (demo_clock 0)\<rparr>)"
  "pview demo_p1 demo_did = Some demo_doc"
proof -
  show "pview demo_p1 demo_did = Some demo_doc"
    using did_of_row_of [of demo_doc] by (simp add: demo_p1_eq pg_view_def)
qed (simp_all add: demo_m1_eq demo_m2_eq mem_view_def)

end
