(* ===== verification/DidBackends.thy ===== *)
theory DidBackends
  imports DidRuns
begin

text \<open>
  The gateway chooses its DID store at start-up. Two stores that keep the contract and do not
  fail are interchangeable: driven by the same requests from registries that agree, they give
  the same answers and reach registries that agree. What they may differ in is the time of a
  document's last update and the name of the backend.
\<close>

section \<open>Registries and answers that agree\<close>

lemma same_but_updated_iff: "same_but_updated a b \<longleftrightarrow> a\<lparr>doc_Updated := []\<rparr> = b\<lparr>doc_Updated := []\<rparr>"
  unfolding same_but_updated_def by (cases a; cases b) auto

lemma same_but_updated_revoked:
  "same_but_updated a b \<Longrightarrow> same_but_updated (a\<lparr>doc_Deactivated := True\<rparr>) (b\<lparr>doc_Deactivated := True\<rparr>)"
  unfolding same_but_updated_iff by (cases a; cases b) simp

lemma same_but_updated_refl [simp]: "same_but_updated a a"
  unfolding same_but_updated_def by (rule exI [of _ "doc_Updated a"]) simp

lemma same_but_updated_sym: "same_but_updated a b \<Longrightarrow> same_but_updated b a"
  unfolding same_but_updated_def by (elim exE) (rule exI [of _ "doc_Updated b"], simp)

lemma same_but_updated_trans: "same_but_updated a b \<Longrightarrow> same_but_updated b c \<Longrightarrow> same_but_updated a c"
  by (auto simp: same_but_updated_def)

definition same_registry :: "(string \<Rightarrow> DIDDocument option) \<Rightarrow> (string \<Rightarrow> DIDDocument option) \<Rightarrow> bool" where
  "same_registry v w \<longleftrightarrow> (\<forall>d. rel_option same_but_updated (v d) (w d))"

lemma same_registryD:
  assumes "same_registry v w"
  shows "v d = None \<longleftrightarrow> w d = None" "v d = Some a \<Longrightarrow> \<exists>b. w d = Some b \<and> same_but_updated a b"
  using assms unfolding same_registry_def
  by (metis option.rel_distinct option.rel_inject(1) option.exhaust, metis option_rel_Some1)

lemma same_registry_upd:
  "same_registry v w \<Longrightarrow> same_but_updated a b \<Longrightarrow> same_registry (v(d \<mapsto> a)) (w(d \<mapsto> b))"
  by (simp add: same_registry_def)

text \<open>An answer without the values of \<open>updated\<close> and \<open>backend\<close>.\<close>

fun erase :: "gval \<Rightarrow> gval" where
  "erase (GObj ms) =
     GObj (map (\<lambda>(k, v). (k, if k = ''updated'' \<or> k = ''backend'' then GNil else erase v)) ms)"
| "erase v = v"

definition same_answer :: "response outcome \<Rightarrow> response outcome \<Rightarrow> bool" where
  "same_answer x y \<longleftrightarrow> map_outcome (\<lambda>rs. rs\<lparr>rs_body := erase (rs_body rs)\<rparr>) x
                      = map_outcome (\<lambda>rs. rs\<lparr>rs_body := erase (rs_body rs)\<rparr>) y"

lemma same_answer_refl [simp]: "same_answer x x"
  by (simp add: same_answer_def)

lemma same_answer_JSON: "erase p = erase q \<Longrightarrow> same_answer (Done (JSON s p)) (Done (JSON s q))"
  by (simp add: same_answer_def JSON_def)

lemma erase_document: "same_but_updated a b \<Longrightarrow> erase (document_payload a) = erase (document_payload b)"
  by (auto simp: same_but_updated_def document_payload_def strings_payload_def)

lemma same_registry_counts:
  assumes "same_registry v w"
  shows "dom v = dom w" "{d. \<exists>doc. v d = Some doc \<and> doc_Deactivated doc} = {d. \<exists>doc. w d = Some doc \<and> doc_Deactivated doc}"
proof -
  show "dom v = dom w" unfolding dom_def by (simp only: same_registryD(1) [OF assms])
  have "doc_Deactivated a = doc_Deactivated b" if "v d = Some a" "w d = Some b" for d a b
    using same_registryD(2) [OF assms that(1)] that(2) same_but_updated_fields(5) by fastforce
  then show "{d. \<exists>doc. v d = Some doc \<and> doc_Deactivated doc} = {d. \<exists>doc. w d = Some doc \<and> doc_Deactivated doc}"
    using same_registryD(1) [OF assms] by (auto, metis not_Some_eq, metis not_Some_eq)
qed

text \<open>The answers to a list of requests, each with its clock, and the client after them.\<close>

fun did_run :: "prims \<Rightarrow> 's DIDStore \<Rightarrow> (clock \<times> did_op) list \<Rightarrow> 's Client
    \<Rightarrow> response outcome list \<times> 's Client" where
  "did_run P ops [] c = ([], c)"
| "did_run P ops ((clk, op) # reqs) c =
     (let (out, c') = did_serve P ops clk op c; (outs, c'') = did_run P ops reqs c' in (out # outs, c''))"

section \<open>Two stores that do not fail\<close>

locale two_did_stores =
  A: reliable_did_store opsA viewA invA + B: reliable_did_store opsB viewB invB
  for opsA :: "'a DIDStore" and viewA invA and opsB :: "'b DIDStore" and viewB invB
begin

definition agree :: "'a Client \<Rightarrow> 'b Client \<Rightarrow> bool" where
  "agree a b \<longleftrightarrow> A.cinv a \<and> B.cinv b \<and> cl_rpc a = cl_rpc b \<and> same_registry (A.cview a) (B.cview b)"

lemma rpc_kept:
  "cl_rpc (snd (Client_DIDExists ops c d)) = cl_rpc c"
  "cl_rpc (snd (Client_ResolveDID ops c d)) = cl_rpc c"
  "cl_rpc (snd (Client_RegisterDID P ops t c p)) = cl_rpc c"
  "cl_rpc (snd (Client_RevokeDID ops t c d)) = cl_rpc c"
  "cl_rpc (snd (Client_UpdateDID P ops t t' c q)) = cl_rpc c"
  "cl_rpc (snd (Client_RegistryStats ops c)) = cl_rpc c"
  by (simp_all add: client_defs Let_def split: prod.splits sum.splits)

lemma agree_same_view:
  assumes "agree a b" "A.cinv a'" "A.cview a' = A.cview a" "cl_rpc a' = cl_rpc a"
    "B.cinv b'" "B.cview b' = B.cview b" "cl_rpc b' = cl_rpc b"
  shows "agree a' b'"
  using assms by (simp only: agree_def) 

lemma agree_DIDExists:
  assumes "agree a b"
  obtains r a' b' where "Client_DIDExists opsA a d = (Inr r, a')" "Client_DIDExists opsB b d = (Inr r, b')"
    "agree a' b'" "r \<longleftrightarrow> A.cview a' d \<noteq> None"
proof -
  obtain r a' where a: "Client_DIDExists opsA a d = (r, a')" by fastforce
  obtain q b' where b: "Client_DIDExists opsB b d = (q, b')" by fastforce
  from assms have inv: "A.cinv a" "B.cinv b" and reg: "same_registry (A.cview a) (B.cview b)" by (auto simp: agree_def)
  have ka: "A.cinv a'" "A.cview a' = A.cview a" and kb: "B.cinv b'" "B.cview b' = B.cview b"
    using A.DIDExists_law [OF inv(1) a] B.DIDExists_law [OF inv(2) b] by blast+
  have "agree a' b'"
    using agree_same_view [OF assms ka _ kb] rpc_kept(1) [of opsA a d] rpc_kept(1) [of opsB b d] a b by simp
  moreover have "r = Inr (A.cview a' d \<noteq> None)"
    unfolding ka(2) by (rule A.DIDExists_ok [OF inv(1) a])
  moreover have "q = Inr (A.cview a' d \<noteq> None)"
    unfolding ka(2) same_registryD(1) [OF reg] by (rule B.DIDExists_ok [OF inv(2) b])
  ultimately show thesis using that a b by blast
qed

lemma agree_ResolveDID:
  assumes "agree a b"
  obtains (none) a' b' where "Client_ResolveDID opsA a d = (Inl ErrDIDNotFound, a')"
      "Client_ResolveDID opsB b d = (Inl ErrDIDNotFound, b')" "agree a' b'"
  | (some) x y a' b' where "Client_ResolveDID opsA a d = (Inr x, a')" "Client_ResolveDID opsB b d = (Inr y, b')"
      "same_but_updated x y" "agree a' b'" "A.cview a' d = Some x" "B.cview b' d = Some y"
proof -
  obtain r a' where a: "Client_ResolveDID opsA a d = (r, a')" by fastforce
  obtain q b' where b: "Client_ResolveDID opsB b d = (q, b')" by fastforce
  from assms have inv: "A.cinv a" "B.cinv b" and reg: "same_registry (A.cview a) (B.cview b)" by (auto simp: agree_def)
  have ka: "A.cinv a'" "A.cview a' = A.cview a" and kb: "B.cinv b'" "B.cview b' = B.cview b"
    using A.ResolveDID_law [OF inv(1) a] B.ResolveDID_law [OF inv(2) b] by blast+
  have ag: "agree a' b'"
    using agree_same_view [OF assms ka _ kb] rpc_kept(2) [of opsA a d] rpc_kept(2) [of opsB b d] a b by simp
  note ra = A.ResolveDID_ok [OF inv(1) a] and qb = B.ResolveDID_ok [OF inv(2) b]
  show thesis
  proof (cases "A.cview a d")
    case None
    then have "B.cview b d = None" using same_registryD(1) [OF reg] by blast
    then show thesis using none [OF _ _ ag] a b ra qb None by simp
  next
    case (Some x)
    from same_registryD(2) [OF reg Some] obtain y where y: "B.cview b d = Some y" "same_but_updated x y" by blast
    then have "r = Inr x" "q = Inr y" using ra qb Some by simp_all
    then show thesis using some [OF _ _ y(2) ag] a b Some y(1) ka(2) kb(2) by simp
  qed
qed

lemma agree_writes:
  assumes "same_registry v w" "writes v x v'" "writes w y w'" "same_but_updated x y"
  shows "same_registry v' w'"
proof -
  obtain x' y' where "same_but_updated x' x" "v' = v(doc_ID x \<mapsto> x')"
    "same_but_updated y' y" "w' = w(doc_ID y \<mapsto> y')"
    using assms(2,3) by (auto elim!: writes_view)
  moreover have "doc_ID x = doc_ID y" using same_but_updated_fields(1) [OF assms(4)] .
  moreover have "same_but_updated x' y'"
    using calculation assms(4) same_but_updated_trans same_but_updated_sym by metis
  ultimately show ?thesis using same_registry_upd [OF assms(1)] by simp
qed

lemma agree_RegisterDID:
  assumes "agree a b" "A.cview a (rp_DID p) = None"
  obtains h a' b' where "Client_RegisterDID P opsA t a p = (Inr h, a')"
    "Client_RegisterDID P opsB t b p = (Inr h, b')" "agree a' b'"
proof -
  obtain r a' where a: "Client_RegisterDID P opsA t a p = (r, a')" by fastforce
  obtain q b' where b: "Client_RegisterDID P opsB t b p = (q, b')" by fastforce
  from assms have inv: "A.cinv a" "B.cinv b" and reg: "same_registry (A.cview a) (B.cview b)" by (auto simp: agree_def)
  have free: "B.cview b (rp_DID p) = None" using same_registryD(1) [OF reg] assms(2) by blast
  note ra = A.RegisterDID_ok [OF inv(1) assms(2) a] and qb = B.RegisterDID_ok [OF inv(2) free b]
  show thesis
    using that a b ra qb A.RegisterDID_law [OF inv(1) a] B.RegisterDID_law [OF inv(2) b] assms(1)
      rpc_kept(3) [of P opsA t a p] rpc_kept(3) [of P opsB t b p] same_registry_upd [OF reg, of _ _ "rp_DID p"]
    by (simp add: agree_def)
qed

lemma agree_RevokeDID:
  assumes "agree a b" "A.cview a d = Some x" "B.cview b d = Some y" "same_but_updated x y"
  obtains a' b' where "Client_RevokeDID opsA t a d = (Inr (), a')"
    "Client_RevokeDID opsB t b d = (Inr (), b')" "agree a' b'"
proof -
  obtain r a' where a: "Client_RevokeDID opsA t a d = (r, a')" by fastforce
  obtain q b' where b: "Client_RevokeDID opsB t b d = (q, b')" by fastforce
  from assms have inv: "A.cinv a" "B.cinv b" and reg: "same_registry (A.cview a) (B.cview b)" by (auto simp: agree_def)
  note ok = A.RevokeDID_ok [OF inv(1) assms(2) a] B.RevokeDID_ok [OF inv(2) assms(3) b]
  have wr: "writes (A.cview a) (x\<lparr>doc_Deactivated := True\<rparr>) (A.cview a')" "A.cinv a'"
    "writes (B.cview b) (y\<lparr>doc_Deactivated := True\<rparr>) (B.cview b')" "B.cinv b'"
    using A.RevokeDID_law [OF inv(1) a] B.RevokeDID_law [OF inv(2) b] ok assms(2,3) by auto
  from agree_writes [OF reg wr(1,3) same_but_updated_revoked [OF assms(4)]] show thesis
    using that a b ok wr assms(1) rpc_kept(4) [of opsA t a d] rpc_kept(4) [of opsB t b d] by (simp add: agree_def)
qed

lemma agree_UpdateDID:
  assumes "agree a b" "A.cview a (up_DID p) = Some x" "B.cview b (up_DID p) = Some y" "same_but_updated x y"
    "\<not> doc_Deactivated x"
  obtains h a' b' where "Client_UpdateDID P opsA t t' a p = (Inr h, a')"
    "Client_UpdateDID P opsB t t' b p = (Inr h, b')" "agree a' b'"
proof -
  obtain r a' where a: "Client_UpdateDID P opsA t t' a p = (r, a')" by fastforce
  obtain q b' where b: "Client_UpdateDID P opsB t t' b p = (q, b')" by fastforce
  from assms have inv: "A.cinv a" "B.cinv b" and reg: "same_registry (A.cview a) (B.cview b)" by (auto simp: agree_def)
  have act: "\<not> doc_Deactivated y" using same_but_updated_fields(5) [OF assms(4)] assms(5) by simp
  note ok = A.UpdateDID_ok [OF inv(1) assms(2,5) a] B.UpdateDID_ok [OF inv(2) assms(3) act b]
  have wr: "writes (A.cview a) (updated_doc t p x) (A.cview a')" "A.cinv a'"
    "writes (B.cview b) (updated_doc t p y) (B.cview b')" "B.cinv b'"
    using A.UpdateDID_law [OF inv(1) a] B.UpdateDID_law [OF inv(2) b] ok assms(2,3) by auto
  have "same_but_updated (updated_doc t p x) (updated_doc t p y)"
    using assms(4) by (auto simp: same_but_updated_def updated_doc_def Let_def)
  from agree_writes [OF reg wr(1,3) this] show thesis
    using that a b ok wr assms(1) rpc_kept(5) [of P opsA t t' a p] rpc_kept(5) [of P opsB t t' b p]
    by (simp add: agree_def)
qed

text \<open>One request, whatever it is.\<close>

lemma agree_Register:
  assumes "agree a b"
  shows "same_answer (fst (DIDHandler_Register P opsA clk a body)) (fst (DIDHandler_Register P opsB clk b body))
    \<and> agree (snd (DIDHandler_Register P opsA clk a body)) (snd (DIDHandler_Register P opsB clk b body))"
proof (cases "decode_register body")
  case None
  then show ?thesis using assms by (simp add: DIDHandler_Register_def)
next
  case (Some req)
  obtain r a1 b1 where ex: "Client_DIDExists opsA a (reg_DID req) = (Inr r, a1)"
    "Client_DIDExists opsB b (reg_DID req) = (Inr r, b1)" "agree a1 b1" "r \<longleftrightarrow> A.cview a1 (reg_DID req) \<noteq> None"
    using agree_DIDExists [OF assms] by blast
  show ?thesis
  proof (cases r)
    case True
    then show ?thesis using Some ex assms
      by (auto simp: DIDHandler_Register_def split: option.splits outcome.splits bool.splits)
  next
    case False
    then have "A.cview a1 (rp_DID \<lparr>rp_DID = reg_DID req, rp_PublicKey = k\<rparr>) = None" for k using ex(4) by simp
    note reg = agree_RegisterDID [OF ex(3) this]
    have "\<exists>h a2 b2. Client_RegisterDID P opsA (clk 0) a1 \<lparr>rp_DID = reg_DID req, rp_PublicKey = k\<rparr> = (Inr h, a2)
      \<and> Client_RegisterDID P opsB (clk 0) b1 \<lparr>rp_DID = reg_DID req, rp_PublicKey = k\<rparr> = (Inr h, b2) \<and> agree a2 b2" for k
      by (rule reg) blast
    then obtain h a2 b2 where "\<And>k. Client_RegisterDID P opsA (clk 0) a1 \<lparr>rp_DID = reg_DID req, rp_PublicKey = k\<rparr> = (Inr (h k), a2 k)"
      "\<And>k. Client_RegisterDID P opsB (clk 0) b1 \<lparr>rp_DID = reg_DID req, rp_PublicKey = k\<rparr> = (Inr (h k), b2 k)"
      "\<And>k. agree (a2 k) (b2 k)" by metis
    then show ?thesis using Some ex(1-3) False assms
      by (auto simp: DIDHandler_Register_def split: option.splits outcome.splits bool.splits)
  qed
qed

lemma agree_Resolve:
  assumes "agree a b"
  shows "same_answer (fst (DIDHandler_Resolve opsA a d)) (fst (DIDHandler_Resolve opsB b d))
    \<and> agree (snd (DIDHandler_Resolve opsA a d)) (snd (DIDHandler_Resolve opsB b d))"
  using assms
proof (cases rule: agree_ResolveDID [of a b d, case_names none some])
  case (some x y a' b')
  then show ?thesis using assms same_but_updated_fields [OF some(3)] erase_document [OF some(3)]
    by (auto simp: DIDHandler_Resolve_def intro!: same_answer_JSON)
qed (use assms in \<open>auto simp: DIDHandler_Resolve_def\<close>)

lemma agree_Revoke:
  assumes "agree a b"
  shows "same_answer (fst (DIDHandler_Revoke P opsA clk a body)) (fst (DIDHandler_Revoke P opsB clk b body))
    \<and> agree (snd (DIDHandler_Revoke P opsA clk a body)) (snd (DIDHandler_Revoke P opsB clk b body))"
proof (cases "decode_revoke body")
  case None
  then show ?thesis using assms by (simp add: DIDHandler_Revoke_def)
next
  case (Some req)
  from assms show ?thesis
  proof (cases rule: agree_ResolveDID [of a b "rev_DID req", case_names none some])
    case (none a' b')
    then show ?thesis using Some by (simp add: DIDHandler_Revoke_def)
  next
    case (some x y a1 b1)
    obtain a2 b2 where "Client_RevokeDID opsA (clk 0) a1 (rev_DID req) = (Inr (), a2)"
      "Client_RevokeDID opsB (clk 0) b1 (rev_DID req) = (Inr (), b2)" "agree a2 b2"
      using agree_RevokeDID [OF some(4-6,3)] by blast
    then show ?thesis using Some some(1,2,4) same_but_updated_fields(4) [OF some(3)]
      by (auto simp: DIDHandler_Revoke_def split: option.splits outcome.splits bool.splits)
  qed
qed

lemma agree_Update:
  assumes "agree a b"
  shows "same_answer (fst (DIDHandler_Update P opsA clk a did body)) (fst (DIDHandler_Update P opsB clk b did body))
    \<and> agree (snd (DIDHandler_Update P opsA clk a did body)) (snd (DIDHandler_Update P opsB clk b did body))"
proof (cases "decode_update body")
  case None
  then show ?thesis using assms by (simp add: DIDHandler_Update_def)
next
  case (Some req0)
  define req where "req = (if upd_DID req0 = [] then req0\<lparr>upd_DID := did\<rparr> else req0)"
  from assms show ?thesis
  proof (cases rule: agree_ResolveDID [of a b "upd_DID req", case_names none some])
    case (none a' b')
    then show ?thesis using Some assms by (simp add: DIDHandler_Update_def req_def [symmetric])
  next
    case (some x y a1 b1)
    note same = same_but_updated_fields(4,5) [OF some(3)]
    show ?thesis
    proof (cases "doc_Deactivated x")
      case True
      then show ?thesis using Some assms some same by (simp add: DIDHandler_Update_def req_def [symmetric])
    next
      case False
      let ?p = "\<lambda>k. \<lparr>up_DID = upd_DID req, up_PublicKey = k, up_Context = upd_Context req\<rparr>"
      have "\<exists>h a2 b2. Client_UpdateDID P opsA (clk 0) (clk 1) a1 (?p k) = (Inr h, a2)
        \<and> Client_UpdateDID P opsB (clk 0) (clk 1) b1 (?p k) = (Inr h, b2) \<and> agree a2 b2" for k
        by (rule agree_UpdateDID [where p = "?p k", OF some(4) _ _ some(3) False]) (simp add: some(5), simp add: some(6), blast)
      then obtain h a2 b2 where "\<And>k. Client_UpdateDID P opsA (clk 0) (clk 1) a1 (?p k) = (Inr (h k), a2 k)"
        "\<And>k. Client_UpdateDID P opsB (clk 0) (clk 1) b1 (?p k) = (Inr (h k), b2 k)" "\<And>k. agree (a2 k) (b2 k)"
        by metis
      then show ?thesis using Some assms some(1,2,4) same False
        by (cases "StdDecode (doc_PublicKeyBase64 y)"; cases "StdDecode (upd_PublicKeyBase64 req)";
            cases "StdDecode (upd_SignatureBase64 req)")
          (auto simp: DIDHandler_Update_def Let_def req_def [symmetric] split: outcome.splits bool.splits)
    qed
  qed
qed

lemma agree_Stats:
  assumes "agree a b"
  shows "same_answer (fst (RegistryHandler_Stats opsA a)) (fst (RegistryHandler_Stats opsB b))
    \<and> agree (snd (RegistryHandler_Stats opsA a)) (snd (RegistryHandler_Stats opsB b))"
proof -
  obtain r a' where a: "Client_RegistryStats opsA a = (r, a')" by fastforce
  obtain q b' where b: "Client_RegistryStats opsB b = (q, b')" by fastforce
  from assms have inv: "A.cinv a" "B.cinv b" and reg: "same_registry (A.cview a) (B.cview b)" by (auto simp: agree_def)
  obtain s where s: "r = Inr s"
    using a A.Stats_ok [OF inv(1) prod.collapse [symmetric]]
    by (auto simp: Client_RegistryStats_def split: prod.splits sum.splits)
  obtain t where t: "q = Inr t"
    using b B.Stats_ok [OF inv(2) prod.collapse [symmetric]]
    by (auto simp: Client_RegistryStats_def split: prod.splits sum.splits)
  have ka: "A.cinv a'" "A.cview a' = A.cview a" and kb: "B.cinv b'" "B.cview b' = B.cview b"
    using A.RegistryStats_law [OF inv(1) a] B.RegistryStats_law [OF inv(2) b] by blast+
  have sa: "st_TotalDIDs s = int (card (dom (A.cview a)))" "st_TotalDIDs s = st_ActiveDIDs s + st_DeactivatedDIDs s"
    "st_DeactivatedDIDs s = int (card {d. \<exists>doc. A.cview a d = Some doc \<and> doc_Deactivated doc})"
    using A.RegistryStats_law [OF inv(1) a] s by blast+
  have sb: "st_TotalDIDs t = int (card (dom (B.cview b)))" "st_TotalDIDs t = st_ActiveDIDs t + st_DeactivatedDIDs t"
    "st_DeactivatedDIDs t = int (card {d. \<exists>doc. B.cview b d = Some doc \<and> doc_Deactivated doc})"
    using B.RegistryStats_law [OF inv(2) b] t by blast+
  have tot: "st_TotalDIDs s = st_TotalDIDs t" unfolding sa(1) sb(1) same_registry_counts(1) [OF reg] ..
  have dea: "st_DeactivatedDIDs s = st_DeactivatedDIDs t" unfolding sa(3) sb(3) same_registry_counts(2) [OF reg] ..
  note tot dea
  moreover have "st_ActiveDIDs s = st_ActiveDIDs t" using tot dea sa(2) sb(2) by linarith
  moreover have "agree a' b'"
    using agree_same_view [OF assms ka _ kb] rpc_kept(6) [of opsA a] rpc_kept(6) [of opsB b] a b by simp
  ultimately show ?thesis using a b s t by (simp add: RegistryHandler_Stats_def same_answer_JSON)
qed

lemma agree_serve:
  assumes "agree a b"
  shows "same_answer (fst (did_serve P opsA clk op a)) (fst (did_serve P opsB clk op b))"
    and "agree (snd (did_serve P opsA clk op a)) (snd (did_serve P opsB clk op b))"
  using agree_Register [OF assms] agree_Resolve [OF assms] agree_Revoke [OF assms] agree_Update [OF assms]
    agree_Stats [OF assms] by (simp_all add: did_serve_def split: did_op.split)

lemma agree_run:
  assumes "agree a b"
  shows "list_all2 same_answer (fst (did_run P opsA reqs a)) (fst (did_run P opsB reqs b))"
    and "agree (snd (did_run P opsA reqs a)) (snd (did_run P opsB reqs b))"
  using assms by (induction reqs arbitrary: a b) (simp_all add: split_paired_all agree_serve case_prod_unfold Let_def)

end

interpretation mem_pg: two_did_stores memory_did_store mem_view mem_inv postgres_did_store pg_view pg_quiet ..

end
