(* ===== verification/DidProperties.thy ===== *)
theory DidProperties
  imports DidBackends
begin

text \<open>
  What the DID endpoints guarantee, for the memory store and for the Postgres store; the claims
  about safety hold for every failure script of the database driver.
\<close>

section \<open>Safety\<close>

text \<open>
  No request of any kind, malformed or not, makes a DID endpoint panic on a registry the
  endpoints have built, although \<open>ed25519.Verify\<close> panics on a key of the wrong length and
  \<open>Revoke\<close> does not check the length itself; this holds for both stores, whatever the database
  driver does.
\<close>

theorem did_endpoints_never_panic:
  "(mem_run P rpc c \<longrightarrow> fst (did_serve P memory_did_store clk op c) \<noteq> Panic)
   \<and> (pg_run P rpc faults c' \<longrightarrow> fst (did_serve P postgres_did_store clk op c') \<noteq> Panic)"
  using mem.serve_authorised(3) [OF mem_run_ok prod.collapse [symmetric]]
    pg.serve_authorised(3) [OF pg_run_ok prod.collapse [symmetric]] by blast

theorem did_endpoints_never_panic_witness:
  "fst (did_serve demo_prims memory_did_store demo_clock (OpRevoke demo_revoke) demo_m1) \<noteq> Panic
   \<and> fst (did_serve demo_prims postgres_did_store demo_clock (OpRevoke demo_revoke) demo_p1) \<noteq> Panic"
  using did_endpoints_never_panic [of demo_prims "''r''" demo_m1 demo_clock "OpRevoke demo_revoke" "[]" demo_p1]
  by simp

text \<open>
  C2: one request changes the registry in at most one way, and only with its authorisation: a new
  document for a DID that was free, signed under the key it registers; a revocation signed
  under the stored key; a change of key or context of an active DID signed under the stored key.
  A failing database driver never causes any other change.
\<close>

theorem did_changes_authorised:
  "(mem_run P rpc c \<longrightarrow>
      (let c2 = snd (did_serve P memory_did_store clk op c)
       in mview c2 = mview c \<or> authorised P op (mview c) (mview c2)))
   \<and> (pg_run P rpc faults c' \<longrightarrow>
      (let c2 = snd (did_serve P postgres_did_store clk op c')
       in pview c2 = pview c' \<or> authorised P op (pview c') (pview c2)))"
  unfolding Let_def
  using mem.serve_authorised(2) [OF mem_run_ok prod.collapse [symmetric]]
    pg.serve_authorised(2) [OF pg_run_ok prod.collapse [symmetric]] by blast

theorem did_changes_authorised_witness:
  "mview demo_m2 = mview demo_m1
   \<or> authorised demo_prims (OpRevoke demo_revoke) (mview demo_m1) (mview demo_m2)"
  using did_changes_authorised [of demo_prims "''r''" demo_m1 demo_clock "OpRevoke demo_revoke" "[]" demo_p1]
  by (simp add: did_serve_def demo_m2_def Let_def)

text \<open>
  C21: revocation is final. Once a DID's document is deactivated, it is so after every further
  run of the endpoints, with the same key, context, identifier and creation time; nothing
  deletes it or registers the DID anew. With Postgres this holds for every failure script.
\<close>

theorem revocation_is_final:
  "(mem_run P rpc c \<and> mview c d = Some a \<and> doc_Deactivated a \<and> did_reach P memory_did_store c c2 \<longrightarrow>
      (\<exists>b. mview c2 d = Some b \<and> doc_Deactivated b \<and> doc_PublicKeyBase64 b = doc_PublicKeyBase64 a
         \<and> doc_Context b = doc_Context a \<and> doc_ID b = d \<and> doc_Created b = doc_Created a))
   \<and> (pg_run P rpc faults c' \<and> pview c' d = Some a \<and> doc_Deactivated a \<and> did_reach P postgres_did_store c' c2' \<longrightarrow>
      (\<exists>b. pview c2' d = Some b \<and> doc_Deactivated b \<and> doc_PublicKeyBase64 b = doc_PublicKeyBase64 a
         \<and> doc_Context b = doc_Context a \<and> doc_ID b = d \<and> doc_Created b = doc_Created a))"
proof ((intro conjI impI; elim conjE), goal_cases)
  case 1
  note ok = mem_run_ok [OF 1(1)]
  show ?case using mem.reach_succ [OF 1(4) ok 1(2)] 1(2,3) mem.view_ID [OF ok(1) 1(2)]
    by (auto simp: doc_succ_def)
next
  case 2
  note ok = pg_run_ok [OF 2(1)]
  show ?case using pg.reach_succ [OF 2(4) ok 2(2)] 2(2,3) pg.view_ID [OF ok(1) 2(2)]
    by (auto simp: doc_succ_def)
qed

theorem revocation_is_final_witness:
  "\<exists>b. mview demo_m2 demo_did = Some b \<and> doc_Deactivated b \<and> doc_PublicKeyBase64 b = demo_key64"
  using revocation_is_final [of demo_prims "''r''" demo_m2 demo_did
      "demo_doc\<lparr>doc_Deactivated := True, doc_Updated := FormatRFC3339 (demo_clock 0)\<rparr>" demo_m2 "[]" demo_p1 demo_p1]
    did_reach.start
  by auto

text \<open>
  The key of a registered DID changes only by an update request for that very DID whose
  signature the key stored before verifies, over the new key; the new document stores exactly
  that key. Context changes need the same. No other request, and no failure of the
  driver, changes either.
\<close>

theorem key_changes_are_signed:
  "(mem_run P rpc c \<and> mview c d = Some a \<longrightarrow>
      (\<exists>b. mview (snd (did_serve P memory_did_store clk op c)) d = Some b
         \<and> (doc_PublicKeyBase64 b \<noteq> doc_PublicKeyBase64 a \<or> doc_Context b \<noteq> doc_Context a
              \<longrightarrow> key_change_signed P op d a b)))
   \<and> (pg_run P rpc faults c' \<and> pview c' d = Some a \<longrightarrow>
      (\<exists>b. pview (snd (did_serve P postgres_did_store clk op c')) d = Some b
         \<and> (doc_PublicKeyBase64 b \<noteq> doc_PublicKeyBase64 a \<or> doc_Context b \<noteq> doc_Context a
              \<longrightarrow> key_change_signed P op d a b)))"
proof ((intro conjI impI; elim conjE), goal_cases)
  case 1
  show ?case by (rule mem.serve_at [OF mem_run_ok [OF 1(1)] prod.collapse [symmetric] 1(2)]) blast
next
  case 2
  show ?case by (rule pg.serve_at [OF pg_run_ok [OF 2(1)] prod.collapse [symmetric] 2(2)]) blast
qed

theorem key_changes_are_signed_witness:
  "\<exists>b. mview demo_m2 demo_did = Some b
     \<and> (doc_PublicKeyBase64 b \<noteq> demo_key64 \<longrightarrow>
          key_change_signed demo_prims (OpRevoke demo_revoke) demo_did demo_doc b)"
  using key_changes_are_signed [of demo_prims "''r''" demo_m1 demo_did demo_doc demo_clock "OpRevoke demo_revoke" "[]" demo_p1]
  by (auto simp: did_serve_def demo_m2_def)

section \<open>When the endpoints accept\<close>

text \<open>
  \<open>Register\<close> answers 201 exactly when the body decodes, the DID is well formed and free, and
  the signature verifies under the 32-byte key of the body; the registry then holds the new
  document under that DID and is unchanged elsewhere. So with both stores, while the driver
  reports no failure.
\<close>

theorem register_accepts:
  "(mem_run P rpc c \<longrightarrow>
      answers (fst (DIDHandler_Register P memory_did_store clk c body)) 201
        = (\<exists>req key. register_valid P (mview c) body req key)
      \<and> (\<forall>req key. register_valid P (mview c) body req key \<longrightarrow>
          mview (snd (DIDHandler_Register P memory_did_store clk c body))
            = (mview c)(reg_DID req \<mapsto> registered_doc (clk 0) \<lparr>rp_DID = reg_DID req, rp_PublicKey = key\<rparr>)))
   \<and> (pg_run P rpc [] c' \<longrightarrow>
      answers (fst (DIDHandler_Register P postgres_did_store clk c' body)) 201
        = (\<exists>req key. register_valid P (pview c') body req key)
      \<and> (\<forall>req key. register_valid P (pview c') body req key \<longrightarrow>
          pview (snd (DIDHandler_Register P postgres_did_store clk c' body))
            = (pview c')(reg_DID req \<mapsto> registered_doc (clk 0) \<lparr>rp_DID = reg_DID req, rp_PublicKey = key\<rparr>)))"
proof ((rule conjI; rule impI), goal_cases)
  case 1
  show ?case using mem.Register_iff [OF mem_run_ok(1) [OF 1] prod.collapse [symmetric]] by (simp add: answers_def)
next
  case 2
  show ?case using pgq.Register_iff [OF pg_run_quiet [OF 2] prod.collapse [symmetric]] by (simp add: answers_def)
qed

theorem register_accepts_witness:
  "answers (fst (DIDHandler_Register demo_prims memory_did_store demo_clock demo_m1 demo_register)) 201
     = (\<exists>req key. register_valid demo_prims (mview demo_m1) demo_register req key)
   \<and> answers (fst (DIDHandler_Register demo_prims postgres_did_store demo_clock demo_p1 demo_register)) 201
     = (\<exists>req key. register_valid demo_prims (pview demo_p1) demo_register req key)"
  using register_accepts [of demo_prims "''r''" demo_m1 demo_clock demo_register demo_p1] by simp

text \<open>
  \<open>Revoke\<close> answers 200 exactly when the DID is registered and the signature verifies under
  its stored key (the driver reporting no failure); the document is then deactivated and keeps
  everything but the time of its last update.
\<close>

theorem revoke_accepts:
  "(mem_run P rpc c \<longrightarrow>
      answers (fst (DIDHandler_Revoke P memory_did_store clk c body)) 200
        = (\<exists>req doc. revoke_valid P (mview c) body req doc)
      \<and> (\<forall>req doc. revoke_valid P (mview c) body req doc \<longrightarrow>
          writes (mview c) (doc\<lparr>doc_Deactivated := True\<rparr>)
            (mview (snd (DIDHandler_Revoke P memory_did_store clk c body)))))
   \<and> (pg_run P rpc [] c' \<longrightarrow>
      answers (fst (DIDHandler_Revoke P postgres_did_store clk c' body)) 200
        = (\<exists>req doc. revoke_valid P (pview c') body req doc)
      \<and> (\<forall>req doc. revoke_valid P (pview c') body req doc \<longrightarrow>
          writes (pview c') (doc\<lparr>doc_Deactivated := True\<rparr>)
            (pview (snd (DIDHandler_Revoke P postgres_did_store clk c' body)))))"
proof ((rule conjI; rule impI), goal_cases)
  case 1
  show ?case using mem.Revoke_iff [OF mem_run_ok [OF 1] prod.collapse [symmetric]] by (simp add: answers_def)
next
  case 2
  show ?case using pgq.Revoke_iff [OF pg_run_quiet [OF 2] pg_run_ok(2) [OF 2] prod.collapse [symmetric]] by (simp add: answers_def)
qed

theorem revoke_accepts_witness:
  "answers (fst (DIDHandler_Revoke demo_prims memory_did_store demo_clock demo_m1 demo_revoke)) 200
     = (\<exists>req doc. revoke_valid demo_prims (mview demo_m1) demo_revoke req doc)
   \<and> answers (fst (DIDHandler_Revoke demo_prims postgres_did_store demo_clock demo_p1 demo_revoke)) 200
     = (\<exists>req doc. revoke_valid demo_prims (pview demo_p1) demo_revoke req doc)"
  using revoke_accepts [of demo_prims "''r''" demo_m1 demo_clock demo_revoke demo_p1] by simp

text \<open>
  \<open>Update\<close> answers 200 exactly when path and body name the same well-formed, registered and
  active DID and the signature over the new 32-byte key verifies under the stored key; the
  document then has that key and, if the request names one, its context.
\<close>

theorem update_accepts:
  "(mem_run P rpc c \<longrightarrow>
      answers (fst (DIDHandler_Update P memory_did_store clk c did body)) 200
        = (\<exists>req doc k. update_valid P (mview c) did body req doc k)
      \<and> (\<forall>req doc k. update_valid P (mview c) did body req doc k \<longrightarrow>
          writes (mview c)
            (updated_doc (clk 0) \<lparr>up_DID = did, up_PublicKey = k, up_Context = upd_Context req\<rparr> doc)
            (mview (snd (DIDHandler_Update P memory_did_store clk c did body)))))
   \<and> (pg_run P rpc [] c' \<longrightarrow>
      answers (fst (DIDHandler_Update P postgres_did_store clk c' did body)) 200
        = (\<exists>req doc k. update_valid P (pview c') did body req doc k)
      \<and> (\<forall>req doc k. update_valid P (pview c') did body req doc k \<longrightarrow>
          writes (pview c')
            (updated_doc (clk 0) \<lparr>up_DID = did, up_PublicKey = k, up_Context = upd_Context req\<rparr> doc)
            (pview (snd (DIDHandler_Update P postgres_did_store clk c' did body)))))"
proof ((rule conjI; rule impI), goal_cases)
  case 1
  show ?case using mem.Update_iff [OF mem_run_ok [OF 1] prod.collapse [symmetric]] by (simp add: answers_def)
next
  case 2
  show ?case using pgq.Update_iff [OF pg_run_quiet [OF 2] pg_run_ok(2) [OF 2] prod.collapse [symmetric]] by (simp add: answers_def)
qed

theorem update_accepts_witness:
  "answers (fst (DIDHandler_Update demo_prims memory_did_store demo_clock demo_m1 demo_did demo_update)) 200
     = (\<exists>req doc k. update_valid demo_prims (mview demo_m1) demo_did demo_update req doc k)
   \<and> answers (fst (DIDHandler_Update demo_prims postgres_did_store demo_clock demo_p1 demo_did demo_update)) 200
     = (\<exists>req doc k. update_valid demo_prims (pview demo_p1) demo_did demo_update req doc k)"
  using update_accepts [of demo_prims "''r''" demo_m1 demo_clock demo_did demo_update demo_p1] by simp

text \<open>
  C20: the backends are interchangeable. Any sequence of DID requests, each with its own clock, gets
  the same answers from a gateway on the memory store and from one on Postgres whose driver
  does not fail, up to the times of last updates and the name of the backend; the two
  registries agree afterwards.
\<close>

theorem backends_agree:
  "list_all2 same_answer
     (fst (did_run P memory_did_store reqs (NewClient rpc)))
     (fst (did_run P postgres_did_store reqs (NewClientWithStore rpc (empty_dids []))))
   \<and> same_registry
     (mview (snd (did_run P memory_did_store reqs (NewClient rpc))))
     (pview (snd (did_run P postgres_did_store reqs (NewClientWithStore rpc (empty_dids [])))))"
proof -
  have "mem_pg.agree (NewClient rpc) (NewClientWithStore rpc (empty_dids []))"
    using new_client_ok(1,4) unfolding mem_pg.agree_def
    by (simp add: NewClient_def NewClientWithStore_def NewMemoryDIDStore_def empty_dids_def mem_view_def
        pg_view_def same_registry_def)
  from mem_pg.agree_run [OF this] show ?thesis by (simp add: mem_pg.agree_def)
qed

text \<open>
  \<open>Resolve\<close> reports the registry: for a well-formed DID it answers 404 when nothing is
  registered there, and otherwise 200 with the stored document, also for a revoked one.
\<close>

theorem resolve_reports_registry:
  "(mem_run P rpc c \<and> isValidDID did \<longrightarrow>
      (case mview c did of
         None \<Rightarrow> fst (DIDHandler_Resolve memory_did_store c did) = Done (Error StatusNotFound ''DID not found'')
       | Some doc \<Rightarrow> \<exists>rest. fst (DIDHandler_Resolve memory_did_store c did)
           = Done (JSON StatusOK (GObj ((''didDocument'', document_payload doc) # rest)))))
   \<and> (pg_run P rpc [] c' \<and> isValidDID did \<longrightarrow>
      (case pview c' did of
         None \<Rightarrow> fst (DIDHandler_Resolve postgres_did_store c' did) = Done (Error StatusNotFound ''DID not found'')
       | Some doc \<Rightarrow> \<exists>rest. fst (DIDHandler_Resolve postgres_did_store c' did)
           = Done (JSON StatusOK (GObj ((''didDocument'', document_payload doc) # rest)))))"
  using mem.Resolve_response [OF mem_run_ok(1), of P rpc c did]
    pgq.Resolve_response [OF pg_run_quiet, of P rpc c' did]
  by (auto split: option.split)

theorem resolve_reports_registry_witness:
  "\<exists>rest. fst (DIDHandler_Resolve memory_did_store demo_m1 demo_did)
     = Done (JSON StatusOK (GObj ((''didDocument'', document_payload demo_doc) # rest)))"
  using resolve_reports_registry [of demo_prims "''r''" demo_m1 demo_did demo_p1] by simp

text \<open>
  The statistics count the registry: when \<open>RegistryStats\<close> returns, the total is the number of
  registered DIDs, the deactivated ones are counted as such, and the total is the sum of active
  and deactivated. So for the loop of the memory store and for the \<open>FILTER\<close> query of
  Postgres; the memory store always returns.
\<close>

theorem stats_count_registry:
  "(mem_run P rpc c \<longrightarrow>
      (\<exists>st. fst (Client_RegistryStats memory_did_store c) = Inr st
         \<and> st_TotalDIDs st = int (card (dom (mview c)))
         \<and> st_TotalDIDs st = st_ActiveDIDs st + st_DeactivatedDIDs st
         \<and> st_DeactivatedDIDs st = int (card {d. \<exists>doc. mview c d = Some doc \<and> doc_Deactivated doc})))
   \<and> (pg_run P rpc faults c' \<longrightarrow>
      (\<forall>st. fst (Client_RegistryStats postgres_did_store c') = Inr st \<longrightarrow>
         st_TotalDIDs st = int (card (dom (pview c')))
         \<and> st_TotalDIDs st = st_ActiveDIDs st + st_DeactivatedDIDs st
         \<and> st_DeactivatedDIDs st = int (card {d. \<exists>doc. pview c' d = Some doc \<and> doc_Deactivated doc})))"
proof ((rule conjI; rule impI), goal_cases)
  case 1
  obtain st where "fst (Client_RegistryStats memory_did_store c) = Inr st"
    by (simp add: Client_RegistryStats_def store_defs)
  then show ?case using mem.RegistryStats_law [OF mem_run_ok(1) [OF 1] prod.collapse [symmetric]] by blast
next
  case 2
  show ?case using pg.RegistryStats_law [OF pg_run_ok(1) [OF 2] prod.collapse [symmetric]] by blast
qed

theorem stats_count_registry_witness:
  "\<exists>st. fst (Client_RegistryStats memory_did_store demo_m2) = Inr st
     \<and> st_TotalDIDs st = st_ActiveDIDs st + st_DeactivatedDIDs st"
  using stats_count_registry [of demo_prims "''r''" demo_m2 "[]" demo_p1] by auto

section \<open>Where the code and its intent part\<close>

text \<open>
  What an accepted revocation does to the time of the last update depends on the backend. The
  memory store sets \<open>updated\<close> to the time of the revocation, the Postgres store (whose
  \<open>Update\<close> fills in a time only where the document has none) leaves the old one.
\<close>

theorem revocation_time_depends_on_store:
  "(mem_run P rpc c \<and> revoke_valid P (mview c) body req doc \<longrightarrow>
      mview (snd (DIDHandler_Revoke P memory_did_store clk c body)) (rev_DID req)
        = Some (doc\<lparr>doc_Deactivated := True, doc_Updated := FormatRFC3339 (clk 0)\<rparr>))
   \<and> (pg_run P rpc [] c' \<and> revoke_valid P (pview c') body req doc \<and> doc_Updated doc \<noteq> [] \<longrightarrow>
      pview (snd (DIDHandler_Revoke P postgres_did_store clk c' body)) (rev_DID req)
        = Some (doc\<lparr>doc_Deactivated := True\<rparr>))"
proof ((rule conjI; rule impI; elim conjE), goal_cases)
  case 1
  note ok = mem_run_ok [OF 1(1)]
  obtain key sg where v: "decode_revoke body = Some req" "mview c (rev_DID req) = Some doc"
    "StdDecode (doc_PublicKeyBase64 doc) = Some key" "StdDecode (rev_SignatureBase64 req) = Some sg"
    "sig_ok P key (revoke_message (rev_DID req) (rev_Timestamp req)) sg"
    using 1(2) by (auto simp: revoke_valid_def)
  moreover have "length key = PublicKeySize" "doc_ID doc = rev_DID req"
    using registry_ok_keylen [OF ok(2) v(2,3)] mem.view_ID [OF ok(1) v(2)] .
  ultimately show ?case
    by (simp add: DIDHandler_Revoke_def handler_defs store_defs mem_view_def)
next
  case 2
  note ok = pg_run_ok [OF 2(1)] and quiet = pg_run_quiet [OF 2(1)]
  obtain key sg where v: "decode_revoke body = Some req" "pview c' (rev_DID req) = Some doc"
    "StdDecode (doc_PublicKeyBase64 doc) = Some key" "StdDecode (rev_SignatureBase64 req) = Some sg"
    "sig_ok P key (revoke_message (rev_DID req) (rev_Timestamp req)) sg"
    using 2(2) by (auto simp: revoke_valid_def)
  have id: "length key = PublicKeySize" "doc_ID doc = rev_DID req"
    using registry_ok_keylen [OF ok(2) v(2,3)] pg.view_ID [OF ok(1) v(2)] .
  have rs: "PostgresDIDStore_Resolve (cl_store c') (rev_DID req) = (Inr doc, cl_store c')"
    using v(2) quiet by (auto simp: PostgresDIDStore_Resolve_def pg_quiet_def db_query_ok pg_view_def
        did_of_row_def split: bind_splits)
  then obtain row where "gm_get (sql_rows (cl_store c')) (rev_DID req) = Some row"
    using v(2) by (auto simp: pg_view_def split: bind_splits)
  then show ?case
    using v id rs quiet 2(3) did_of_row_of [of "doc\<lparr>doc_Deactivated := True\<rparr>"]
    by (simp add: DIDHandler_Revoke_def handler_defs postgres_did_store_def PostgresDIDStore_Update_def
        pg_quiet_def db_exec_ok sql_update_def pg_view_def)
qed

theorem revocation_time_depends_on_store_witness:
  "mview demo_m2 demo_did = Some (demo_doc\<lparr>doc_Deactivated := True, doc_Updated := FormatRFC3339 (demo_clock 0)\<rparr>)
   \<and> pview demo_p2 demo_did = Some (demo_doc\<lparr>doc_Deactivated := True\<rparr>)"
proof -
  let ?req = "\<lparr>rev_DID = demo_did, rev_SignatureBase64 = demo_sig64, rev_Timestamp = ''2''\<rparr>"
  have "revoke_valid demo_prims (mview demo_m1) demo_revoke ?req demo_doc"
    "revoke_valid demo_prims (pview demo_p1) demo_revoke ?req demo_doc"
    by (simp_all add: revoke_valid_def)
  moreover have "doc_Updated demo_doc \<noteq> []"
    by (simp add: demo_doc_def registered_doc_def Let_def FormatRFC3339_def split: prod.splits)
  ultimately show ?thesis
    using revocation_time_depends_on_store [of demo_prims "''r''" demo_m1 demo_revoke ?req demo_doc demo_clock demo_p1]
    by (simp add: demo_m2_def demo_p2_def)
qed

text \<open>
  The signature of an update does not cover its \<open>context\<close>. Whatever context is put in place of
  the one the holder of the key sent, the same signature is accepted, and the registry stores
  the replaced context.
\<close>

theorem update_context_is_not_signed:
  assumes "mem_run P rpc c" "update_valid P (mview c) did body req doc k"
    and "decode_update body' = Some (req\<lparr>upd_Context := ctx\<rparr>)" "ctx \<noteq> []"
  shows "answers (fst (DIDHandler_Update P memory_did_store clk c did body')) 200
    \<and> (\<exists>doc'. mview (snd (DIDHandler_Update P memory_did_store clk c did body')) did = Some doc'
         \<and> doc_Context doc' = ctx)"
proof -
  have v: "update_valid P (mview c) did body' (req\<lparr>upd_Context := ctx\<rparr>) doc k"
    using assms(2,3) by (simp add: update_valid_def)
  note h = mem.Update_iff [where clk = clk, OF mem_run_ok [OF assms(1)] prod.collapse [symmetric]]
  have id: "doc_ID doc = did" using v mem.view_ID [OF mem_run_ok(1) [OF assms(1)]] by (auto simp: update_valid_def)
  obtain doc' where "same_but_updated doc'
      (updated_doc (clk 0) \<lparr>up_DID = did, up_PublicKey = k, up_Context = ctx\<rparr> doc)"
    "mview (snd (DIDHandler_Update P memory_did_store clk c did body')) did = Some doc'"
    by (rule writes_view [OF h(2) [OF v]]) (simp add: id fun_upd_def)
  moreover from this have "doc_Context doc' = ctx"
    using same_but_updated_fields(2) assms(4) by (simp add: updated_doc_def Let_def)
  ultimately show ?thesis using h(1) v unfolding answers_def by blast
qed

definition demo_update_ctx :: "json option" where
  "demo_update_ctx = Some (JObject
     [(''publicKeyBase64'', JString demo_key64_2), (''signatureBase64'', JString demo_sig64),
      (''context'', JArray [JString ''evil'']), (''timestamp'', JString ''3'')])"

theorem update_context_is_not_signed_witness:
  "\<exists>doc'. mview (snd (DIDHandler_Update demo_prims memory_did_store demo_clock demo_m1 demo_did demo_update_ctx))
       demo_did = Some doc' \<and> doc_Context doc' = [''evil'']"
proof -
  have "decode_update demo_update_ctx = Some (\<lparr>upd_DID = [], upd_PublicKeyBase64 = demo_key64_2, upd_Context = [],
      upd_SignatureBase64 = demo_sig64, upd_Timestamp = ''3''\<rparr>\<lparr>upd_Context := [''evil'']\<rparr>)"
    by (simp add: decode_update_def demo_update_ctx_def Decode_def decode_struct_def field_for_def
      UpdateDIDRequest_fields_def go_defs)
  moreover have "update_valid demo_prims (mview demo_m1) demo_did demo_update
      \<lparr>upd_DID = [], upd_PublicKeyBase64 = demo_key64_2, upd_Context = [],
       upd_SignatureBase64 = demo_sig64, upd_Timestamp = ''3''\<rparr> demo_doc demo_key2"
    by (simp add: update_valid_def)
  ultimately show ?thesis
    using update_context_is_not_signed [of demo_prims "''r''" demo_m1 demo_did demo_update _ demo_doc demo_key2
        demo_update_ctx "[''evil'']"] by simp
qed

end
