(* ===== verification/JsonText.thy ===== *)
theory JsonText
  imports Json
begin

text \<open>
  The text of JSON: the scanner and the unquoting of \<open>encoding/json\<close>, from bytes to the syntax
  trees of \<^verbatim>\<open>Json\<close>, and the marshaller. Escapes, surrogate pairs, ill-formed UTF-8 (each
  offending byte becomes U+FFFD), the grammar of numbers and the limit on nesting are the
  library's. The main lemma is that reading back a marshalled tree gives the tree.
\<close>

section \<open>Code points\<close>

definition utf8_encode :: "nat \<Rightarrow> string" where
  "utf8_encode r =
     (if r < 0x80 then [char_of r]
      else if r < 0x800 then [char_of (0xC0 + r div 0x40), char_of (0x80 + r mod 0x40)]
      else if r < 0x10000 then
        [char_of (0xE0 + r div 0x1000), char_of (0x80 + r div 0x40 mod 0x40), char_of (0x80 + r mod 0x40)]
      else [char_of (0xF0 + r div 0x40000), char_of (0x80 + r div 0x1000 mod 0x40),
            char_of (0x80 + r div 0x40 mod 0x40), char_of (0x80 + r mod 0x40)])"

abbreviation RuneError :: string where
  "RuneError \<equiv> [CHR 0xEF, CHR 0xBF, CHR 0xBD]"

text \<open>Well-formed UTF-8.\<close>

fun utf8_ok :: "string \<Rightarrow> bool" where
  "utf8_ok [] = True"
| "utf8_ok (a # s) =
     (if byte a < 0x80 then utf8_ok s
      else case s of
        [] \<Rightarrow> False
      | b # s1 \<Rightarrow>
          if utf8_2 a b then utf8_ok s1
          else case s1 of
            [] \<Rightarrow> False
          | c # s2 \<Rightarrow>
              if utf8_3 a b c then utf8_ok s2
              else case s2 of [] \<Rightarrow> False | d # s3 \<Rightarrow> utf8_4 a b c d \<and> utf8_ok s3)"

definition hex_val :: "char \<Rightarrow> nat option" where
  "hex_val c = (let n = byte c in
     if 48 \<le> n \<and> n \<le> 57 then Some (n - 48)
     else if 97 \<le> n \<and> n \<le> 102 then Some (n - 87)
     else if 65 \<le> n \<and> n \<le> 70 then Some (n - 55)
     else None)"

definition hex4 :: "char \<Rightarrow> char \<Rightarrow> char \<Rightarrow> char \<Rightarrow> nat option" where
  "hex4 a b c d =
     (case (hex_val a, hex_val b, hex_val c, hex_val d) of
        (Some w, Some x, Some y, Some z) \<Rightarrow> Some (((w * 16 + x) * 16 + y) * 16 + z)
      | _ \<Rightarrow> None)"

definition is_surrogate :: "nat \<Rightarrow> bool" where "is_surrogate r \<longleftrightarrow> 0xD800 \<le> r \<and> r < 0xE000"

definition surrogate_pair :: "nat \<Rightarrow> nat \<Rightarrow> nat option" where
  "surrogate_pair r1 r2 =
     (if 0xD800 \<le> r1 \<and> r1 < 0xDC00 \<and> 0xDC00 \<le> r2 \<and> r2 < 0xE000
      then Some ((r1 - 0xD800) * 0x400 + (r2 - 0xDC00) + 0x10000) else None)"

section \<open>Strings\<close>

definition simple_escape :: "char \<Rightarrow> char option" where
  "simple_escape e =
     (if e = CHR 0x22 \<or> e = CHR 0x5C \<or> e = CHR ''/'' then Some e
      else if e = CHR ''b'' then Some (CHR 0x08)
      else if e = CHR ''f'' then Some (CHR 0x0C)
      else if e = CHR ''n'' then Some (CHR 0x0A)
      else if e = CHR ''r'' then Some (CHR 0x0D)
      else if e = CHR ''t'' then Some (CHR 0x09)
      else None)"

abbreviation emit :: "string \<Rightarrow> (string \<times> string) option \<Rightarrow> (string \<times> string) option" where
  "emit p \<equiv> map_option (\<lambda>(s, rest). (p @ s, rest))"

text \<open>What follows an opening quote: the string and the text after its closing quote.\<close>

fun scan_chars :: "string \<Rightarrow> (string \<times> string) option" where
  "scan_chars [] = None"
| "scan_chars (a # s) =
     (if a = CHR 0x22 then Some ([], s)
      else if a = CHR 0x5C then
        (case s of
           [] \<Rightarrow> None
         | e # s1 \<Rightarrow>
             if e = CHR ''u'' then
               (case s1 of
                  h1 # h2 # h3 # h4 # s2 \<Rightarrow>
                    (case hex4 h1 h2 h3 h4 of
                       None \<Rightarrow> None
                     | Some r \<Rightarrow>
                         if is_surrogate r then
                           (case s2 of
                              b # u # k1 # k2 # k3 # k4 # s3 \<Rightarrow>
                                (case (if b = CHR 0x5C \<and> u = CHR ''u''
                                       then Option.bind (hex4 k1 k2 k3 k4) (surrogate_pair r) else None) of
                                   Some r' \<Rightarrow> emit (utf8_encode r') (scan_chars s3)
                                 | None \<Rightarrow> emit RuneError (scan_chars s2))
                            | _ \<Rightarrow> emit RuneError (scan_chars s2))
                         else emit (utf8_encode r) (scan_chars s2))
                | _ \<Rightarrow> None)
             else (case simple_escape e of None \<Rightarrow> None | Some c \<Rightarrow> emit [c] (scan_chars s1)))
      else if byte a < 0x20 then None
      else if byte a < 0x80 then emit [a] (scan_chars s)
      else case s of
        [] \<Rightarrow> None
      | b # s1 \<Rightarrow>
          if utf8_2 a b then emit [a, b] (scan_chars s1)
          else case s1 of
            [] \<Rightarrow> emit RuneError (scan_chars s)
          | c # s2 \<Rightarrow>
              if utf8_3 a b c then emit [a, b, c] (scan_chars s2)
              else case s2 of
                [] \<Rightarrow> emit RuneError (scan_chars s)
              | d # s3 \<Rightarrow>
                  if utf8_4 a b c d then emit [a, b, c, d] (scan_chars s3)
                  else emit RuneError (scan_chars s))"

section \<open>Numbers\<close>

definition scan_digits :: "string \<Rightarrow> string \<times> string" where
  "scan_digits s = (takeWhile is_digit s, dropWhile is_digit s)"

text \<open>The integer part: \<open>0\<close>, or digits that do not begin with \<open>0\<close>.\<close>

definition scan_int :: "string \<Rightarrow> (string \<times> string) option" where
  "scan_int s =
     (case s of
        [] \<Rightarrow> None
      | c # r \<Rightarrow> if c = CHR ''0'' then Some (''0'', r)
                 else if is_digit c then Some (scan_digits s) else None)"

definition scan_frac :: "string \<Rightarrow> (string \<times> string) option" where
  "scan_frac s =
     (case s of
        [] \<Rightarrow> Some ([], [])
      | c # r \<Rightarrow> if c = CHR ''.'' then
            (let (ds, t) = scan_digits r in if ds = [] then None else Some (c # ds, t))
          else Some ([], s))"

definition scan_exp :: "string \<Rightarrow> (string \<times> string) option" where
  "scan_exp s =
     (case s of
        [] \<Rightarrow> Some ([], [])
      | c # r \<Rightarrow> if c = CHR ''e'' \<or> c = CHR ''E'' then
            (let (sg, r') = (case r of
                 d # q \<Rightarrow> if d = CHR ''+'' \<or> d = CHR ''-'' then ([d], q) else ([], r)
               | [] \<Rightarrow> ([], r));
                 (ds, t) = scan_digits r'
             in if ds = [] then None else Some (c # sg @ ds, t))
          else Some ([], s))"

definition scan_number :: "string \<Rightarrow> (string \<times> string) option" where
  "scan_number s =
     (let (neg, s0) = (case s of
          c # r \<Rightarrow> if c = CHR ''-'' then (''-'', r) else ([], s)
        | [] \<Rightarrow> ([], s)) in
      case scan_int s0 of
        None \<Rightarrow> None
      | Some (i, s1) \<Rightarrow>
          (case scan_frac s1 of
             None \<Rightarrow> None
           | Some (f, s2) \<Rightarrow>
               (case scan_exp s2 of
                  None \<Rightarrow> None
                | Some (e, s3) \<Rightarrow> Some (neg @ i @ f @ e, s3))))"

section \<open>Values\<close>

definition is_ws :: "char \<Rightarrow> bool" where
  "is_ws c \<longleftrightarrow> c = CHR '' '' \<or> c = CHR 0x09 \<or> c = CHR 0x0A \<or> c = CHR 0x0D"

abbreviation skip_ws :: "string \<Rightarrow> string" where "skip_ws s \<equiv> dropWhile is_ws s"

text \<open>
  Every call on a value consumes at least one byte, and so does every turn of the two loops, so
  fuel of twice the length of the text is enough; the nesting limit is that of the library.
\<close>

definition maxNestingDepth :: nat where "maxNestingDepth = 10000"

fun scan_value :: "nat \<Rightarrow> nat \<Rightarrow> string \<Rightarrow> (json \<times> string) option"
and scan_elems :: "nat \<Rightarrow> nat \<Rightarrow> string \<Rightarrow> (json list \<times> string) option"
and scan_members :: "nat \<Rightarrow> nat \<Rightarrow> string \<Rightarrow> ((string \<times> json) list \<times> string) option" where
  "scan_value 0 d s = None"
| "scan_value (Suc n) d s =
     (case skip_ws s of
        [] \<Rightarrow> None
      | c # r \<Rightarrow>
          if c = CHR 0x22 then map_option (\<lambda>(x, t). (JString x, t)) (scan_chars r)
          else if c = CHR ''{'' then
            (if maxNestingDepth \<le> d then None
             else case skip_ws r of
               [] \<Rightarrow> None
             | e # t \<Rightarrow> if e = CHR ''}'' then Some (JObject [], t)
                 else map_option (\<lambda>(ms, u). (JObject ms, u)) (scan_members n (Suc d) r))
          else if c = CHR ''['' then
            (if maxNestingDepth \<le> d then None
             else case skip_ws r of
               [] \<Rightarrow> None
             | e # t \<Rightarrow> if e = CHR '']'' then Some (JArray [], t)
                 else map_option (\<lambda>(xs, u). (JArray xs, u)) (scan_elems n (Suc d) r))
          else if HasPrefix (c # r) ''true'' then Some (JBool True, drop 4 (c # r))
          else if HasPrefix (c # r) ''false'' then Some (JBool False, drop 5 (c # r))
          else if HasPrefix (c # r) ''null'' then Some (JNull, drop 4 (c # r))
          else map_option (\<lambda>(l, t). (JNumber l, t)) (scan_number (c # r)))"
| "scan_elems 0 d s = None"
| "scan_elems (Suc n) d s =
     (case scan_value n d s of
        None \<Rightarrow> None
      | Some (x, r) \<Rightarrow>
          (case skip_ws r of
             [] \<Rightarrow> None
           | c # t \<Rightarrow>
               if c = CHR '','' then map_option (\<lambda>(xs, u). (x # xs, u)) (scan_elems n d t)
               else if c = CHR '']'' then Some ([x], t)
               else None))"
| "scan_members 0 d s = None"
| "scan_members (Suc n) d s =
     (case skip_ws s of
        [] \<Rightarrow> None
      | q # s1 \<Rightarrow>
          if q \<noteq> CHR 0x22 then None
          else case scan_chars s1 of
            None \<Rightarrow> None
          | Some (k, s2) \<Rightarrow>
              (case skip_ws s2 of
                 [] \<Rightarrow> None
               | c # s3 \<Rightarrow>
                   if c \<noteq> CHR '':'' then None
                   else case scan_value n d s3 of
                     None \<Rightarrow> None
                   | Some (v, s4) \<Rightarrow>
                       (case skip_ws s4 of
                          [] \<Rightarrow> None
                        | e # s5 \<Rightarrow>
                            if e = CHR '','' then map_option (\<lambda>(ms, u). ((k, v) # ms, u)) (scan_members n d s5)
                            else if e = CHR ''}'' then Some ([(k, v)], s5)
                            else None)))"

text \<open>The first value of a stream, as \<open>Decoder.Decode\<close> reads it, and \<open>json.Unmarshal\<close>.\<close>

definition first_value :: "string \<Rightarrow> (json \<times> string) option" where
  "first_value s = scan_value (2 * length s + 1) 0 s"

definition parse_json :: "string \<Rightarrow> json option" where
  "parse_json s = (case first_value s of Some (j, r) \<Rightarrow> if skip_ws r = [] then Some j else None | None \<Rightarrow> None)"

section \<open>Reading back what was written\<close>

lemma hex_val_digit [simp]: "hex_val (hex_digit n) = Some (n mod 16)"
proof -
  have "list_all (\<lambda>k. hex_val (''0123456789abcdef'' ! k) = Some k) [0..<16]" by code_simp
  then have "\<forall>k<16. hex_val (''0123456789abcdef'' ! k) = Some k" by (simp add: list_all_iff)
  then show ?thesis by (simp add: hex_digit_def)
qed

lemma hex4_esc: "hex4 CHR ''0'' CHR ''0'' (hex_digit (byte a div 16)) (hex_digit (byte a)) = Some (byte a)"
proof -
  have "byte a div 16 mod 16 * 16 + byte a mod 16 = byte a" by (simp add: byte_bits)
  then show ?thesis by (simp add: hex4_def, simp add: hex_val_def)
qed

lemma scan_esc_ascii:
  assumes "byte a < 0x80"
  shows "scan_chars (esc_ascii a @ r) = emit [a] (scan_chars r)"
proof -
  have e: "a = CHR 0x22 \<or> a = CHR 0x5C \<or> a = CHR 0x08 \<or> a = CHR 0x0C \<or> a = CHR 0x0A \<or> a = CHR 0x0D \<or> a = CHR 0x09
     \<Longrightarrow> ?thesis"
    by (elim disjE) (simp_all add: esc_ascii_def simple_escape_def)
  show ?thesis
  proof (cases "a = CHR 0x22 \<or> a = CHR 0x5C \<or> a = CHR 0x08 \<or> a = CHR 0x0C \<or> a = CHR 0x0A \<or> a = CHR 0x0D \<or> a = CHR 0x09")
    case False
    then show ?thesis using assms hex4_esc [of a]
      by (auto simp: esc_ascii_def is_surrogate_def utf8_encode_def)
  qed (rule e)
qed

lemma utf8_3_start: "utf8_3 a b c \<Longrightarrow> \<not> utf8_2 a b" "utf8_4 a b c d \<Longrightarrow> \<not> utf8_2 a b \<and> \<not> utf8_3 a b c"
  by (auto simp: utf8_2_def utf8_3_def utf8_4_def)

lemma utf8_high: "utf8_2 a b \<Longrightarrow> 0x80 \<le> byte a" "utf8_3 a b c \<Longrightarrow> 0x80 \<le> byte a" "utf8_4 a b c d \<Longrightarrow> 0x80 \<le> byte a"
  by (auto simp: utf8_2_def utf8_3_def utf8_4_def)

lemma not_ctl: "0x80 \<le> byte a \<Longrightarrow> a \<noteq> CHR 0x22 \<and> a \<noteq> CHR 0x5C" by auto

lemma hex4_202: "hex4 CHR ''2'' CHR ''0'' CHR ''2'' (hex_digit n) = Some (0x2020 + n mod 16)"
proof -
  have "hex_val CHR ''2'' = Some 2" "hex_val CHR ''0'' = Some 0" by (simp_all add: hex_val_def)
  then show ?thesis by (simp add: hex4_def)
qed

lemma encode_seps: "utf8_encode 8232 = [CHR 0xE2, CHR 0x80, CHR 0xA8]" "utf8_encode 8233 = [CHR 0xE2, CHR 0x80, CHR 0xA9]"
  by (simp_all add: utf8_encode_def char_of_def bit_iff_odd)

lemma line_sep: "c = CHR 0xA8 \<or> c = CHR 0xA9 \<Longrightarrow>
   scan_chars (CHR 0x5C # ''u202'' @ [hex_digit (byte c)] @ r) = emit [CHR 0xE2, CHR 0x80, c] (scan_chars r)"
  by (elim disjE) (simp_all add: hex4_202 is_surrogate_def encode_seps)

lemma scan_esc_string:
  "utf8_ok s \<Longrightarrow> scan_chars (esc_string s @ CHR 0x22 # r) = Some (s, r)"
proof (induction s rule: utf8_ok.induct)
  case (2 a s)
  show ?case
  proof (cases "byte a < 0x80")
    case True
    then show ?thesis using 2 by (simp add: scan_esc_ascii)
  next
    case False
    then obtain b s1 where s: "s = b # s1" using 2 by (cases s) auto
    have hi: "0x80 \<le> byte a" using False by simp
    note nc = not_ctl [OF hi]
    show ?thesis
    proof (cases "utf8_2 a b")
      case True
      then show ?thesis using 2 s False nc by (simp add: )
    next
      case n2: False
      then obtain c s2 where s1: "s1 = c # s2" using 2 s False by (cases s1) auto
      show ?thesis
      proof (cases "utf8_3 a b c")
        case True
        then have ih: "scan_chars (esc_string s2 @ CHR 0x22 # r) = Some (s2, r)" using 2 s s1 n2 False by simp
        show ?thesis
        proof (cases "a = CHR 0xE2 \<and> b = CHR 0x80 \<and> (c = CHR 0xA8 \<or> c = CHR 0xA9)")
          case sep: True
          then show ?thesis using line_sep [of c "esc_string s2 @ CHR 0x22 # r"] ih s s1 True n2 by simp
        next
          case nsep: False
          then have "esc_string (a # s) = [a, b, c] @ esc_string s2" using s s1 True n2 False by simp
          then show ?thesis using ih True n2 False nc s s1 by simp
        qed
      next
        case n3: False
        then obtain d s3 where s2: "s2 = d # s3" using 2 s s1 n2 False by (cases s2) auto
        then show ?thesis using 2 s s1 n2 n3 False nc by simp
      qed
    qed
  qed
qed simp

section \<open>Marshalling trees\<close>

fun commas :: "string list \<Rightarrow> string" where
  "commas [] = []"
| "commas [x] = x"
| "commas (x # xs) = x @ '','' @ commas xs"

fun json_text :: "json \<Rightarrow> string" where
  "json_text JNull = ''null''"
| "json_text (JBool b) = (if b then ''true'' else ''false'')"
| "json_text (JNumber l) = l"
| "json_text (JString s) = MarshalString s"
| "json_text (JArray xs) = ''['' @ commas (map json_text xs) @ '']''"
| "json_text (JObject ms) = ''{'' @ commas (map (\<lambda>(k, v). MarshalString k @ '':'' @ json_text v) ms) @ ''}''"

text \<open>Trees that can be written: literals of the number grammar, well-formed strings, bounded nesting.\<close>

definition valid_number :: "string \<Rightarrow> bool" where
  "valid_number l \<longleftrightarrow> scan_number l = Some (l, [])"

fun json_ok :: "json \<Rightarrow> bool" where
  "json_ok (JNumber l) = valid_number l"
| "json_ok (JString s) = utf8_ok s"
| "json_ok (JArray xs) = list_all json_ok xs"
| "json_ok (JObject ms) = list_all (\<lambda>(k, v). utf8_ok k \<and> json_ok v) ms"
| "json_ok _ = True"

fun json_depth :: "json \<Rightarrow> nat" where
  "json_depth (JArray xs) = Suc (fold max (map json_depth xs) 0)"
| "json_depth (JObject ms) = Suc (fold max (map (\<lambda>(k, v). json_depth v) ms) 0)"
| "json_depth _ = 0"

text \<open>What may follow a value inside a text.\<close>

definition ends_value :: "string \<Rightarrow> bool" where
  "ends_value r \<longleftrightarrow> (case r of [] \<Rightarrow> True | c # _ \<Rightarrow> c = CHR '','' \<or> c = CHR '']'' \<or> c = CHR ''}'' \<or> is_ws c)"

lemma ends_value_next:
  assumes "ends_value r"
  obtains "r = []" | c t where "r = c # t" "\<not> is_digit c" "c \<noteq> CHR ''.''" "c \<noteq> CHR ''e''" "c \<noteq> CHR ''E''"
    "c \<noteq> CHR ''+''" "c \<noteq> CHR ''-''"
  using assms by (cases r) (auto simp: ends_value_def is_ws_def is_digit_def)

lemma scan_digits_append:
  assumes "ends_value r" "scan_digits s = (ds, t)"
  shows "scan_digits (s @ r) = (ds, t @ r)"
  using assms(1)
proof (cases rule: ends_value_next)
  case 1
  then show ?thesis using assms(2) by simp
next
  case (2 c u)
  have "takeWhile is_digit (s @ r) = takeWhile is_digit s \<and> dropWhile is_digit (s @ r) = dropWhile is_digit s @ r"
    using 2 by (induction s) auto
  then show ?thesis using assms(2) by (auto simp: scan_digits_def)
qed

lemma scan_int_append: "ends_value r \<Longrightarrow> scan_int s = Some (i, t) \<Longrightarrow> scan_int (s @ r) = Some (i, t @ r)"
  using scan_digits_append [of r s] by (cases s) (auto simp: scan_int_def split: if_splits)

lemma scan_frac_append: "ends_value r \<Longrightarrow> scan_frac s = Some (i, t) \<Longrightarrow> scan_frac (s @ r) = Some (i, t @ r)"
  using scan_digits_append [of r "tl s"]
  by (cases s) (auto simp: scan_frac_def Let_def split: if_splits prod.splits elim: ends_value_next)

lemma scan_exp_append:
  assumes r: "ends_value r" and s: "scan_exp s = Some (i, t)"
  shows "scan_exp (s @ r) = Some (i, t @ r)"
proof (cases s)
  case Nil
  then show ?thesis using s r by (auto simp: scan_exp_def elim: ends_value_next)
next
  case (Cons c q)
  show ?thesis
  proof (cases q)
    case Nil
    then show ?thesis using s Cons by (auto simp: scan_exp_def scan_digits_def split: if_splits)
  next
    case (Cons d u)
    then show ?thesis using s \<open>s = c # q\<close> scan_digits_append [OF r, of q] scan_digits_append [OF r, of u]
      by (auto simp: scan_exp_def Let_def split: if_splits prod.splits)
  qed
qed

lemma scan_number_append:
  assumes r: "ends_value r" and s: "scan_number s = Some (l, t)"
  shows "scan_number (s @ r) = Some (l, t @ r)"
proof -
  obtain neg s0 where n: "(case s of c # q \<Rightarrow> if c = CHR ''-'' then (''-'', q) else ([], s) | [] \<Rightarrow> ([], s)) = (neg, s0)"
    by fastforce
  obtain i s1 f s2 e s3 where p: "scan_int s0 = Some (i, s1)" "scan_frac s1 = Some (f, s2)" "scan_exp s2 = Some (e, s3)"
    "l = neg @ i @ f @ e" "t = s3"
    using s by (auto simp: scan_number_def n split: option.splits)
  have "s \<noteq> []" using n p(1) by (auto simp: scan_int_def)
  then have "(case s @ r of c # q \<Rightarrow> if c = CHR ''-'' then (''-'', q) else ([], s @ r) | [] \<Rightarrow> ([], s @ r)) = (neg, s0 @ r)"
    using n by (cases s) (auto split: if_splits)
  then show ?thesis
    using scan_int_append [OF r p(1)] scan_frac_append [OF r p(2)] scan_exp_append [OF r p(3)] p(4,5)
    by (simp add: scan_number_def)
qed

lemma json_text_start:
  assumes "json_ok j"
  obtains c t where "json_text j = c # t" "\<not> is_ws c" "c \<noteq> CHR '']''"
proof -
  have "\<exists>c t. json_text j = c # t \<and> \<not> is_ws c \<and> c \<noteq> CHR '']''"
  proof (cases j)
    case (JNumber l)
    obtain c t where l: "l = c # t" "c = CHR ''-'' \<or> is_digit c"
      using assms JNumber by (cases l) (auto simp: valid_number_def scan_number_def scan_int_def is_digit_def
        split: option.splits if_splits)
    then have "\<not> is_ws c \<and> c \<noteq> CHR '']''" by (auto simp: is_ws_def is_digit_def)
    then show ?thesis using l JNumber by simp
  qed (auto simp: is_ws_def MarshalString_def)
  then show thesis using that by blast
qed

lemma skip_ws_text: "json_ok j \<Longrightarrow> skip_ws (json_text j @ r) = json_text j @ r"
  by (rule json_text_start [of j]) simp_all

lemma scan_value_string:
  "utf8_ok s \<Longrightarrow> scan_value (Suc n) d (MarshalString s @ r) = Some (JString s, r)"
  by (simp add: MarshalString_def is_ws_def scan_esc_string)

lemma scan_value_number:
  assumes l: "valid_number l" and r: "ends_value r"
  shows "scan_value (Suc n) d (l @ r) = Some (JNumber l, r)"
proof -
  have sn: "scan_number (l @ r) = Some (l, r)" using scan_number_append [OF r] l by (auto simp: valid_number_def)
  obtain c t where c: "l = c # t" "c = CHR ''-'' \<or> is_digit c"
    using l by (cases l) (auto simp: valid_number_def scan_number_def scan_int_def is_digit_def
        split: option.splits if_splits)
  then have "\<not> is_ws c" "c \<noteq> CHR 0x22" "c \<noteq> CHR ''{''" "c \<noteq> CHR ''[''" "c \<noteq> CHR ''t''" "c \<noteq> CHR ''f''" "c \<noteq> CHR ''n''"
    by (auto simp: is_ws_def is_digit_def)
  then show ?thesis using sn c(1) by (simp add: HasPrefix_def)
qed

lemma scan_elems_text:
  assumes ih: "\<And>x n d r. x \<in> set xs \<Longrightarrow> json_ok x \<Longrightarrow> d + json_depth x \<le> maxNestingDepth \<Longrightarrow> ends_value r
      \<Longrightarrow> length (json_text x) \<le> n \<Longrightarrow> scan_value n d (json_text x @ r) = Some (x, r)"
    and "xs \<noteq> []" "list_all json_ok xs" "\<forall>x\<in>set xs. d + json_depth x \<le> maxNestingDepth"
    "length (commas (map json_text xs)) < n"
  shows "scan_elems n d (commas (map json_text xs) @ CHR '']'' # r) = Some (xs, r)"
  using assms
proof (induction xs arbitrary: n)
  case (Cons x xs)
  then obtain m where n: "n = Suc m" by (cases n) auto
  show ?case
  proof (cases xs)
    case Nil
    have "scan_value m d (json_text x @ CHR '']'' # r) = Some (x, CHR '']'' # r)"
      using Cons.prems Nil n by (intro Cons.prems(1)) (auto simp: ends_value_def)
    then show ?thesis using Nil n by (simp add: is_ws_def)
  next
    case (Cons y ys)
    let ?rest = "commas (map json_text xs) @ CHR '']'' # r"
    have len: "length (json_text x) \<le> m" "length (commas (map json_text xs)) < m"
      using Cons.prems(5) Cons n by auto
    have "scan_value m d (json_text x @ '','' @ ?rest) = Some (x, '','' @ ?rest)"
      using Cons.prems len by (intro Cons.prems(1)) (auto simp: ends_value_def)
    moreover have "scan_elems m d ?rest = Some (xs, r)"
      using Cons.prems len Cons by (intro Cons.IH) auto
    ultimately show ?thesis using Cons n by (simp add: is_ws_def)
  qed
qed simp


abbreviation member_text :: "string \<times> json \<Rightarrow> string" where
  "member_text \<equiv> \<lambda>(k, v). MarshalString k @ '':'' @ json_text v"

lemma scan_members_text:
  assumes ih: "\<And>k v n d r. (k, v) \<in> set ms \<Longrightarrow> json_ok v \<Longrightarrow> d + json_depth v \<le> maxNestingDepth \<Longrightarrow> ends_value r
      \<Longrightarrow> length (json_text v) \<le> n \<Longrightarrow> scan_value n d (json_text v @ r) = Some (v, r)"
    and "ms \<noteq> []" "list_all (\<lambda>(k, v). utf8_ok k \<and> json_ok v) ms"
    "\<forall>(k, v)\<in>set ms. d + json_depth v \<le> maxNestingDepth" "length (commas (map member_text ms)) < n"
  shows "scan_members n d (commas (map member_text ms) @ CHR ''}'' # r) = Some (ms, r)"
  using assms
proof (induction ms arbitrary: n)
  case (Cons kv ms)
  obtain k v where kv: "kv = (k, v)" by (cases kv)
  obtain m where n: "n = Suc m" using Cons.prems(5) by (cases n) auto
  have str: "scan_chars (esc_string k @ CHR 0x22 # t) = Some (k, t)" for t
    using Cons.prems(3) kv by (simp add: scan_esc_string)
  show ?case
  proof (cases ms)
    case Nil
    have "scan_value m d (json_text v @ CHR ''}'' # r) = Some (v, CHR ''}'' # r)"
      using Cons.prems Nil n kv by (intro Cons.prems(1)) (auto simp: ends_value_def)
    then show ?thesis using Nil n kv str by (simp add: is_ws_def MarshalString_def)
  next
    case (Cons y ys)
    let ?rest = "commas (map member_text ms) @ CHR ''}'' # r"
    have len: "length (json_text v) \<le> m" "length (commas (map member_text ms)) < m"
      using Cons.prems(5) Cons n kv by auto
    have "scan_value m d (json_text v @ '','' @ ?rest) = Some (v, '','' @ ?rest)"
      using Cons.prems len kv by (intro Cons.prems(1)) (auto simp: ends_value_def)
    moreover have "scan_members m d ?rest = Some (ms, r)"
    proof (rule Cons.IH)
      show "scan_value n d (json_text v @ r) = Some (v, r)"
        if "(k, v) \<in> set ms" "json_ok v" "d + json_depth v \<le> maxNestingDepth" "ends_value r" "length (json_text v) \<le> n"
        for k v n d r
        by (rule Cons.prems(1) [of k, OF _ that(2-5)]) (simp add: that(1))
    qed (use Cons.prems len Cons in auto)
    ultimately show ?thesis using Cons n kv str by (simp add: is_ws_def MarshalString_def)
  qed
qed simp

lemma fold_max_ge: "x \<in> set xs \<Longrightarrow> x \<le> fold max xs (a :: nat)" "a \<le> fold max xs (a :: nat)"
proof -
  have "(\<forall>x\<in>set xs. x \<le> fold max xs a) \<and> a \<le> fold max xs a"
    by (induction xs arbitrary: a) (auto intro: le_trans [OF max.cobounded1] le_trans [OF max.cobounded2])
  then show "x \<in> set xs \<Longrightarrow> x \<le> fold max xs a" "a \<le> fold max xs a" by blast+
qed

lemma json_depth_elem: "x \<in> set xs \<Longrightarrow> json_depth x < json_depth (JArray xs)"
  using fold_max_ge(1) [of "json_depth x" "map json_depth xs" 0] by simp

lemma json_depth_member: "(k, v) \<in> set ms \<Longrightarrow> json_depth v < json_depth (JObject ms)"
  using fold_max_ge(1) [of "json_depth v" "map (\<lambda>(k, v). json_depth v) ms" 0] by force

lemma scan_json_text:
  "json_ok j \<Longrightarrow> d + json_depth j \<le> maxNestingDepth \<Longrightarrow> ends_value r \<Longrightarrow> length (json_text j) \<le> n
    \<Longrightarrow> scan_value n d (json_text j @ r) = Some (j, r)"
proof (induction j arbitrary: n d r)
  case (JNumber l)
  then have "n \<noteq> 0" by (cases l) (auto simp: valid_number_def scan_number_def scan_int_def)
  then show ?case using JNumber by (cases n) (auto simp: scan_value_number simp del: scan_value.simps)
next
  case (JString s)
  then show ?case by (cases n) (simp add: MarshalString_def, simp only: json_text.simps json_ok.simps scan_value_string)
next
  case (JArray xs)
  obtain m where n: "n = Suc m" using JArray.prems(4) by (cases n) auto
  show ?case
  proof (cases "xs = []")
    case True
    then show ?thesis using n JArray.prems(2) by (simp add: is_ws_def)
  next
    case False
    then obtain x ys where xs: "xs = x # ys" by (cases xs) auto
    have ok: "list_all json_ok xs" using JArray.prems(1) by simp
    then obtain c t where "json_text x = c # t" "\<not> is_ws c" "c \<noteq> CHR '']''" using json_text_start [of x] xs by auto
    then have st: "\<exists>t. commas (map json_text xs) @ CHR '']'' # r = c # t" "\<not> is_ws c" "c \<noteq> CHR '']''"
      using xs by (cases ys; simp)+
    have "d < maxNestingDepth" using JArray.prems(2) by simp
    moreover have "scan_elems m (Suc d) (commas (map json_text xs) @ CHR '']'' # r) = Some (xs, r)"
    proof (rule scan_elems_text [OF _ False ok])
      show "\<forall>x\<in>set xs. Suc d + json_depth x \<le> maxNestingDepth"
        using JArray.prems(2) json_depth_elem by fastforce
      show "length (commas (map json_text xs)) < m" using JArray.prems(4) n by simp
    qed (use JArray.IH in blast)
    ultimately show ?thesis using st n by (auto simp: is_ws_def)
  qed
next
  case (JObject ms)
  obtain m where n: "n = Suc m" using JObject.prems(4) by (cases n) auto
  show ?case
  proof (cases "ms = []")
    case True
    then show ?thesis using n JObject.prems(2) by (simp add: is_ws_def)
  next
    case False
    then obtain k v ys where ms: "ms = (k, v) # ys" by (cases ms) auto
    have ok: "list_all (\<lambda>(k, v). utf8_ok k \<and> json_ok v) ms" using JObject.prems(1) by simp
    have st: "\<exists>t. commas (map member_text ms) @ CHR ''}'' # r = CHR 0x22 # t"
      using ms by (cases ys) (simp_all add: MarshalString_def)
    have "d < maxNestingDepth" using JObject.prems(2) by simp
    moreover have "scan_members m (Suc d) (commas (map member_text ms) @ CHR ''}'' # r) = Some (ms, r)"
    proof (rule scan_members_text [OF _ False ok])
      show "\<forall>(k, v)\<in>set ms. Suc d + json_depth v \<le> maxNestingDepth"
        using JObject.prems(2) json_depth_member by fastforce
      show "length (commas (map member_text ms)) < m" using JObject.prems(4) n by simp
    qed (use JObject.IH in fastforce)
    ultimately show ?thesis using st n by (auto simp: is_ws_def)
  qed
next
  case JNull
  then show ?case by (cases n) (simp_all add: is_ws_def HasPrefix_def)
next
  case (JBool b)
  then show ?case by (cases n; cases b) (simp_all add: is_ws_def HasPrefix_def)
qed

lemma parse_json_text:
  assumes "json_ok j" "json_depth j \<le> maxNestingDepth"
  shows "parse_json (json_text j) = Some j"
  using scan_json_text [OF assms(1), of 0 "[]" "2 * length (json_text j) + 1"] assms(2)
  by (simp add: parse_json_def first_value_def ends_value_def)

section \<open>What is read is well formed\<close>

lemma utf8_ok_2: "0x80 \<le> (r :: nat) \<Longrightarrow> r < 0x800 \<Longrightarrow> utf8_2 (char_of (0xC0 + r div 0x40)) (char_of (0x80 + r mod 0x40))"
proof -
  assume r: "0x80 \<le> r" "r < 0x800"
  define q where "q = r div 0x40"
  have "2 \<le> q" "q < 0x20" using r by (simp_all add: q_def)
  moreover have "r mod 0x40 < 0x40" by simp
  ultimately show ?thesis by (simp add: utf8_2_def q_def [symmetric])
qed

lemma utf8_ok_3:
  fixes r :: nat
  assumes "0x800 \<le> r" "r < 0x10000" "\<not> is_surrogate r"
  shows "utf8_3 (char_of (0xE0 + r div 0x1000)) (char_of (0x80 + r div 0x40 mod 0x40)) (char_of (0x80 + r mod 0x40))"
proof -
  define q m l where "q = r div 0x1000" and "m = r div 0x40 mod 0x40" and "l = r mod 0x40"
  have "r div 0x40 div 0x40 = q" by (simp add: q_def div_mult2_eq [symmetric])
  then have r: "r = q * 0x1000 + m * 0x40 + l"
    using div_mult_mod_eq [of r "0x40"] div_mult_mod_eq [of "r div 0x40" "0x40"] unfolding m_def l_def by linarith
  have b: "q < 0x10" "m < 0x40" "l < 0x40" using assms(2) by (simp_all add: q_def m_def l_def)
  have "q = 0 \<Longrightarrow> 0x20 \<le> m" "q = 0xD \<Longrightarrow> m < 0x20"
    using assms r b by (auto simp: is_surrogate_def)
  then show ?thesis using b by (auto simp: utf8_3_def q_def [symmetric] m_def [symmetric] l_def [symmetric])
qed

lemma utf8_ok_4:
  fixes r :: nat
  assumes "0x10000 \<le> r" "r < 0x110000"
  shows "utf8_4 (char_of (0xF0 + r div 0x40000)) (char_of (0x80 + r div 0x1000 mod 0x40))
    (char_of (0x80 + r div 0x40 mod 0x40)) (char_of (0x80 + r mod 0x40))"
proof -
  define q n m l where "q = r div 0x40000" and "n = r div 0x1000 mod 0x40" and "m = r div 0x40 mod 0x40" and "l = r mod 0x40"
  have q1: "r div 0x40 div 0x40 = r div 0x1000" "r div 0x1000 div 0x40 = q" by (simp_all add: q_def div_mult2_eq [symmetric])
  have r: "r = q * 0x40000 + n * 0x1000 + m * 0x40 + l"
    using div_mult_mod_eq [of r "0x40"] div_mult_mod_eq [of "r div 0x40" "0x40"] div_mult_mod_eq [of "r div 0x1000" "0x40"]
      q1 unfolding n_def m_def l_def by linarith
  have b: "q \<le> 4" "n < 0x40" "m < 0x40" "l < 0x40" using assms(2) by (simp_all add: q_def n_def m_def l_def)
  have "q = 0 \<Longrightarrow> 0x10 \<le> n" "q = 4 \<Longrightarrow> n < 0x10" using assms r b by auto
  then show ?thesis using b
    by (auto simp: utf8_4_def q_def [symmetric] n_def [symmetric] m_def [symmetric] l_def [symmetric])
qed

lemma utf8_ok_seq:
  "byte a < 0x80 \<Longrightarrow> utf8_ok ([a] @ s) = utf8_ok s"
  "utf8_2 a b \<Longrightarrow> utf8_ok ([a, b] @ s) = utf8_ok s"
  "utf8_3 a b c \<Longrightarrow> utf8_ok ([a, b, c] @ s) = utf8_ok s"
  "utf8_4 a b c d \<Longrightarrow> utf8_ok ([a, b, c, d] @ s) = utf8_ok s"
  using utf8_3_start utf8_high [of a b] utf8_high(2) [of a b c] utf8_high(3) [of a b c d] by auto

lemma utf8_ok_encode:
  assumes "r < 0x110000" "\<not> is_surrogate r"
  shows "utf8_ok (utf8_encode r @ s) = utf8_ok s"
proof -
  consider "r < 0x80" | "0x80 \<le> r" "r < 0x800" | "0x800 \<le> r" "r < 0x10000" | "0x10000 \<le> r" by linarith
  then show ?thesis
  proof cases
    case 1
    then show ?thesis by (simp add: utf8_encode_def)
  next
    case 2
    then show ?thesis using utf8_ok_seq(2) [OF utf8_ok_2] by (simp add: utf8_encode_def)
  next
    case 3
    then show ?thesis using utf8_ok_seq(3) [OF utf8_ok_3] assms by (simp add: utf8_encode_def)
  next
    case 4
    then show ?thesis using utf8_ok_seq(4) [OF utf8_ok_4] assms by (simp add: utf8_encode_def)
  qed
qed

lemma RuneError_ok: "utf8_ok (RuneError @ s) = utf8_ok s"
  by (rule utf8_ok_seq) (simp add: utf8_3_def)

lemma hex_val_less: "hex_val c = Some n \<Longrightarrow> n < 16"
  by (auto simp: hex_val_def Let_def split: if_splits)

lemma hex4_less: "hex4 a b c d = Some r \<Longrightarrow> r < 0x10000"
  unfolding hex4_def
  by (auto dest!: hex_val_less split: option.splits)

lemma surrogate_pair_ok: "surrogate_pair a b = Some r \<Longrightarrow> r < 0x110000 \<and> \<not> is_surrogate r"
  by (auto simp: surrogate_pair_def is_surrogate_def split: if_splits)

lemma simple_escape_ascii: "simple_escape e = Some c \<Longrightarrow> byte c < 0x80"
  by (auto simp: simple_escape_def split: if_splits)

definition ok_result :: "(string \<times> string) option \<Rightarrow> bool" where
  "ok_result x \<longleftrightarrow> (case x of None \<Rightarrow> True | Some (s, r) \<Rightarrow> utf8_ok s)"

lemma ok_emit: "ok_result x \<Longrightarrow> (\<And>s. utf8_ok (p @ s) = utf8_ok s) \<Longrightarrow> ok_result (emit p x)"
  by (auto simp: ok_result_def split: option.splits)

lemma ok_None [simp]: "ok_result None" by (simp add: ok_result_def)

lemma ok_if: "(b \<Longrightarrow> ok_result x) \<Longrightarrow> (\<not> b \<Longrightarrow> ok_result y) \<Longrightarrow> ok_result (if b then x else y)"
  by simp

lemma ok_list: "ok_result x \<Longrightarrow> (\<And>a r. xs = a # r \<Longrightarrow> ok_result (f a r)) \<Longrightarrow> ok_result (case xs of [] \<Rightarrow> x | a # r \<Rightarrow> f a r)"
  by (cases xs) auto

lemma ok_option: "(ob = None \<Longrightarrow> ok_result x) \<Longrightarrow> (\<And>v. ob = Some v \<Longrightarrow> ok_result (f v)) \<Longrightarrow>
    ok_result (case ob of None \<Rightarrow> x | Some v \<Rightarrow> f v)"
  by (cases ob) auto

lemma pair_escape_ok:
  "(if p then hex4 a b c d \<bind> surrogate_pair r else None) = Some r' \<Longrightarrow> utf8_ok (utf8_encode r' @ s) = utf8_ok s"
  by (rule utf8_ok_encode) (auto dest: surrogate_pair_ok split: if_splits bind_splits)

lemma plain_escape_ok: "hex4 a b c d = Some r \<Longrightarrow> \<not> is_surrogate r \<Longrightarrow> utf8_ok (utf8_encode r @ s) = utf8_ok s"
  by (rule utf8_ok_encode) (auto dest: hex4_less)

lemma simple_escape_ok: "simple_escape e = Some c \<Longrightarrow> utf8_ok ([c] @ s) = utf8_ok s"
  by (rule utf8_ok_seq) (rule simple_escape_ascii)

lemma scan_chars_ok: "ok_result (scan_chars s)"
proof (induction s rule: length_induct)
  case (1 s)
  then have ih: "\<And>t. length t < length s \<Longrightarrow> ok_result (scan_chars t)" by blast
  show ?case
  proof (cases s)
    case (Cons a u)
    show ?thesis unfolding Cons scan_chars.simps
      by (intro ok_if ok_list ok_option ok_emit ok_None ih)
        (simp_all only: append_Cons append_Nil utf8_ok_seq [simplified append_Cons append_Nil]
          RuneError_ok [simplified append_Cons append_Nil] list.size Cons utf8_ok.simps(1)
          pair_escape_ok plain_escape_ok simple_escape_ok [simplified append_Cons append_Nil]
          ok_result_def option.case prod.case, metis plain_escape_ok)
  qed simp
qed

lemma scan_chars_utf8: "scan_chars s = Some (x, r) \<Longrightarrow> utf8_ok x"
  using scan_chars_ok [of s] by (simp add: ok_result_def)

text \<open>Numbers: what the scanner took is a literal of the grammar.\<close>

definition ends_digits :: "string \<Rightarrow> bool" where
  "ends_digits r \<longleftrightarrow> (case r of [] \<Rightarrow> True | c # _ \<Rightarrow> \<not> is_digit c)"

lemma scan_digits_self:
  assumes "scan_digits s = (ds, t)"
  shows "list_all is_digit ds" "ends_digits r \<Longrightarrow> scan_digits (ds @ r) = (ds, r)"
proof -
  have ds: "ds = takeWhile is_digit s" using assms by (simp add: scan_digits_def)
  then show all: "list_all is_digit ds" by (auto simp: list_all_iff dest: set_takeWhileD)
  show "ends_digits r \<Longrightarrow> scan_digits (ds @ r) = (ds, r)"
    using all by (cases r) (auto simp: scan_digits_def ends_digits_def list_all_iff)
qed

lemma scan_int_self:
  "scan_int s = Some (i, t) \<Longrightarrow> ends_digits r \<Longrightarrow> scan_int (i @ r) = Some (i, r) \<and> i \<noteq> [] \<and> is_digit (hd i)"
  using scan_digits_self(2) [of s _ _ r]
  by (cases s) (auto simp: scan_int_def scan_digits_def is_digit_def split: if_splits)

lemma scan_exp_self: "scan_exp s = Some (e, t) \<Longrightarrow> scan_exp e = Some (e, [])"
proof (cases s)
  case (Cons c q)
  assume sc: "scan_exp s = Some (e, t)"
  have nil: "ends_digits []" by (simp add: ends_digits_def)
  show ?thesis
  proof (cases q)
    case Nil
    then show ?thesis using sc Cons by (auto simp: scan_exp_def scan_digits_def split: if_splits)
  next
    case (Cons d u)
    show ?thesis
    proof (cases "d = CHR ''+'' \<or> d = CHR ''-''")
      case True
      then show ?thesis using sc \<open>s = c # q\<close> Cons scan_digits_self(2) [of u _ _ "[]", OF _ nil]
        by (auto simp: scan_exp_def Let_def split: if_splits prod.splits)
    next
      case False
      then show ?thesis using sc \<open>s = c # q\<close> Cons scan_digits_self(1) [of q] scan_digits_self(2) [of q _ _ "[]", OF _ nil]
        by (auto simp: scan_exp_def Let_def is_digit_def split: if_splits prod.splits list.splits)
    qed
  qed
qed (simp add: scan_exp_def)

lemma scan_exp_ends: "scan_exp s = Some (e, t) \<Longrightarrow> ends_digits e \<and> (e \<noteq> [] \<longrightarrow> hd e \<noteq> CHR ''.'')"
  by (cases s) (auto simp: scan_exp_def ends_digits_def is_digit_def Let_def split: if_splits prod.splits)

lemma scan_frac_self:
  assumes "scan_frac s = Some (f, t)" "ends_digits r" "r \<noteq> [] \<longrightarrow> hd r \<noteq> CHR ''.''"
  shows "scan_frac (f @ r) = Some (f, r)" "ends_digits (f @ r)"
  using assms scan_digits_self(2) [of "tl s" _ _ r]
  by (cases s; cases r; auto simp: scan_frac_def Let_def ends_digits_def is_digit_def split: if_splits prod.splits)+

lemma scan_number_valid:
  assumes "scan_number s = Some (l, t)"
  shows "valid_number l"
proof -
  obtain neg s0 where n: "(case s of c # q \<Rightarrow> if c = CHR ''-'' then (''-'', q) else ([], s) | [] \<Rightarrow> ([], s)) = (neg, s0)"
    by fastforce
  obtain i s1 f s2 e s3 where p: "scan_int s0 = Some (i, s1)" "scan_frac s1 = Some (f, s2)" "scan_exp s2 = Some (e, s3)"
    "l = neg @ i @ f @ e"
    using assms by (auto simp: scan_number_def n split: option.splits)
  note e = scan_exp_self [OF p(3)] scan_exp_ends [OF p(3)]
  note f = scan_frac_self [OF p(2), of e] and i = scan_int_self [OF p(1), of "f @ e"]
  have "neg = [] \<or> neg = ''-''" using n by (auto split: list.splits if_splits)
  moreover have "hd i \<noteq> CHR ''-''" "i \<noteq> []" using i f e by (auto simp: is_digit_def)
  ultimately have "(case l of c # q \<Rightarrow> if c = CHR ''-'' then (''-'', q) else ([], l) | [] \<Rightarrow> ([], l)) = (neg, i @ f @ e)"
    using p(4) by (cases i) auto
  then show ?thesis unfolding valid_number_def scan_number_def using e f i p(4) by simp
qed

lemma scan_ok:
  "(scan_value n d s = Some (j, r) \<longrightarrow> json_ok j)
   \<and> (scan_elems n d s = Some (js, r) \<longrightarrow> list_all json_ok js)
   \<and> (scan_members n d s = Some (ms, r) \<longrightarrow> list_all (\<lambda>(k, v). utf8_ok k \<and> json_ok v) ms)"
proof (induction n arbitrary: d s j js ms r)
  case (Suc n)
  have ih: "\<And>d s j r. scan_value n d s = Some (j, r) \<Longrightarrow> json_ok j"
    "\<And>d s js r. scan_elems n d s = Some (js, r) \<Longrightarrow> list_all json_ok js"
    "\<And>d s ms r. scan_members n d s = Some (ms, r) \<Longrightarrow> list_all (\<lambda>(k, v). utf8_ok k \<and> json_ok v) ms"
    using Suc.IH by blast+
  have "json_ok j" if "scan_value (Suc n) d s = Some (j, r)"
    using that by (auto split: list.splits if_splits dest: scan_chars_utf8 scan_number_valid ih)
  moreover have "list_all json_ok js" if "scan_elems (Suc n) d s = Some (js, r)"
    using that by (auto split: list.splits if_splits option.splits) (drule ih, simp)+
  moreover have "list_all (\<lambda>(k, v). utf8_ok k \<and> json_ok v) ms" if "scan_members (Suc n) d s = Some (ms, r)"
    using that by (auto split: list.splits if_splits option.splits) (drule scan_chars_utf8 ih, simp)+
  ultimately show ?case by blast
qed simp

lemma first_value_ok: "first_value s = Some (j, r) \<Longrightarrow> json_ok j"
  unfolding first_value_def using scan_ok by blast

lemma parse_json_ok: "parse_json s = Some j \<Longrightarrow> json_ok j"
  using first_value_ok [of s] by (auto simp: parse_json_def split: option.splits prod.splits if_splits)

end
