(* ===== verification/ChallengeStore.thy ===== *)
theory ChallengeStore
  imports JsonText Http Sql
begin

text \<open>
  \<open>internal/handlers/challenge_store.go\<close>: where the challenges of the authentication protocol
  wait. The Go interface is a record of operations, each given the reading of the clock it may
  take; the memory store and the Redis store are two values of it. The locale states the
  contract over the challenges a store holds, and both stores are interpretations.
\<close>

section \<open>Challenges and the interface\<close>

record authChallenge =
  ch_ChallengeID :: string
  ch_Nonce :: string
  ch_ServiceID :: string
  ch_ServiceName :: string
  ch_IssuedAt :: string
  ch_ExpiresAt :: string
  ch_QRCode :: string

definition zero_challenge :: authChallenge where
  "zero_challenge = \<lparr>ch_ChallengeID = [], ch_Nonce = [], ch_ServiceID = [], ch_ServiceName = [],
     ch_IssuedAt = [], ch_ExpiresAt = [], ch_QRCode = []\<rparr>"

record 'c ChallengeStore =
  cs_Save :: "time \<Rightarrow> 'c \<Rightarrow> authChallenge \<Rightarrow> (error + unit) \<times> 'c"
  cs_Get :: "time \<Rightarrow> 'c \<Rightarrow> string \<Rightarrow> (error + authChallenge) \<times> 'c"
  cs_Delete :: "'c \<Rightarrow> string \<Rightarrow> (error + unit) \<times> 'c"

section \<open>The memory store\<close>

record MemoryChallengeStore =
  challenges :: "authChallenge gomap"

definition NewMemoryChallengeStore :: MemoryChallengeStore where
  "NewMemoryChallengeStore = \<lparr>challenges = []\<rparr>"

definition MemoryChallengeStore_Save :: "time \<Rightarrow> MemoryChallengeStore \<Rightarrow> authChallenge
    \<Rightarrow> (error + unit) \<times> MemoryChallengeStore" where
  "MemoryChallengeStore_Save now s challenge =
     (Inr (), s\<lparr>challenges := gm_set (ch_ChallengeID challenge) challenge (challenges s)\<rparr>)"

definition MemoryChallengeStore_Get :: "time \<Rightarrow> MemoryChallengeStore \<Rightarrow> string
    \<Rightarrow> (error + authChallenge) \<times> MemoryChallengeStore" where
  "MemoryChallengeStore_Get now s challengeID =
     (case gm_get (challenges s) challengeID of
        None \<Rightarrow> (Inl ErrChallengeNotFound, s)
      | Some challenge \<Rightarrow> (Inr challenge, s))"

definition MemoryChallengeStore_Delete :: "MemoryChallengeStore \<Rightarrow> string \<Rightarrow> (error + unit) \<times> MemoryChallengeStore" where
  "MemoryChallengeStore_Delete s challengeID = (Inr (), s\<lparr>challenges := gm_del challengeID (challenges s)\<rparr>)"

definition memory_challenge_store :: "MemoryChallengeStore ChallengeStore" where
  "memory_challenge_store =
     \<lparr>cs_Save = MemoryChallengeStore_Save, cs_Get = MemoryChallengeStore_Get,
      cs_Delete = MemoryChallengeStore_Delete\<rparr>"

lemmas memory_challenge_defs [store_defs] =
  memory_challenge_store_def MemoryChallengeStore_Save_def MemoryChallengeStore_Get_def
  MemoryChallengeStore_Delete_def

section \<open>The Redis store\<close>

text \<open>
  A Redis server keeps strings under keys, each with the instant at which it expires, counted
  in whole milliseconds from the command that set it. Its failures are a script, as for the
  database: a command may fail before or after it had its effect.
\<close>

record RedisChallengeStore =
  rd_data :: "(string \<times> time) gomap"
  rd_faults :: "db_fault list"

definition redis_do :: "((string \<times> time) gomap \<Rightarrow> 'a \<times> (string \<times> time) gomap) \<Rightarrow> RedisChallengeStore
    \<Rightarrow> (error + 'a) \<times> RedisChallengeStore" where
  "redis_do cmd s =
     (let (f, faults) = (case rd_faults s of [] \<Rightarrow> (NoFault, []) | f # fs \<Rightarrow> (f, fs));
          (a, data) = cmd (rd_data s);
          s' = s\<lparr>rd_faults := faults\<rparr>
      in case f of
           NoFault \<Rightarrow> (Inr a, s'\<lparr>rd_data := data\<rparr>)
         | FailBefore \<Rightarrow> (Inl (ErrOther ''redis error''), s')
         | FailAfter \<Rightarrow> (Inl (ErrOther ''redis error''), s'\<lparr>rd_data := data\<rparr>))"

definition millisecond :: duration where "millisecond = 10 ^ 6"

definition redis_SET :: "time \<Rightarrow> string \<Rightarrow> string \<Rightarrow> duration \<Rightarrow> (string \<times> time) gomap \<Rightarrow> unit \<times> (string \<times> time) gomap" where
  "redis_SET now k v ttl data =
     ((), gm_set k (v, now + max 1 (ttl div millisecond) * millisecond) data)"

definition redis_GET :: "time \<Rightarrow> string \<Rightarrow> (string \<times> time) gomap \<Rightarrow> string option \<times> (string \<times> time) gomap" where
  "redis_GET now k data =
     (case gm_get data k of
        None \<Rightarrow> (None, data)
      | Some (v, expiry) \<Rightarrow> (if now < expiry then Some v else None, data))"

definition redis_DEL :: "string \<Rightarrow> (string \<times> time) gomap \<Rightarrow> unit \<times> (string \<times> time) gomap" where
  "redis_DEL k data = ((), gm_del k data)"

definition challengeKey :: "string \<Rightarrow> string" where
  "challengeKey challengeID = ''uddi:auth_challenge:'' @ challengeID"

definition ExpiresAtTime :: "time \<Rightarrow> authChallenge \<Rightarrow> time" where
  "ExpiresAtTime now c = (case ParseRFC3339 (ch_ExpiresAt c) of None \<Rightarrow> now | Some expiresAt \<Rightarrow> expiresAt)"

definition marshal_challenge :: "authChallenge \<Rightarrow> string" where
  "marshal_challenge c = json_text (JObject
     [(''challengeId'', JString (ch_ChallengeID c)), (''nonce'', JString (ch_Nonce c)),
      (''serviceId'', JString (ch_ServiceID c)), (''serviceName'', JString (ch_ServiceName c)),
      (''issuedAt'', JString (ch_IssuedAt c)), (''expiresAt'', JString (ch_ExpiresAt c)),
      (''qrCode'', JString (ch_QRCode c))])"

definition authChallenge_fields :: "authChallenge fields" where
  "authChallenge_fields =
     [(''challengeId'', string_field ch_ChallengeID_update), (''nonce'', string_field ch_Nonce_update),
      (''serviceId'', string_field ch_ServiceID_update), (''serviceName'', string_field ch_ServiceName_update),
      (''issuedAt'', string_field ch_IssuedAt_update), (''expiresAt'', string_field ch_ExpiresAt_update),
      (''qrCode'', string_field ch_QRCode_update)]"

definition unmarshal_challenge :: "string \<Rightarrow> authChallenge option" where
  "unmarshal_challenge payload =
     Option.bind (parse_json payload) (\<lambda>j. decode_struct authChallenge_fields j zero_challenge)"

definition RedisChallengeStore_Save :: "time \<Rightarrow> RedisChallengeStore \<Rightarrow> authChallenge
    \<Rightarrow> (error + unit) \<times> RedisChallengeStore" where
  "RedisChallengeStore_Save now s challenge =
     (let payload = marshal_challenge challenge;
          ttl = Sub (ExpiresAtTime now challenge) now;
          ttl = (if ttl \<le> 0 then second else ttl)
      in redis_do (redis_SET now (challengeKey (ch_ChallengeID challenge)) payload ttl) s)"

definition RedisChallengeStore_Get :: "time \<Rightarrow> RedisChallengeStore \<Rightarrow> string
    \<Rightarrow> (error + authChallenge) \<times> RedisChallengeStore" where
  "RedisChallengeStore_Get now s challengeID =
     (case redis_do (redis_GET now (challengeKey challengeID)) s of
        (Inl e, s) \<Rightarrow> (Inl e, s)
      | (Inr None, s) \<Rightarrow> (Inl ErrChallengeNotFound, s)
      | (Inr (Some payload), s) \<Rightarrow>
          (case unmarshal_challenge payload of
             None \<Rightarrow> (Inl (ErrOther ''unmarshal''), s)
           | Some challenge \<Rightarrow> (Inr challenge, s)))"

definition RedisChallengeStore_Delete :: "RedisChallengeStore \<Rightarrow> string \<Rightarrow> (error + unit) \<times> RedisChallengeStore" where
  "RedisChallengeStore_Delete s challengeID = redis_do (redis_DEL (challengeKey challengeID)) s"

definition redis_challenge_store :: "RedisChallengeStore ChallengeStore" where
  "redis_challenge_store =
     \<lparr>cs_Save = RedisChallengeStore_Save, cs_Get = RedisChallengeStore_Get,
      cs_Delete = RedisChallengeStore_Delete\<rparr>"

lemmas redis_challenge_defs [store_defs] =
  redis_challenge_store_def RedisChallengeStore_Save_def RedisChallengeStore_Get_def
  RedisChallengeStore_Delete_def

text \<open>A challenge survives its trip through the JSON text of Redis.\<close>

definition challenge_ok :: "authChallenge \<Rightarrow> bool" where
  "challenge_ok c \<longleftrightarrow> utf8_ok (ch_ChallengeID c) \<and> utf8_ok (ch_Nonce c) \<and> utf8_ok (ch_ServiceID c)
     \<and> utf8_ok (ch_ServiceName c) \<and> utf8_ok (ch_IssuedAt c) \<and> utf8_ok (ch_ExpiresAt c) \<and> utf8_ok (ch_QRCode c)"

lemma unmarshal_marshal_challenge:
  assumes "challenge_ok c"
  shows "unmarshal_challenge (marshal_challenge c) = Some c"
proof -
  let ?j = "JObject
     [(''challengeId'', JString (ch_ChallengeID c)), (''nonce'', JString (ch_Nonce c)),
      (''serviceId'', JString (ch_ServiceID c)), (''serviceName'', JString (ch_ServiceName c)),
      (''issuedAt'', JString (ch_IssuedAt c)), (''expiresAt'', JString (ch_ExpiresAt c)),
      (''qrCode'', JString (ch_QRCode c))]"
  have "json_ok ?j" using assms by (simp add: challenge_ok_def)
  moreover have "json_depth ?j \<le> maxNestingDepth" by (simp add: maxNestingDepth_def)
  ultimately have "parse_json (marshal_challenge c) = Some ?j"
    unfolding marshal_challenge_def by (rule parse_json_text)
  then show ?thesis
    by (simp add: unmarshal_challenge_def decode_struct_def field_for_def authChallenge_fields_def go_defs
        zero_challenge_def)
qed

section \<open>The contract of the interface\<close>

text \<open>
  \<open>view s\<close> are the challenges that may still come out of a store. A call may fail, and \<open>Get\<close>
  may have lost a challenge. A reliable store says with \<open>keeps\<close> until when a challenge is
  certain to be there; a saved one is kept up to the last millisecond before it expires.
\<close>

locale challenge_store =
  fixes ops :: "'c ChallengeStore"
    and view :: "'c \<Rightarrow> string \<Rightarrow> authChallenge option"
    and inv :: "'c \<Rightarrow> bool"
  assumes view_ID: "inv s \<Longrightarrow> view s i = Some ch \<Longrightarrow> ch_ChallengeID ch = i"
    and Save_law: "inv s \<Longrightarrow> challenge_ok ch \<Longrightarrow> cs_Save ops now s ch = (ru, s') \<Longrightarrow>
      inv s' \<and> (view s' = view s \<or> view s' = (view s)(ch_ChallengeID ch \<mapsto> ch))
      \<and> (ru = Inr () \<longrightarrow> view s' = (view s)(ch_ChallengeID ch \<mapsto> ch))"
    and Get_law: "inv s \<Longrightarrow> cs_Get ops now s i = (rc, s') \<Longrightarrow>
      inv s' \<and> view s' = view s \<and> (\<forall>ch. rc = Inr ch \<longrightarrow> view s i = Some ch)"
    and Delete_law: "inv s \<Longrightarrow> cs_Delete ops s i = (ru, s') \<Longrightarrow>
      inv s' \<and> (view s' = view s \<or> view s' = (view s)(i := None))
      \<and> (ru = Inr () \<longrightarrow> view s' = (view s)(i := None))"

locale reliable_challenge_store = challenge_store +
  fixes keeps :: "'c \<Rightarrow> string \<Rightarrow> time \<Rightarrow> bool"
  assumes Save_ok: "inv s \<Longrightarrow> challenge_ok ch \<Longrightarrow> cs_Save ops now s ch = (ru, s') \<Longrightarrow>
      ru = Inr () \<and> (\<forall>i t. i \<noteq> ch_ChallengeID ch \<longrightarrow> keeps s' i t = keeps s i t)"
    and Save_keeps: "inv s \<Longrightarrow> challenge_ok ch \<Longrightarrow> cs_Save ops now s ch = (ru, s') \<Longrightarrow>
      ParseRFC3339 (ch_ExpiresAt ch) = Some e \<Longrightarrow> e - now < 2 ^ 63 \<Longrightarrow> t + millisecond \<le> e \<Longrightarrow>
      keeps s' (ch_ChallengeID ch) t"
    and Get_ok: "inv s \<Longrightarrow> view s i = Some ch \<Longrightarrow> keeps s i now \<Longrightarrow> cs_Get ops now s i = (rc, s') \<Longrightarrow> rc = Inr ch"
    and Get_keeps: "inv s \<Longrightarrow> cs_Get ops now s i = (rc, s') \<Longrightarrow> keeps s' = keeps s"
    and Delete_ok: "inv s \<Longrightarrow> cs_Delete ops s i = (ru, s') \<Longrightarrow>
      ru = Inr () \<and> (\<forall>j t. j \<noteq> i \<longrightarrow> keeps s' j t = keeps s j t)"

subsection \<open>The memory store keeps it\<close>

definition memch_view :: "MemoryChallengeStore \<Rightarrow> string \<Rightarrow> authChallenge option" where
  "memch_view s = map_of (challenges s)"

definition memch_inv :: "MemoryChallengeStore \<Rightarrow> bool" where
  "memch_inv s \<longleftrightarrow> (\<forall>i ch. map_of (challenges s) i = Some ch \<longrightarrow> ch_ChallengeID ch = i)"

text \<open>The memory store never drops a challenge by itself.\<close>

definition memch_keeps :: "MemoryChallengeStore \<Rightarrow> string \<Rightarrow> time \<Rightarrow> bool" where
  "memch_keeps s i t \<longleftrightarrow> True"

interpretation memch: reliable_challenge_store memory_challenge_store memch_view memch_inv memch_keeps
  by unfold_locales
    (auto simp: store_defs memch_view_def memch_inv_def memch_keeps_def split: option.splits if_splits)

subsection \<open>The Redis store keeps it\<close>

definition redis_view :: "RedisChallengeStore \<Rightarrow> string \<Rightarrow> authChallenge option" where
  "redis_view s i = Option.bind (gm_get (rd_data s) (challengeKey i)) (\<lambda>(payload, _). unmarshal_challenge payload)"

text \<open>Every payload is the text of a challenge with the identifier of its key.\<close>

definition redis_inv :: "RedisChallengeStore \<Rightarrow> bool" where
  "redis_inv s \<longleftrightarrow> (\<forall>i payload expiry. gm_get (rd_data s) (challengeKey i) = Some (payload, expiry) \<longrightarrow>
     (\<exists>ch. unmarshal_challenge payload = Some ch \<and> ch_ChallengeID ch = i))"

definition redis_keeps :: "RedisChallengeStore \<Rightarrow> string \<Rightarrow> time \<Rightarrow> bool" where
  "redis_keeps s i t \<longleftrightarrow> (case gm_get (rd_data s) (challengeKey i) of
     None \<Rightarrow> False | Some (payload, expiry) \<Rightarrow> t < expiry)"

lemma challengeKey_inject [simp]: "challengeKey i = challengeKey j \<longleftrightarrow> i = j"
  by (simp add: challengeKey_def)

lemma redis_do_data:
  assumes "redis_do cmd s = (r, s')"
  shows "rd_data s' = rd_data s \<or> rd_data s' = snd (cmd (rd_data s))"
    and "r = Inr a \<Longrightarrow> rd_data s' = snd (cmd (rd_data s)) \<and> a = fst (cmd (rd_data s))"
  using assms by (auto simp: redis_do_def Let_def case_prod_unfold split: db_fault.splits)

lemma redis_do_quiet:
  "rd_faults s = [] \<Longrightarrow> redis_do cmd s = (Inr (fst (cmd (rd_data s))), s\<lparr>rd_data := snd (cmd (rd_data s))\<rparr>)"
  by (cases s) (simp add: redis_do_def case_prod_unfold Let_def)

lemma redis_view_data:
  assumes "rd_data s' = rd_data s" shows "redis_view s' = redis_view s" "redis_inv s' = redis_inv s" "redis_keeps s' = redis_keeps s"
  using assms by (auto simp: redis_view_def redis_inv_def redis_keeps_def fun_eq_iff)

lemma redis_set_data:
  assumes "redis_inv s" "challenge_ok ch" "rd_data s' = gm_set (challengeKey (ch_ChallengeID ch)) (marshal_challenge ch, e) (rd_data s)"
  shows "redis_inv s'" "redis_view s' = (redis_view s)(ch_ChallengeID ch \<mapsto> ch)"
  using assms by (auto simp: redis_inv_def redis_view_def fun_eq_iff unmarshal_marshal_challenge)

lemma redis_del_data:
  assumes "redis_inv s" "rd_data s' = gm_del (challengeKey i) (rd_data s)"
  shows "redis_inv s'" "redis_view s' = (redis_view s)(i := None)"
  using assms by (auto simp: redis_inv_def redis_view_def fun_eq_iff)

lemma redis_GET_snd [simp]: "snd (redis_GET now k data) = data"
  by (simp add: redis_GET_def split: option.splits)

lemma redis_Get_do:
  assumes "RedisChallengeStore_Get now s i = (r, s')"
  obtains q where "redis_do (redis_GET now (challengeKey i)) s = (q, s')"
    "\<And>ch. r = Inr ch \<Longrightarrow> \<exists>payload. q = Inr (Some payload) \<and> unmarshal_challenge payload = Some ch"
  using assms by (auto simp: RedisChallengeStore_Get_def split: prod.splits sum.splits option.splits)

interpretation redis: challenge_store redis_challenge_store redis_view redis_inv
proof unfold_locales
  fix s i ch
  assume "redis_inv s" "redis_view s i = Some ch"
  then show "ch_ChallengeID ch = i" by (fastforce simp: redis_view_def redis_inv_def split: bind_splits)
next
  fix s ch now r s'
  assume inv: "redis_inv s" and ok: "challenge_ok ch" and sv: "cs_Save redis_challenge_store now s ch = (r, s')"
  obtain ttl where "redis_do (redis_SET now (challengeKey (ch_ChallengeID ch)) (marshal_challenge ch) ttl) s = (r, s')"
    using sv by (auto simp: redis_challenge_store_def RedisChallengeStore_Save_def Let_def)
  note d = redis_do_data [OF this, unfolded redis_SET_def, simplified]
  show "redis_inv s' \<and> (redis_view s' = redis_view s \<or> redis_view s' = (redis_view s)(ch_ChallengeID ch \<mapsto> ch))
      \<and> (r = Inr () \<longrightarrow> redis_view s' = (redis_view s)(ch_ChallengeID ch \<mapsto> ch))"
    using d redis_set_data [OF inv ok] redis_view_data [of s' s] inv by blast
next
  fix s now i r s'
  assume inv: "redis_inv s" and gt: "cs_Get redis_challenge_store now s i = (r, s')"
  then obtain q where q: "redis_do (redis_GET now (challengeKey i)) s = (q, s')"
    "\<And>ch. r = Inr ch \<Longrightarrow> \<exists>payload. q = Inr (Some payload) \<and> unmarshal_challenge payload = Some ch"
    by (auto simp: redis_challenge_store_def elim: redis_Get_do)
  have "rd_data s' = rd_data s" using redis_do_data(1) [OF q(1)] by simp
  moreover have "redis_view s i = Some ch" if "r = Inr ch" for ch
    using q(2) [OF that] redis_do_data(2) [OF q(1)]
    by (auto simp: redis_view_def redis_GET_def split: option.splits if_splits)
  ultimately show "redis_inv s' \<and> redis_view s' = redis_view s \<and> (\<forall>ch. r = Inr ch \<longrightarrow> redis_view s i = Some ch)"
    using inv redis_view_data by blast
next
  fix s i r s'
  assume inv: "redis_inv s" and dl: "cs_Delete redis_challenge_store s i = (r, s')"
  have "redis_do (redis_DEL (challengeKey i)) s = (r, s')"
    using dl by (simp add: redis_challenge_store_def RedisChallengeStore_Delete_def)
  note d = redis_do_data [OF this, unfolded redis_DEL_def, simplified]
  show "redis_inv s' \<and> (redis_view s' = redis_view s \<or> redis_view s' = (redis_view s)(i := None))
      \<and> (r = Inr () \<longrightarrow> redis_view s' = (redis_view s)(i := None))"
    using d redis_del_data [OF inv] redis_view_data [of s' s] inv by blast
qed

text \<open>While the server answers every command the Redis store is reliable.\<close>

definition redis_quiet :: "RedisChallengeStore \<Rightarrow> bool" where
  "redis_quiet s \<longleftrightarrow> redis_inv s \<and> rd_faults s = []"

lemma redis_quiet_ops:
  assumes "rd_faults s = []"
  shows "cs_Save redis_challenge_store now s ch = (ru, s') \<Longrightarrow> ru = Inr () \<and> rd_faults s' = []
      \<and> (\<exists>ttl. (ttl = (if Sub (ExpiresAtTime now ch) now \<le> 0 then second else Sub (ExpiresAtTime now ch) now))
          \<and> rd_data s' = gm_set (challengeKey (ch_ChallengeID ch))
            (marshal_challenge ch, now + max 1 (ttl div millisecond) * millisecond) (rd_data s))"
    and "cs_Get redis_challenge_store now s i = (rc, s') \<Longrightarrow> s' = s"
    and "cs_Delete redis_challenge_store s i = (ru, s') \<Longrightarrow> ru = Inr () \<and> rd_faults s' = []
      \<and> rd_data s' = gm_del (challengeKey i) (rd_data s)"
  using assms
  by (auto simp: redis_challenge_defs redis_do_quiet redis_SET_def redis_DEL_def Let_def
      split: option.splits)

lemma ttl_reaches:
  assumes "ParseRFC3339 (ch_ExpiresAt ch) = Some e" "e - now < 2 ^ 63" "t + millisecond \<le> e"
    and "ttl = (if Sub (ExpiresAtTime now ch) now \<le> 0 then second else Sub (ExpiresAtTime now ch) now)"
  shows "t < now + max 1 (ttl div millisecond) * millisecond"
proof (cases "e - now \<le> 0")
  case True
  then have "t < now" using assms(3) by (simp add: millisecond_def)
  also have "now \<le> now + max 1 (ttl div millisecond) * millisecond" by (simp add: millisecond_def)
  finally show ?thesis .
next
  case False
  then have "ttl = e - now" using assms by (auto simp: Sub_def ExpiresAtTime_def)
  moreover have "ttl < (ttl div millisecond) * millisecond + millisecond"
    by (simp add: millisecond_def) 
  ultimately have "t < now + (ttl div millisecond) * millisecond" using assms(3) by linarith
  also have "\<dots> \<le> now + max 1 (ttl div millisecond) * millisecond"
    by (simp add: millisecond_def)
  finally show ?thesis .
qed

interpretation redisq: reliable_challenge_store redis_challenge_store redis_view redis_quiet redis_keeps
proof (unfold_locales, goal_cases)
  case (1 s i ch)
  then show ?case using redis.view_ID [of s i ch] by (simp add: redis_quiet_def)
next
  case (2 s ch now ru s')
  then show ?case using redis.Save_law [of s ch now ru s'] redis_quiet_ops(1) [of s now ch ru s']
    by (simp add: redis_quiet_def)
next
  case (3 s now i rc s')
  then show ?case using redis.Get_law [of s now i rc s'] redis_quiet_ops(2) [of s now i rc s']
    by (simp add: redis_quiet_def)
next
  case (4 s i ru s')
  then show ?case using redis.Delete_law [of s i ru s'] redis_quiet_ops(3) [of s i ru s']
    by (simp add: redis_quiet_def)
next
  case (5 s ch now ru s')
  then show ?case using redis_quiet_ops(1) [of s now ch ru s'] by (auto simp: redis_quiet_def redis_keeps_def)
next
  case (6 s ch now ru s' e t)
  then obtain ttl where ttl: "ttl = (if Sub (ExpiresAtTime now ch) now \<le> 0 then second else Sub (ExpiresAtTime now ch) now)"
    "rd_data s' = gm_set (challengeKey (ch_ChallengeID ch))
            (marshal_challenge ch, now + max 1 (ttl div millisecond) * millisecond) (rd_data s)"
    using redis_quiet_ops(1) [of s now ch ru s'] unfolding redis_quiet_def by blast
  then show ?case using ttl_reaches [OF 6(4-6) ttl(1)] by (simp add: redis_keeps_def)
next
  case (7 s i ch now rc s')
  then show ?case
    by (auto simp: redis_quiet_def redis_challenge_defs redis_do_quiet redis_GET_def redis_view_def redis_keeps_def
        split: bind_splits option.splits)
next
  case (8 s now i rc s')
  then show ?case using redis_quiet_ops(2) [of s now i rc s'] by (simp add: redis_quiet_def)
next
  case (9 s i ru s')
  then show ?case using redis_quiet_ops(3) [of s i ru s'] by (auto simp: redis_quiet_def redis_keeps_def)
qed

end
