(* ===== verification/Canonical.thy ===== *)
theory Canonical
  imports JsonText
begin

text \<open>
  The canonical text of a credential (\<open>canonicalCredential\<close> and \<open>canonicalizeJSON\<close> of
  \<open>internal/handlers/credential.go\<close>): the message an issuer signs. Two values are the same when
  they differ only in the order in which a Go map lists its members; the canonical text is the
  marshalled form of the sorted value, so it depends on nothing else, and it determines the value.
\<close>

section \<open>The canonical text\<close>

text \<open>\<open>json.Marshal\<close> of a value that is neither a map nor a slice.\<close>

definition marshal_scalar :: "prims \<Rightarrow> gval \<Rightarrow> string option" where
  "marshal_scalar P v =
     (case v of
        GNil \<Rightarrow> Some ''null''
      | GBool b \<Rightarrow> Some (if b then ''true'' else ''false'')
      | GFloat x \<Rightarrow> format_float64 P x
      | GInt i \<Rightarrow> Some (FormatInt i)
      | GStr s \<Rightarrow> Some (MarshalString s)
      | _ \<Rightarrow> None)"

text \<open>A call that fails makes the whole call fail, whichever it is: \<open>those\<close>.\<close>

fun canonicalizeJSON :: "prims \<Rightarrow> gval \<Rightarrow> string option" where
  "canonicalizeJSON P (GObj typed) =
     (let keys = sort (map fst typed);
          values = map (\<lambda>(key, value). (key, canonicalizeJSON P value)) typed
      in map_option (\<lambda>members. ''{'' @ commas members @ ''}'')
           (those (map (\<lambda>key. case map_of values key of
                           Some (Some valueJSON) \<Rightarrow> Some (MarshalString key @ '':'' @ valueJSON)
                         | _ \<Rightarrow> None) keys)))"
| "canonicalizeJSON P (GArr typed) =
     map_option (\<lambda>items. ''['' @ commas items @ '']'') (those (map (canonicalizeJSON P) typed))"
| "canonicalizeJSON P v = marshal_scalar P v"

definition withoutProof :: "gmap \<Rightarrow> gmap" where
  "withoutProof credential = filter (\<lambda>(key, _). key \<noteq> ''proof'') credential"

definition canonicalCredential :: "prims \<Rightarrow> gmap \<Rightarrow> string option" where
  "canonicalCredential P credential = canonicalizeJSON P (GObj (withoutProof credential))"

section \<open>Values up to the order of members\<close>

fun gnorm :: "gval \<Rightarrow> gval" where
  "gnorm (GArr xs) = GArr (map gnorm xs)"
| "gnorm (GObj ms) = GObj (sort_key fst (map (\<lambda>(k, v). (k, gnorm v)) ms))"
| "gnorm v = v"

definition gval_same :: "gval \<Rightarrow> gval \<Rightarrow> bool" where
  "gval_same v w \<longleftrightarrow> gnorm v = gnorm w"

lemma gval_same_refl [simp, intro]: "gval_same v v"
  by (simp add: gval_same_def)

lemma gval_same_sym: "gval_same v w \<Longrightarrow> gval_same w v"
  by (simp add: gval_same_def)

lemma gval_same_trans: "gval_same u v \<Longrightarrow> gval_same v w \<Longrightarrow> gval_same u w"
  by (simp add: gval_same_def)

text \<open>Sorting the entries of a map by key, when the keys are distinct.\<close>

lemma sort_key_mset:
  assumes "gm_wf xs" "mset xs = mset ys"
  shows "sort_key fst xs = sort_key fst ys"
proof (rule sort_key_inj_key_eq)
  show "inj_on fst (set xs)" using assms(1) by (simp add: distinct_map)
qed (use assms(2) in simp_all)

lemma gm_wf_sort_key [simp]: "gm_wf (sort_key f m) = gm_wf m"
  by (rule mset_eq_imp_distinct_iff) simp

lemma map_of_sort_key [simp]: "gm_wf m \<Longrightarrow> map_of (sort_key f m) = map_of m"
  by (simp add: map_of_inject_set)

lemma map_fst_sort_key: "map fst (sort_key fst m) = sort (map fst m)"
  by (rule properties_for_sort [symmetric]) simp_all

abbreviation map_snd :: "('a \<Rightarrow> 'b) \<Rightarrow> 'a gomap \<Rightarrow> 'b gomap" where
  "map_snd f m \<equiv> map (\<lambda>(k, v). (k, f v)) m"

lemma fst_map_snd [simp]: "fst \<circ> (\<lambda>(k, v). (k, f v)) = fst"
  by auto

lemma map_of_map_snd [simp]: "map_of (map_snd f m) k = map_option f (map_of m k)"
  by (induction m) auto

lemma sort_key_map_snd:
  "gm_wf m \<Longrightarrow> sort_key fst (map_snd f m) = map_snd f (sort_key fst m)"
proof -
  assume wf: "gm_wf m"
  have "sort_key fst (map_snd f m) = sort_key fst (map_snd f (sort_key fst m))"
    using wf by (intro sort_key_mset) simp_all
  also have "\<dots> = map_snd f (sort_key fst m)"
    by (rule sort_key_id_if_sorted) simp
  finally show ?thesis .
qed

lemma gm_eq_sort_key:
  assumes "gm_wf m" "gm_wf n" "map_of m = map_of n"
  shows "sort_key fst m = sort_key fst n"
proof (rule sort_key_mset [OF assms(1)])
  have "distinct m" "distinct n" using assms(1,2) by (simp_all add: distinct_map)
  moreover have "set m = set n" using assms by (simp add: map_of_inject_set)
  ultimately show "mset m = mset n" by (simp add: set_eq_iff_mset_eq_distinct)
qed

text \<open>Two maps are the same when they have the same values under every key.\<close>

lemma gval_same_GObj:
  assumes "gm_wf ms" "gm_wf ns"
  shows "gval_same (GObj ms) (GObj ns) \<longleftrightarrow> (\<forall>k. rel_option gval_same (map_of ms k) (map_of ns k))"
proof -
  have "gval_same (GObj ms) (GObj ns) \<longleftrightarrow> map_of (map_snd gnorm ms) = map_of (map_snd gnorm ns)"
  proof
    assume "gval_same (GObj ms) (GObj ns)"
    then have "map_of (sort_key fst (map_snd gnorm ms)) = map_of (sort_key fst (map_snd gnorm ns))"
      by (simp add: gval_same_def)
    moreover have "gm_wf (map_snd gnorm ms)" "gm_wf (map_snd gnorm ns)" using assms by simp_all
    ultimately show "map_of (map_snd gnorm ms) = map_of (map_snd gnorm ns)" by (simp only: map_of_sort_key)
  next
    assume "map_of (map_snd gnorm ms) = map_of (map_snd gnorm ns)"
    then show "gval_same (GObj ms) (GObj ns)"
      using gm_eq_sort_key [of "map_snd gnorm ms" "map_snd gnorm ns"] assms by (simp add: gval_same_def)
  qed
  also have "\<dots> \<longleftrightarrow> (\<forall>k. rel_option gval_same (map_of ms k) (map_of ns k))"
  proof -
    have "map_option gnorm x = map_option gnorm y \<longleftrightarrow> rel_option gval_same x y" for x y
      by (cases x; cases y) (simp_all add: gval_same_def)
    then show ?thesis by (simp add: fun_eq_iff)
  qed
  finally show ?thesis .
qed

lemma gval_same_cases:
  "gval_same v (GStr s) \<longleftrightarrow> v = GStr s" "gval_same (GStr s) v \<longleftrightarrow> v = GStr s"
  "gval_same (GObj ms) v \<Longrightarrow> \<exists>ns. v = GObj ns"
  by (cases v; force simp: gval_same_def)+

lemma gval_same_shuffle:
  assumes "gm_wf ms" "mset ms = mset ns"
  shows "gval_same (GObj ms) (GObj ns)"
proof -
  have "mset (map fst ms) = mset (map fst ns)" using assms(2) by simp
  then have wf: "gm_wf ns" using assms(1) mset_eq_imp_distinct_iff by blast
  have "set ms = set ns" using assms(2) by (rule mset_eq_setD)
  then have "map_of ms = map_of ns" using map_of_inject_set [OF assms(1) wf] by blast
  then show ?thesis using gval_same_GObj [OF assms(1) wf] by (simp add: option.rel_refl)
qed

section \<open>The canonical text is the marshalled sorted value\<close>

fun gval_json :: "prims \<Rightarrow> gval \<Rightarrow> json option" where
  "gval_json P GNil = Some JNull"
| "gval_json P (GBool b) = Some (JBool b)"
| "gval_json P (GFloat x) = map_option JNumber (format_float64 P x)"
| "gval_json P (GInt i) = Some (JNumber (FormatInt i))"
| "gval_json P (GStr s) = Some (JString s)"
| "gval_json P (GArr xs) = map_option JArray (those (map (gval_json P) xs))"
| "gval_json P (GObj ms) =
     map_option JObject (those (map (\<lambda>(k, v). map_option (Pair k) (gval_json P v)) ms))"

lemma those_map_option: "those (map (\<lambda>x. map_option f (g x)) xs) = map_option (map f) (those (map g xs))"
  by (induction xs) (auto split: option.splits simp: option.map_comp comp_def)

lemma those_Some_iff: "those xs = Some ys \<longleftrightarrow> xs = map Some ys"
  by (induction xs arbitrary: ys) (auto split: option.splits simp: map_eq_Cons_conv)

lemma canonical_marshals: "gval_wf v \<Longrightarrow> canonicalizeJSON P v = map_option json_text (gval_json P (gnorm v))"
proof (induction P v rule: canonicalizeJSON.induct)
  case (1 P ms)
  then have wf: "gm_wf ms" and ih: "\<And>k v. (k, v) \<in> set ms \<Longrightarrow>
      canonicalizeJSON P v = map_option json_text (gval_json P (gnorm v))"
    by (auto simp: list_all_iff)
  let ?S = "sort_key fst ms"
  let ?vals = "map_snd (canonicalizeJSON P) ms"
  have step: "(case map_of ?vals k of Some (Some j) \<Rightarrow> Some (MarshalString k @ '':'' @ j) | _ \<Rightarrow> None)
      = map_option (\<lambda>(k, v). MarshalString k @ '':'' @ json_text v) (map_option (Pair k) (gval_json P (gnorm v)))"
    if kv: "(k, v) \<in> set ms" for k v
  proof -
    have "map_of ms k = Some v" using gm_get_in_set [OF wf] kv by blast
    then have v: "map_of ?vals k = Some (map_option json_text (gval_json P (gnorm v)))" using ih [OF kv] by simp
    show ?thesis unfolding v by (cases "gval_json P (gnorm v)") simp_all
  qed
  have "map (\<lambda>k. case map_of ?vals k of Some (Some j) \<Rightarrow> Some (MarshalString k @ '':'' @ j) | _ \<Rightarrow> None)
      (sort (map fst ms))
    = map (\<lambda>(k, v). map_option (\<lambda>(k, v). MarshalString k @ '':'' @ json_text v) (map_option (Pair k) (gval_json P (gnorm v)))) ?S"
    unfolding map_fst_sort_key [symmetric] map_map comp_def
  proof (rule map_cong [OF refl], goal_cases)
    case (1 x)
    then show ?case using step [of "fst x" "snd x"] by (simp add: case_prod_beta del: map_of_map_snd)
  qed
  also have "\<dots> = map (\<lambda>x. map_option (\<lambda>(k, v). MarshalString k @ '':'' @ json_text v)
      ((\<lambda>(k, v). map_option (Pair k) (gval_json P v)) x)) (sort_key fst (map_snd gnorm ms))"
    unfolding sort_key_map_snd [OF wf] map_map comp_def by (simp add: case_prod_beta)
  finally show ?case
    unfolding canonicalizeJSON.simps Let_def
    by (simp only: those_map_option) (simp add: option.map_comp comp_def)
next
  case (2 P xs)
  then have "map (canonicalizeJSON P) xs = map (\<lambda>v. map_option json_text ((gval_json P \<circ> gnorm) v)) xs"
    by (auto simp: list_all_iff)
  then show ?case
    unfolding canonicalizeJSON.simps by (simp only: those_map_option) (simp add: option.map_comp comp_def)
qed (simp_all add: marshal_scalar_def option.map_comp comp_def option.map_ident)

text \<open>So it depends on the value alone.\<close>

lemma canonical_same:
  "gval_wf v \<Longrightarrow> gval_wf w \<Longrightarrow> gval_same v w \<Longrightarrow> canonicalizeJSON P v = canonicalizeJSON P w"
  by (simp add: canonical_marshals gval_same_def)

section \<open>Reading the canonical text back\<close>

text \<open>
  What the library promises of its number conversions: a \<open>float64\<close> is written as a literal of
  the JSON grammar from which \<open>strconv.ParseFloat\<close> gives the same \<open>float64\<close>.
\<close>

definition float_laws :: "prims \<Rightarrow> bool" where
  "float_laws P \<longleftrightarrow>
     (\<forall>x l. format_float64 P x = Some l \<longrightarrow> valid_number l \<and> parse_float64 P l = Some x)"

text \<open>The values the decoder yields from a text of nesting at most \<open>n\<close>.\<close>

fun gval_ok :: "nat \<Rightarrow> gval \<Rightarrow> bool" where
  "gval_ok n (GInt i) = False"
| "gval_ok n (GStr s) = utf8_ok s"
| "gval_ok n (GArr xs) = (0 < n \<and> list_all (gval_ok (n - 1)) xs)"
| "gval_ok n (GObj ms) = (0 < n \<and> gm_wf ms \<and> list_all (\<lambda>(k, v). utf8_ok k \<and> gval_ok (n - 1) v) ms)"
| "gval_ok n _ = True"

lemma gval_ok_wf: "gval_ok n v \<Longrightarrow> gval_wf v"
  by (induction n v rule: gval_ok.induct) (auto simp: list_all_iff)

lemma gval_ok_gnorm: "gval_ok n v \<Longrightarrow> gval_ok n (gnorm v)"
proof (induction n v rule: gval_ok.induct)
  case (4 n ms)
  then have "gm_wf (map_snd gnorm ms)" by simp
  then show ?case using 4 by (auto simp: list_all_iff simp del: fst_map_snd map_map)
qed (auto simp: list_all_iff)

lemma gval_ok_update:
  "list_all (\<lambda>(k, v). utf8_ok k \<and> gval_ok n v) m \<Longrightarrow> utf8_ok k \<Longrightarrow> gval_ok n v \<Longrightarrow>
     list_all (\<lambda>(k, v). utf8_ok k \<and> gval_ok n v) (AList.update k v m)"
  by (induction m) auto

lemma fold_max_le: "fold max xs a \<le> n \<longleftrightarrow> a \<le> n \<and> (\<forall>x\<in>set xs. x \<le> (n :: nat))"
  by (induction xs arbitrary: a) auto

lemma to_any_ok:
  "to_any P j = Some v \<Longrightarrow> json_ok j \<Longrightarrow> json_depth j \<le> n \<Longrightarrow> gval_ok n v"
  "to_any_list P js = Some vs \<Longrightarrow> list_all json_ok js \<Longrightarrow> \<forall>j\<in>set js. json_depth j \<le> n \<Longrightarrow> list_all (gval_ok n) vs"
  "to_any_map P ms m = Some m' \<Longrightarrow> list_all (\<lambda>(k, v). utf8_ok k \<and> json_ok v) ms \<Longrightarrow> \<forall>(k, v)\<in>set ms. json_depth v \<le> n
     \<Longrightarrow> gm_wf m \<and> list_all (\<lambda>(k, v). utf8_ok k \<and> gval_ok n v) m
     \<Longrightarrow> gm_wf m' \<and> list_all (\<lambda>(k, v). utf8_ok k \<and> gval_ok n v) m'"
proof (induction P j and P js and P ms m arbitrary: v n and vs n and m' n rule: to_any_to_any_list_to_any_map.induct)
  case (5 P xs)
  then obtain k where "n = Suc k" by (cases n) auto
  with 5 show ?case by (fastforce simp: fold_max_le)
next
  case (6 P ms)
  then obtain k where "n = Suc k" by (cases n) auto
  with 6 show ?case by (fastforce simp: fold_max_le)
qed (auto split: option.splits simp: gval_ok_update)

lemma gval_json_ok:
  "float_laws P \<Longrightarrow> gval_ok n v \<Longrightarrow> gval_json P v = Some j \<Longrightarrow> json_ok j \<and> json_depth j \<le> n"
proof (induction n v arbitrary: j rule: gval_ok.induct)
  case (3 n xs)
  then obtain js where js: "j = JArray js" "map (gval_json P) xs = map Some js" by (auto simp: those_Some_iff)
  have "json_ok y \<and> json_depth y \<le> n - 1" if "y \<in> set js" for y
  proof -
    from that have "Some y \<in> set (map (gval_json P) xs)" using js(2) by simp
    then obtain x where "x \<in> set xs" "gval_json P x = Some y" by auto
    then show ?thesis using 3 by (auto simp: list_all_iff)
  qed
  then show ?case using 3 js(1) by (cases n) (auto simp: list_all_iff fold_max_le)
next
  case (4 n ms)
  then obtain js where js: "j = JObject js"
    "map (\<lambda>(k, v). map_option (Pair k) (gval_json P v)) ms = map Some js" by (auto simp: those_Some_iff)
  have "utf8_ok k \<and> json_ok y \<and> json_depth y \<le> n - 1" if "(k, y) \<in> set js" for k y
  proof -
    from that have "Some (k, y) \<in> set (map (\<lambda>(k, v). map_option (Pair k) (gval_json P v)) ms)" using js(2) by force
    then obtain x where "(k, x) \<in> set ms" "gval_json P x = Some y" by (auto dest: sym)
    then show ?thesis using 4 by (auto simp: list_all_iff)
  qed
  then show ?case using 4 js(1) by (cases n) (auto simp: list_all_iff fold_max_le)
qed (auto simp: float_laws_def)

lemma update_new: "k \<notin> fst ` set m \<Longrightarrow> AList.update k v m = m @ [(k, v)]"
  by (induction m) auto

lemma to_any_gval_json:
  "float_laws P \<Longrightarrow> gval_ok n v \<Longrightarrow> gval_json P v = Some j \<Longrightarrow> to_any P j = Some v"
proof (induction n v arbitrary: j rule: gval_ok.induct)
  case (3 n xs)
  then obtain js where js: "j = JArray js" "map (gval_json P) xs = map Some js" by (auto simp: those_Some_iff)
  have "map (gval_json P) ys = map Some js \<Longrightarrow> set ys \<subseteq> set xs \<Longrightarrow> to_any_list P js = Some ys" for ys js
  proof (induction ys arbitrary: js)
    case (Cons y ys)
    then obtain a as where a: "js = a # as" "gval_json P y = Some a" "map (gval_json P) ys = map Some as"
      by (cases js) auto
    have "to_any P a = Some y" using 3 Cons.prems a(2) by (auto simp: list_all_iff)
    then show ?case using Cons a by auto
  qed simp
  then show ?case using js by simp
next
  case (4 n ms)
  then obtain js where js: "j = JObject js"
    "map (\<lambda>(k, v). map_option (Pair k) (gval_json P v)) ms = map Some js" by (auto simp: those_Some_iff)
  have "map (\<lambda>(k, v). map_option (Pair k) (gval_json P v)) ns = map Some js \<Longrightarrow> gm_wf (m @ ns) \<Longrightarrow> set ns \<subseteq> set ms
      \<Longrightarrow> to_any_map P js m = Some (m @ ns)" for ns js m
  proof (induction ns arbitrary: js m)
    case (Cons y ns)
    obtain k v where y: "y = (k, v)" by fastforce
    with Cons obtain a as where a: "js = (k, a) # as" "gval_json P v = Some a"
      "map (\<lambda>(k, v). map_option (Pair k) (gval_json P v)) ns = map Some as"
      by (cases js) auto
    have "to_any P a = Some v" using 4 Cons.prems(3) a(2) y by (auto simp: list_all_iff)
    moreover have "AList.update k v m = m @ [(k, v)]" using Cons.prems(2) y by (intro update_new) auto
    ultimately show ?case using Cons.IH [OF a(3), of "m @ [(k, v)]"] Cons.prems a(1) y by auto
  qed simp
  from this [OF js(2), of "[]"] show ?case using 4 js(1) by simp
qed (auto simp: float_laws_def)

text \<open>
  A canonical text parses, and to the value it was made from, in sorted order: so the text
  determines the value.
\<close>

lemma canonical_parses:
  assumes P: "float_laws P" and v: "gval_ok maxNestingDepth v" and s: "canonicalizeJSON P v = Some s"
  shows "\<exists>j. parse_json s = Some j \<and> to_any P j = Some (gnorm v)"
proof -
  obtain j where j: "gval_json P (gnorm v) = Some j" "s = json_text j"
    using s canonical_marshals [OF gval_ok_wf [OF v]] by auto
  have ok: "json_ok j \<and> json_depth j \<le> maxNestingDepth"
    using gval_json_ok [OF P gval_ok_gnorm [OF v] j(1)] .
  show ?thesis
    using parse_json_text [of j] ok j(2) to_any_gval_json [OF P gval_ok_gnorm [OF v] j(1)] by auto
qed

lemma canonical_determines:
  assumes "float_laws P" "gval_ok maxNestingDepth v" "gval_ok maxNestingDepth w"
    and "canonicalizeJSON P v = Some s" "canonicalizeJSON P w = Some s"
  shows "gval_same v w"
  using canonical_parses [OF assms(1,2,4)] canonical_parses [OF assms(1,3,5)] by (auto simp: gval_same_def)

end
