(* ===== verification/Zkp.thy ===== *)
theory Zkp
  imports Http Canonical
begin

text \<open>
  \<open>internal/zkp/service.go\<close>: zero-knowledge proofs, either by a remote proving service or, when
  no HTTP address is configured, by a development mode that looks at the shape of a proof only.
  The network, the parser of URLs and the wording of the library's own errors are the parameter
  \<open>net\<close>; everything the code does with what they give is modelled.
\<close>

section \<open>The service and its surroundings\<close>

record Service =
  svc_url :: string

record VerificationResult =
  zr_Valid :: bool
  zr_Reason :: string
  zr_PublicClaims :: "gmap option"

definition NewService :: "string \<Rightarrow> Service" where
  "NewService url = \<lparr>svc_url = TrimSpace url\<rparr>"

text \<open>
  \<open>url_Parse\<close> gives the path of an address or an error text, \<open>url_Resolve\<close> the address with
  another path, \<open>http_Post\<close> the status and the body of the answer or an error: a request that
  cannot be made, because the address does not parse, or one that cannot be sent;
  \<open>json_error\<close> and \<open>marshal_error\<close> the texts of the errors of the JSON library.
\<close>

datatype http_error = NotMade string | NotSent string

record zkp_net =
  url_Parse :: "string \<Rightarrow> string + string"
  url_Resolve :: "string \<Rightarrow> string \<Rightarrow> string"
  http_Post :: "string \<Rightarrow> string \<Rightarrow> http_error + (nat \<times> string)"
  json_error :: "string \<Rightarrow> string"
  marshal_error :: "gval \<Rightarrow> string"

section \<open>Helpers\<close>

definition invalid :: "string \<Rightarrow> VerificationResult" where
  "invalid reason = \<lparr>zr_Valid = False, zr_Reason = reason, zr_PublicClaims = Some []\<rparr>"

definition circuitName :: "string \<Rightarrow> string" where
  "circuitName proofType =
     (if proofType = ''age'' \<or> proofType = ''age_verification'' then ''age_verification''
      else if proofType = ''citizenship'' \<or> proofType = ''citizenship_verification'' then ''citizenship_verification''
      else proofType)"

definition stringValue :: "gmap \<Rightarrow> string \<Rightarrow> string" where
  "stringValue values key = (case gm_get values key of Some (GStr s) \<Rightarrow> s | _ \<Rightarrow> [])"

definition isSlice :: "gval option \<Rightarrow> bool" where
  "isSlice value = (case value of Some (GArr _) \<Rightarrow> True | _ \<Rightarrow> False)"

definition publicClaims :: "gmap \<Rightarrow> gmap" where
  "publicClaims pf = (case gm_get pf ''publicClaims'' of Some (GObj claims) \<Rightarrow> claims | _ \<Rightarrow> [])"

definition validateGroth16Proof :: "string \<Rightarrow> gmap \<Rightarrow> string" where
  "validateGroth16Proof proofType pf =
     (if stringValue pf ''type'' \<noteq> proofType then ''proof type does not match claim type''
      else if stringValue pf ''protocol'' \<noteq> ''groth16'' then ''unsupported proof protocol''
      else if stringValue pf ''curve'' \<noteq> ''bn128'' then ''unsupported proof curve''
      else case gm_get pf ''proof'' of
        Some (GObj proofBody) \<Rightarrow>
          if gm_get proofBody ''pi_a'' = None then ''proof pi_a is required''
          else if gm_get proofBody ''pi_b'' = None then ''proof pi_b is required''
          else if gm_get proofBody ''pi_c'' = None then ''proof pi_c is required''
          else if \<not> isSlice (gm_get pf ''publicSignals'') then ''publicSignals is required''
          else []
      | _ \<Rightarrow> ''proof body is required'')"

definition isRemote :: "Service \<Rightarrow> bool" where
  "isRemote s \<longleftrightarrow> HasPrefix (svc_url s) ''http://'' \<or> HasPrefix (svc_url s) ''https://''"

section \<open>The remote service\<close>

text \<open>\<open>json.Marshal\<close> of a value that holds maps: their members are written in sorted order.\<close>

definition Marshal :: "prims \<Rightarrow> gval \<Rightarrow> string option" where
  "Marshal P v = map_option json_text (gval_json P (gnorm v))"

text \<open>
  \<open>postJSON\<close>, decoding the answer into \<open>out\<close> by the fields \<open>fs\<close>. The error of \<open>http.NewRequestWithContext\<close> is
  returned as it is; it is that of the URL parser, whose text begins with the operation, \<open>parse\<close>.
\<close>

definition postJSON :: "prims \<Rightarrow> zkp_net \<Rightarrow> Service \<Rightarrow> string \<Rightarrow> gval \<Rightarrow> 'a fields \<Rightarrow> 'a \<Rightarrow> string + 'a" where
  "postJSON P net s path body fs out =
     (case url_Parse net (svc_url s) of
        Inl err \<Rightarrow> Inl (''invalid zkp service url: '' @ err)
      | Inr basePath \<Rightarrow>
        let endpoint = url_Resolve net (svc_url s) (TrimRightByte CHR ''/'' basePath @ path) in
        (case Marshal P body of
           None \<Rightarrow> Inl (marshal_error net body)
         | Some bodyBytes \<Rightarrow>
           (case http_Post net endpoint bodyBytes of
              Inl (NotMade err) \<Rightarrow> Inl (''parse '' @ err)
            | Inl (NotSent err) \<Rightarrow> Inl (''zkp service request failed: '' @ err)
            | Inr (status, res) \<Rightarrow>
              if status < 200 \<or> 300 \<le> status then Inl (''zkp service returned status '' @ FormatInt (int status))
              else (case Decode fs (map_option fst (first_value res)) out of
                 None \<Rightarrow> Inl (''decode zkp service response: '' @ json_error net res)
               | Some out \<Rightarrow> Inr out))))"

record GeneratePayload =
  gp_Proof :: "gmap option"

definition remoteGenerate :: "prims \<Rightarrow> zkp_net \<Rightarrow> Service \<Rightarrow> string \<Rightarrow> gmap \<Rightarrow> string + gmap" where
  "remoteGenerate P net s proofType params =
     (case postJSON P net s ''/generate'' (GObj [(''type'', GStr proofType), (''params'', GObj params)])
             [(''proof'', map_field P gp_Proof_update gp_Proof)] \<lparr>gp_Proof = None\<rparr> of
        Inl err \<Rightarrow> Inl err
      | Inr payload \<Rightarrow>
          (case gp_Proof payload of
             None \<Rightarrow> Inl ''zkp service returned no proof''
           | Some pf \<Rightarrow> Inr pf))"

definition VerificationResult_fields :: "prims \<Rightarrow> VerificationResult fields" where
  "VerificationResult_fields P =
     [(''valid'', bool_field zr_Valid_update), (''reason'', string_field zr_Reason_update),
      (''publicClaims'', map_field P zr_PublicClaims_update zr_PublicClaims)]"

definition remoteVerify :: "prims \<Rightarrow> zkp_net \<Rightarrow> Service \<Rightarrow> string \<Rightarrow> gmap \<Rightarrow> VerificationResult" where
  "remoteVerify P net s proofType pf =
     (case postJSON P net s ''/verify'' (GObj [(''type'', GStr proofType), (''proof'', GObj pf)])
             (VerificationResult_fields P) \<lparr>zr_Valid = False, zr_Reason = [], zr_PublicClaims = None\<rparr> of
        Inl err \<Rightarrow> invalid err
      | Inr payload \<Rightarrow>
        let payload = (if zr_PublicClaims payload = None then payload\<lparr>zr_PublicClaims := Some []\<rparr> else payload)
        in if \<not> zr_Valid payload \<and> zr_Reason payload = [] then payload\<lparr>zr_Reason := ''invalid proof''\<rparr> else payload)"

section \<open>The two operations\<close>

definition Service_Generate :: "prims \<Rightarrow> zkp_net \<Rightarrow> Service \<Rightarrow> string \<Rightarrow> gmap option \<Rightarrow> string + gmap" where
  "Service_Generate P net s proofType params =
     (let proofType = TrimSpace proofType in
      if proofType = [] then Inl ''proof type is required''
      else
      let params = (case params of None \<Rightarrow> [] | Some m \<Rightarrow> m) in
      if isRemote s then remoteGenerate P net s proofType params
      else Inr
        [(''protocol'', GStr ''groth16''), (''curve'', GStr ''bn128''), (''type'', GStr proofType),
         (''circuit'', GStr (circuitName proofType)), (''mode'', GStr ''development''), (''params'', GObj params),
         (''serviceUrl'', GStr (svc_url s)),
         (''proof'', GObj [(''pi_a'', GArr []), (''pi_b'', GArr []), (''pi_c'', GArr [])]),
         (''publicSignals'', GArr [])])"

definition Service_Verify :: "prims \<Rightarrow> zkp_net \<Rightarrow> Service \<Rightarrow> string \<Rightarrow> gmap option \<Rightarrow> VerificationResult" where
  "Service_Verify P net s proofType pf =
     (let proofType = TrimSpace proofType in
      if proofType = [] then invalid ''claim type is required''
      else case pf of
        None \<Rightarrow> invalid ''proof is required''
      | Some m \<Rightarrow>
        if isRemote s then remoteVerify P net s proofType m
        else let reason = validateGroth16Proof proofType m in
        if reason \<noteq> [] then invalid reason
        else \<lparr>zr_Valid = True, zr_Reason = [], zr_PublicClaims = Some (publicClaims m)\<rparr>)"

section \<open>What they guarantee\<close>

text \<open>The shape the development mode asks of a proof.\<close>

definition groth16_shape :: "string \<Rightarrow> gmap \<Rightarrow> bool" where
  "groth16_shape proofType m \<longleftrightarrow>
     stringValue m ''type'' = proofType \<and> gm_get m ''protocol'' = Some (GStr ''groth16'')
     \<and> gm_get m ''curve'' = Some (GStr ''bn128'')
     \<and> (\<exists>b. gm_get m ''proof'' = Some (GObj b) \<and> {''pi_a'', ''pi_b'', ''pi_c''} \<subseteq> dom (gm_get b))
     \<and> (\<exists>xs. gm_get m ''publicSignals'' = Some (GArr xs))"

lemma stringValue_iff: "s \<noteq> [] \<Longrightarrow> stringValue m k = s \<longleftrightarrow> gm_get m k = Some (GStr s)"
  by (auto simp: stringValue_def split: option.splits gval.splits)

lemma validate_shape: "validateGroth16Proof t m = [] \<longleftrightarrow> groth16_shape t m"
  unfolding validateGroth16Proof_def groth16_shape_def
  by (simp add: stringValue_iff [of "''groth16''"] stringValue_iff [of "''bn128''"] isSlice_def dom_def
      split: option.split gval.split)

lemma Service_Verify_local:
  "\<not> isRemote s \<Longrightarrow> zr_Valid (Service_Verify P net s t pf) \<longleftrightarrow>
     TrimSpace t \<noteq> [] \<and> (\<exists>m. pf = Some m \<and> groth16_shape (TrimSpace t) m)"
  by (auto simp: Service_Verify_def Let_def invalid_def validate_shape [symmetric] split: option.split)

text \<open>A result is valid without a reason, or invalid with one; claims are never the nil map.\<close>

lemma postJSON_error:
  "postJSON P net s path body fs out = Inl err \<Longrightarrow> marshal_error net body \<noteq> [] \<Longrightarrow> err \<noteq> []"
  by (auto simp: postJSON_def Let_def split: sum.splits option.splits if_splits prod.splits http_error.splits)

lemma Service_Verify_result:
  "zr_PublicClaims (Service_Verify P net s t pf) \<noteq> None"
  "(\<And>v. marshal_error net v \<noteq> []) \<Longrightarrow> \<not> zr_Valid (Service_Verify P net s t pf) \<Longrightarrow>
     zr_Reason (Service_Verify P net s t pf) \<noteq> []"
  by (auto simp: Service_Verify_def Let_def invalid_def remoteVerify_def split: option.split sum.split if_splits)
    (metis postJSON_error)+

end
