(* ===== verification/VerifyHandler.thy ===== *)
theory VerifyHandler
  imports ChallengeStore DidHandler Zkp
begin

text \<open>
  \<open>internal/handlers/verify.go\<close>: the challenge--response protocol by which a service learns that
  its client controls a DID. \<open>CreateChallenge\<close> stores a fresh challenge, \<open>VerifyAuth\<close> consumes
  it with a signed presentation. The handlers are functions of the two store interfaces, the
  clock and the outcome of the random generator.
\<close>

section \<open>The handlers\<close>

record ('s, 'c) VerifyHandler =
  vh_chain :: "'s Client"
  vh_zkp :: Service
  vh_challengeStore :: 'c

definition NewVerifyHandlerWithChallengeStore :: "'s Client \<Rightarrow> Service \<Rightarrow> 'c \<Rightarrow> ('s, 'c) VerifyHandler" where
  "NewVerifyHandlerWithChallengeStore chain zkpService challengeStore =
     \<lparr>vh_chain = chain, vh_zkp = zkpService, vh_challengeStore = challengeStore\<rparr>"

definition NewVerifyHandler :: "'s Client \<Rightarrow> Service \<Rightarrow> ('s, MemoryChallengeStore) VerifyHandler" where
  "NewVerifyHandler chain zkpService =
     NewVerifyHandlerWithChallengeStore chain zkpService NewMemoryChallengeStore"

abbreviation maxPresentationAge :: duration where "maxPresentationAge \<equiv> 300 * second"
abbreviation maxPresentationFuture :: duration where "maxPresentationFuture \<equiv> 30 * second"

text \<open>\<open>None\<close> is a failure of \<open>rand.Read\<close>.\<close>

definition randomID :: "string option \<Rightarrow> time \<Rightarrow> string" where
  "randomID rnd now =
     (case rnd of None \<Rightarrow> RawURLEncode (FormatRFC3339Nano now) | Some b \<Rightarrow> RawURLEncode b)"

record CreateChallengeRequest =
  cc_ServiceID :: string
  cc_ServiceName :: string

definition CreateChallengeRequest_fields :: "CreateChallengeRequest fields" where
  "CreateChallengeRequest_fields =
     [(''serviceId'', string_field cc_ServiceID_update), (''serviceName'', string_field cc_ServiceName_update)]"

definition decode_create :: "json option \<Rightarrow> CreateChallengeRequest option" where
  "decode_create body = Decode CreateChallengeRequest_fields body \<lparr>cc_ServiceID = [], cc_ServiceName = []\<rparr>"

definition challenge_payload :: "authChallenge \<Rightarrow> gval" where
  "challenge_payload c = GObj
     [(''challengeId'', GStr (ch_ChallengeID c)), (''nonce'', GStr (ch_Nonce c)),
      (''serviceId'', GStr (ch_ServiceID c)), (''serviceName'', GStr (ch_ServiceName c)),
      (''issuedAt'', GStr (ch_IssuedAt c)), (''expiresAt'', GStr (ch_ExpiresAt c)),
      (''qrCode'', GStr (ch_QRCode c))]"

definition new_challenge :: "clock \<Rightarrow> string option \<Rightarrow> string option \<Rightarrow> CreateChallengeRequest \<Rightarrow> authChallenge" where
  "new_challenge clk rnd1 rnd2 req =
     (let now = clk 0; id1 = randomID rnd1 (clk 1) in
      \<lparr>ch_ChallengeID = id1, ch_Nonce = randomID rnd2 (clk 2),
       ch_ServiceID = cc_ServiceID req,
       ch_ServiceName = (if cc_ServiceName req = [] then cc_ServiceID req else cc_ServiceName req),
       ch_IssuedAt = FormatRFC3339 now, ch_ExpiresAt = FormatRFC3339 (now + 300 * second),
       ch_QRCode = ''uddi://auth?challengeId='' @ id1\<rparr>)"

definition CreateChallenge :: "'c ChallengeStore \<Rightarrow> clock \<Rightarrow> string option \<Rightarrow> string option
    \<Rightarrow> ('s, 'c) VerifyHandler \<Rightarrow> request \<Rightarrow> ('s, 'c) VerifyHandler handled" where
  "CreateChallenge cops clk rnd1 rnd2 h r =
     (case decode_create (rq_body r) of
        None \<Rightarrow> (Done (Error StatusBadRequest ''invalid request body''), h)
      | Some req \<Rightarrow>
        if cc_ServiceID req = [] then (Done (Error StatusBadRequest ''serviceId is required''), h)
        else let headerServiceID = Header_Get r ''X-Service-ID'' in
        if headerServiceID \<noteq> [] \<and> headerServiceID \<noteq> cc_ServiceID req
        then (Done (Error StatusForbidden ''service ID mismatch''), h)
        else let challenge = new_challenge clk rnd1 rnd2 req in
        case cs_Save cops (clk 3) (vh_challengeStore h) challenge of
          (Inl _, s) \<Rightarrow>
            (Done (Error StatusInternalServerError ''failed to store challenge''), h\<lparr>vh_challengeStore := s\<rparr>)
        | (Inr _, s) \<Rightarrow> (Done (JSON StatusCreated (challenge_payload challenge)), h\<lparr>vh_challengeStore := s\<rparr>))"

record VerifyAuthRequest =
  va_ChallengeID :: string
  va_Presentation :: string
  va_ServiceID :: string

definition VerifyAuthRequest_fields :: "VerifyAuthRequest fields" where
  "VerifyAuthRequest_fields =
     [(''challengeId'', string_field va_ChallengeID_update), (''presentation'', string_field va_Presentation_update),
      (''serviceId'', string_field va_ServiceID_update)]"

definition decode_auth :: "json option \<Rightarrow> VerifyAuthRequest option" where
  "decode_auth body = Decode VerifyAuthRequest_fields body
     \<lparr>va_ChallengeID = [], va_Presentation = [], va_ServiceID = []\<rparr>"

record authPresentation =
  pr_DID :: string
  pr_ChallengeID :: string
  pr_Signature :: string
  pr_Timestamp :: int

definition authPresentation_fields :: "authPresentation fields" where
  "authPresentation_fields =
     [(''did'', string_field pr_DID_update), (''challengeId'', string_field pr_ChallengeID_update),
      (''signature'', string_field pr_Signature_update), (''timestamp'', int64_field pr_Timestamp_update)]"

definition decodeAuthPresentation :: "string \<Rightarrow> authPresentation option" where
  "decodeAuthPresentation presentationBase64 =
     (case StdDecode presentationBase64 of
        None \<Rightarrow> None
      | Some payload \<Rightarrow>
          (case parse_json payload of
             None \<Rightarrow> None
           | Some j \<Rightarrow> decode_struct authPresentation_fields j
               \<lparr>pr_DID = [], pr_ChallengeID = [], pr_Signature = [], pr_Timestamp = 0\<rparr>))"

definition timestampString :: "int \<Rightarrow> string" where
  "timestampString timestamp = FormatInt timestamp"

definition isPresentationTimestampValid :: "int \<Rightarrow> time \<Rightarrow> bool" where
  "isPresentationTimestampValid timestamp now =
     (let presentationTime = UnixMilli timestamp in
      if presentationTime < now - maxPresentationAge then False
      else if presentationTime > now + maxPresentationFuture then False
      else True)"

definition authResult :: "time \<Rightarrow> bool \<Rightarrow> string \<Rightarrow> string \<Rightarrow> response" where
  "authResult now valid did reason =
     JSON StatusOK (GObj
       ([(''valid'', GBool valid), (''did'', GStr did), (''verifiedAt'', GStr (FormatRFC3339 now)),
         (''verifiedClaims'', GArr [])]
        @ (if reason \<noteq> [] then [(''reason'', GStr reason)] else [])))"

text \<open>What the signature of a presentation covers.\<close>

definition auth_message :: "string \<Rightarrow> string \<Rightarrow> string \<Rightarrow> int \<Rightarrow> string" where
  "auth_message challengeID nonce did timestamp =
     challengeID @ '':'' @ nonce @ '':'' @ did @ '':'' @ timestampString timestamp"

definition VerifyAuth :: "prims \<Rightarrow> 's DIDStore \<Rightarrow> 'c ChallengeStore \<Rightarrow> clock
    \<Rightarrow> ('s, 'c) VerifyHandler \<Rightarrow> json option \<Rightarrow> ('s, 'c) VerifyHandler handled" where
  "VerifyAuth P dops cops clk h body =
     (case decode_auth body of
        None \<Rightarrow> (Done (Error StatusBadRequest ''invalid request body''), h)
      | Some req \<Rightarrow>
        (case cs_Get cops (clk 0) (vh_challengeStore h) (va_ChallengeID req) of
           (Inl _, s) \<Rightarrow>
             (Done (authResult (clk 4) False [] ''challenge not found or presentation missing''),
              h\<lparr>vh_challengeStore := s\<rparr>)
         | (Inr challenge, s) \<Rightarrow>
           if va_Presentation req = [] then
             (Done (authResult (clk 4) False [] ''challenge not found or presentation missing''),
              h\<lparr>vh_challengeStore := s\<rparr>)
           else
           let (_, s) = cs_Delete cops s (va_ChallengeID req); h = h\<lparr>vh_challengeStore := s\<rparr> in
           if va_ServiceID req \<noteq> [] \<and> va_ServiceID req \<noteq> ch_ServiceID challenge then
             (Done (authResult (clk 4) False [] ''service mismatch''), h)
           else
           let expiresAt = (case ParseRFC3339 (ch_ExpiresAt challenge) of None \<Rightarrow> zero_time | Some t \<Rightarrow> t) in
           if \<not> clk 1 < expiresAt then
             (Done (authResult (clk 4) False [] ''challenge expired''), h)
           else case decodeAuthPresentation (va_Presentation req) of
             None \<Rightarrow> (Done (authResult (clk 4) False [] ''invalid presentation''), h)
           | Some presentation \<Rightarrow>
             if pr_ChallengeID presentation \<noteq> va_ChallengeID req then
               (Done (authResult (clk 4) False [] ''challenge mismatch''), h)
             else if \<not> isPresentationTimestampValid (pr_Timestamp presentation) (clk 2) then
               (Done (authResult (clk 4) False (pr_DID presentation)
                  ''presentation timestamp outside allowed window''), h)
             else case Client_ResolveDID dops (vh_chain h) (pr_DID presentation) of
               (Inl _, c) \<Rightarrow>
                 (Done (authResult (clk 4) False (pr_DID presentation) ''DID not found''), h\<lparr>vh_chain := c\<rparr>)
             | (Inr didDoc, c) \<Rightarrow>
               let h = h\<lparr>vh_chain := c\<rparr> in
               case StdDecode (doc_PublicKeyBase64 didDoc) of
                 None \<Rightarrow> (Done (authResult (clk 4) False (pr_DID presentation) ''invalid DID public key''), h)
               | Some pubKeyBytes \<Rightarrow>
                 if length pubKeyBytes \<noteq> PublicKeySize then
                   (Done (authResult (clk 4) False (pr_DID presentation) ''invalid DID public key''), h)
                 else case StdDecode (pr_Signature presentation) of
                   None \<Rightarrow>
                     (Done (authResult (clk 4) False (pr_DID presentation) ''invalid signature encoding''), h)
                 | Some signature \<Rightarrow>
                   case ed25519_Verify P pubKeyBytes
                          (auth_message (va_ChallengeID req) (ch_Nonce challenge) (pr_DID presentation)
                             (pr_Timestamp presentation)) signature of
                     Panic \<Rightarrow> (Panic, h)
                   | Done False \<Rightarrow>
                       (Done (authResult (clk 4) False (pr_DID presentation) ''invalid signature''), h)
                   | Done True \<Rightarrow>
                       (Done (authResult (clk 4) True (pr_DID presentation) []), h)))"

section \<open>Claims\<close>

text \<open>\<open>VerifyClaim\<close> hands the proof to the service; the DID of the request is decoded and not used.\<close>

record VerifyClaimRequest =
  vc_DID :: string
  vc_ClaimType :: string
  vc_Proof :: "gmap option"

definition decode_claim :: "prims \<Rightarrow> json option \<Rightarrow> VerifyClaimRequest option" where
  "decode_claim P body = Decode
     [(''did'', string_field vc_DID_update), (''claimType'', string_field vc_ClaimType_update),
      (''proof'', map_field P vc_Proof_update vc_Proof)] body
     \<lparr>vc_DID = [], vc_ClaimType = [], vc_Proof = None\<rparr>"

definition claim_payload :: "VerificationResult \<Rightarrow> string \<Rightarrow> time \<Rightarrow> gval" where
  "claim_payload result claimType now = GObj
     ([(''valid'', GBool (zr_Valid result)), (''claimType'', GStr claimType),
       (''verifiedAt'', GStr (FormatRFC3339 now)),
       (''publicClaims'', case zr_PublicClaims result of None \<Rightarrow> GNil | Some m \<Rightarrow> GObj m)]
      @ (if zr_Reason result \<noteq> [] then [(''reason'', GStr (zr_Reason result))] else []))"

definition VerifyClaim :: "prims \<Rightarrow> zkp_net \<Rightarrow> clock \<Rightarrow> ('s, 'c) VerifyHandler \<Rightarrow> json option
    \<Rightarrow> ('s, 'c) VerifyHandler handled" where
  "VerifyClaim P net clk h body =
     (case decode_claim P body of
        None \<Rightarrow> (Done (Error StatusBadRequest ''invalid request body''), h)
      | Some req \<Rightarrow>
        let result = Service_Verify P net (vh_zkp h) (vc_ClaimType req) (vc_Proof req)
        in (Done (JSON StatusOK (claim_payload result (vc_ClaimType req) (clk 0))), h))"

section \<open>Acceptance\<close>

text \<open>The answer that authenticates a DID.\<close>

definition authenticates :: "response outcome \<Rightarrow> string \<Rightarrow> bool" where
  "authenticates out did \<longleftrightarrow> (\<exists>now. out = Done (authResult now True did []))"

lemma authResult_eq [simp]:
  "authResult t v d r = authResult t' v' d' r' \<longleftrightarrow>
     FormatRFC3339 t = FormatRFC3339 t' \<and> v = v' \<and> d = d' \<and> r = r'"
  by (auto simp: authResult_def split: if_splits)

lemma authenticates_simps [simp]:
  "authenticates (Done (authResult t v d r)) did \<longleftrightarrow> v \<and> d = did \<and> r = []"
  "\<not> authenticates (Done (Error s m)) did" "\<not> authenticates Panic did"
  by (auto simp: authenticates_def authResult_def Error_def)

text \<open>
  The conditions for it, over the documents \<open>v\<close> of the registry and a stored challenge: the
  challenge has not expired, its service is the one the request names (or the request names
  none), and the presentation names the challenge, is recent, and is signed by the stored key.
\<close>

definition auth_signed :: "prims \<Rightarrow> DIDDocument \<Rightarrow> clock \<Rightarrow> authChallenge
    \<Rightarrow> VerifyAuthRequest \<Rightarrow> authPresentation \<Rightarrow> bool" where
  "auth_signed P doc clk ch req pres \<longleftrightarrow>
     (va_ServiceID req = [] \<or> va_ServiceID req = ch_ServiceID ch)
     \<and> clk 1 < (case ParseRFC3339 (ch_ExpiresAt ch) of None \<Rightarrow> zero_time | Some e \<Rightarrow> e)
     \<and> decodeAuthPresentation (va_Presentation req) = Some pres
     \<and> pr_ChallengeID pres = va_ChallengeID req
     \<and> clk 2 - maxPresentationAge \<le> UnixMilli (pr_Timestamp pres)
     \<and> UnixMilli (pr_Timestamp pres) \<le> clk 2 + maxPresentationFuture
     \<and> (\<exists>key sg. StdDecode (doc_PublicKeyBase64 doc) = Some key \<and> length key = PublicKeySize
          \<and> StdDecode (pr_Signature pres) = Some sg
          \<and> sig_ok P key (auth_message (va_ChallengeID req) (ch_Nonce ch) (pr_DID pres) (pr_Timestamp pres)) sg)"

definition auth_valid :: "prims \<Rightarrow> (string \<Rightarrow> DIDDocument option) \<Rightarrow> clock \<Rightarrow> authChallenge
    \<Rightarrow> VerifyAuthRequest \<Rightarrow> authPresentation \<Rightarrow> bool" where
  "auth_valid P v clk ch req pres \<longleftrightarrow>
     va_Presentation req \<noteq> [] \<and> (\<exists>doc. v (pr_DID pres) = Some doc \<and> auth_signed P doc clk ch req pres)"

end
