(* ===== verification/AuthProtocol.thy ===== *)
theory AuthProtocol
  imports VerifyHandler
begin

text \<open>
  The authentication protocol over any two stores of the contracts: what an accepted
  presentation proves, that a challenge is consumed by the attempt to use it, and that a valid
  presentation is accepted.
\<close>

section \<open>Challenges are well formed\<close>

lemma utf8_ok_ascii: "list_all (\<lambda>c. byte c < 0x80) s \<Longrightarrow> utf8_ok s"
  by (induction s) simp_all

lemma ascii_append [simp]:
  "list_all (\<lambda>c. byte c < 0x80) (s @ t) \<longleftrightarrow> list_all (\<lambda>c. byte c < 0x80) s \<and> list_all (\<lambda>c. byte c < 0x80) t"
  by simp

lemma ascii_b64:
  assumes "\<And>n. n < 64 \<Longrightarrow> byte (f n) < 0x80"
  shows "list_all (\<lambda>c. byte c < 0x80) (b64_quanta f [] s)"
  using assms by (induction f "[] :: string" s rule: b64_quanta.induct) (simp_all add: byte_bits)

lemma ascii_randomID: "list_all (\<lambda>c. byte c < 0x80) (randomID rnd now)"
proof -
  have "list_all (\<lambda>n. byte (url_alphabet ! n) < 0x80) [0..<64]" by code_simp
  then have "byte (url_alphabet ! n) < 0x80" if "n < 64" for n using that by (simp add: list_all_iff)
  then show ?thesis by (simp add: randomID_def RawURLEncode_def ascii_b64 split: option.split)
qed

lemma ascii_dec_digits: "list_all (\<lambda>c. byte c < 0x80) (dec_digits n)"
proof (induction n rule: dec_digits.induct)
  case (1 n)
  have "(48 + n mod 10) < 0x80" for n :: nat using mod_less_divisor [of 10 n] by linarith
  then show ?case using 1 by (subst dec_digits.simps) (simp add: digit_char_def)
qed

lemma ascii_appendInt: "list_all (\<lambda>c. byte c < 0x80) (appendInt i w)"
  using ascii_dec_digits by (auto simp: appendInt_def Let_def list_all_iff)

lemma ascii_FormatRFC3339: "list_all (\<lambda>c. byte c < 0x80) (FormatRFC3339 t)"
  by (simp add: FormatRFC3339_def Let_def pad2_def ascii_appendInt split: prod.split)

lemma new_challenge_ok:
  assumes "utf8_ok (cc_ServiceID req)" "utf8_ok (cc_ServiceName req)"
  shows "challenge_ok (new_challenge clk rnd1 rnd2 req)"
  using assms ascii_randomID [THEN utf8_ok_ascii] ascii_FormatRFC3339 [THEN utf8_ok_ascii]
    utf8_ok_ascii [of "''uddi://auth?challengeId='' @ randomID rnd1 (clk 1)"] ascii_randomID [of rnd1 "clk 1"]
  by (simp add: challenge_ok_def new_challenge_def Let_def)

text \<open>A body of well-formed UTF-8 decodes to well-formed strings.\<close>

abbreviation body_ok :: "json option \<Rightarrow> bool" where
  "body_ok body \<equiv> (case body of None \<Rightarrow> True | Some j \<Rightarrow> json_ok j)"

lemma decode_members_inv:
  assumes "decode_members fs ms a = Some a'" "list_all (\<lambda>(k, v). json_ok v) ms" "Q a"
    and "\<And>k f v a a'. field_for fs k = Some f \<Longrightarrow> f v a = Some a' \<Longrightarrow> json_ok v \<Longrightarrow> Q a \<Longrightarrow> Q a'"
  shows "Q a'"
  using assms
proof (induction fs ms a rule: decode_members.induct)
  case (2 fs k v ms a)
  then show ?case by (auto split: option.splits)
qed simp

lemma field_for_in: "field_for fs k = Some f \<Longrightarrow> f \<in> snd ` set fs"
  by (auto simp: field_for_def split: option.splits dest!: map_of_SomeD) force+

lemma decode_create_utf8:
  assumes "decode_create body = Some req" "body_ok body"
  shows "utf8_ok (cc_ServiceID req)" "utf8_ok (cc_ServiceName req)"
proof -
  let ?Q = "\<lambda>r :: CreateChallengeRequest. utf8_ok (cc_ServiceID r) \<and> utf8_ok (cc_ServiceName r)"
  have "?Q req"
  proof (cases "\<exists>ms. body = Some (JObject ms)")
    case True
    then obtain ms where ms: "body = Some (JObject ms)" by blast
    show ?thesis
    proof (rule decode_members_inv [where Q = ?Q])
      show "decode_members CreateChallengeRequest_fields ms \<lparr>cc_ServiceID = [], cc_ServiceName = []\<rparr> = Some req"
        using assms(1) ms by (simp add: decode_create_def Decode_def decode_struct_def)
      show "list_all (\<lambda>(k, v). json_ok v) ms"
        using assms(2) ms by (auto simp: list_all_iff)
    next
      fix k f v a a'
      assume "field_for CreateChallengeRequest_fields k = Some f" "f v a = Some a'" "json_ok v" "?Q a"
      then show "?Q a'"
        by (auto dest!: field_for_in simp: CreateChallengeRequest_fields_def string_field_def split: json.splits)
    qed simp
  next
    case False
    then show ?thesis using assms(1)
      by (auto simp: decode_create_def Decode_def decode_struct_def split: option.splits json.splits)
  qed
  then show "utf8_ok (cc_ServiceID req)" "utf8_ok (cc_ServiceName req)" by blast+
qed

section \<open>The paths through the handlers\<close>

lemma CreateChallenge_paths:
  assumes "CreateChallenge cops clk rnd1 rnd2 h r = (out, h')"
  shows "vh_chain h' = vh_chain h \<and> out \<noteq> Panic
    \<and> ((\<exists>rs. out = Done rs \<and> 400 \<le> rs_status rs) \<and> h' = h
      \<or> (\<exists>req q. decode_create (rq_body r) = Some req \<and> cc_ServiceID req \<noteq> []
          \<and> Header_Get r ''X-Service-ID'' \<in> {[], cc_ServiceID req}
          \<and> cs_Save cops (clk 3) (vh_challengeStore h) (new_challenge clk rnd1 rnd2 req) = (q, vh_challengeStore h')
          \<and> (if isl q then (\<exists>m. out = Done (Error 500 m))
             else out = Done (JSON 201 (challenge_payload (new_challenge clk rnd1 rnd2 req))))))"
  using assms unfolding CreateChallenge_def Let_def
  by (auto split: option.splits if_splits prod.splits sum.splits)

text \<open>
  \<open>VerifyAuth\<close>: the challenge is not found or nothing is presented, or the challenge is found and
  deleted; from there on it is consumed, whatever the outcome of the checks.
\<close>

abbreviation rejects :: "response outcome \<Rightarrow> bool" where
  "rejects out \<equiv> out \<noteq> Panic \<and> (\<forall>d. \<not> authenticates out d)"

lemma VerifyAuth_paths:
  assumes "VerifyAuth P dops cops clk h body = (out, h')"
  shows "decode_auth body = None \<and> h' = h \<and> rejects out
    \<or> (\<exists>req rc s. decode_auth body = Some req
        \<and> cs_Get cops (clk 0) (vh_challengeStore h) (va_ChallengeID req) = (rc, s)
        \<and> (if isl rc \<or> va_Presentation req = []
           then h' = h\<lparr>vh_challengeStore := s\<rparr> \<and> rejects out
           else \<exists>ch rd. rc = Inr ch \<and> cs_Delete cops s (va_ChallengeID req) = (rd, vh_challengeStore h')
             \<and> (vh_chain h' = vh_chain h \<and> rejects out
                  \<and> \<not> (\<exists>pres doc. auth_signed P doc clk ch req pres)
                \<or> (\<exists>pres r. decodeAuthPresentation (va_Presentation req) = Some pres
                    \<and> Client_ResolveDID dops (vh_chain h) (pr_DID pres) = (r, vh_chain h')
                    \<and> (if \<exists>doc. r = Inr doc \<and> auth_signed P doc clk ch req pres
                       then \<forall>d. authenticates out d \<longleftrightarrow> d = pr_DID pres else rejects out)))))"
proof (cases "decode_auth body")
  case None
  then show ?thesis using assms by (auto simp: VerifyAuth_def)
next
  case (Some req)
  obtain rc s where gt: "cs_Get cops (clk 0) (vh_challengeStore h) (va_ChallengeID req) = (rc, s)" by fastforce
  show ?thesis
  proof (cases "isl rc \<or> va_Presentation req = []")
    case True
    then show ?thesis using assms Some gt
      by (auto simp: VerifyAuth_def isl_def split: sum.splits)
  next
    case False
    then obtain ch where ch: "rc = Inr ch" "va_Presentation req \<noteq> []" by (cases rc) auto
    obtain rd s' where dl: "cs_Delete cops s (va_ChallengeID req) = (rd, s')" by fastforce
    let ?early = "va_ServiceID req \<noteq> [] \<and> va_ServiceID req \<noteq> ch_ServiceID ch
      \<or> \<not> clk 1 < (case ParseRFC3339 (ch_ExpiresAt ch) of None \<Rightarrow> zero_time | Some t \<Rightarrow> t)
      \<or> decodeAuthPresentation (va_Presentation req) = None
      \<or> (\<exists>pres. decodeAuthPresentation (va_Presentation req) = Some pres
           \<and> (pr_ChallengeID pres \<noteq> va_ChallengeID req
              \<or> \<not> isPresentationTimestampValid (pr_Timestamp pres) (clk 2)))"
    note eqs = Some gt ch dl VerifyAuth_def
    have "vh_challengeStore h' = s'
      \<and> (vh_chain h' = vh_chain h \<and> rejects out \<and> \<not> (\<exists>pres doc. auth_signed P doc clk ch req pres)
        \<or> (\<exists>pres r. decodeAuthPresentation (va_Presentation req) = Some pres
             \<and> Client_ResolveDID dops (vh_chain h) (pr_DID pres) = (r, vh_chain h')
             \<and> (if \<exists>doc. r = Inr doc \<and> auth_signed P doc clk ch req pres
                then \<forall>d. authenticates out d \<longleftrightarrow> d = pr_DID pres else rejects out)))"
    proof (cases ?early)
      case early: True
      then have "\<not> (\<exists>pres doc. auth_signed P doc clk ch req pres)"
        by (auto simp: auth_signed_def isPresentationTimestampValid_def Let_def split: if_splits)
      moreover have "vh_challengeStore h' = s' \<and> vh_chain h' = vh_chain h \<and> rejects out"
        using assms early by (auto simp: eqs Let_def split: if_splits option.splits)
      ultimately show ?thesis by blast
    next
      case late: False
      then obtain pres where pres: "decodeAuthPresentation (va_Presentation req) = Some pres"
        "pr_ChallengeID pres = va_ChallengeID req" "isPresentationTimestampValid (pr_Timestamp pres) (clk 2)" by auto
      obtain r c where rs: "Client_ResolveDID dops (vh_chain h) (pr_DID pres) = (r, c)" by fastforce
      have sg: "auth_signed P doc clk ch req pres \<longleftrightarrow>
          (\<exists>key sg. StdDecode (doc_PublicKeyBase64 doc) = Some key \<and> length key = PublicKeySize
          \<and> StdDecode (pr_Signature pres) = Some sg
          \<and> sig_ok P key (auth_message (va_ChallengeID req) (ch_Nonce ch) (pr_DID pres) (pr_Timestamp pres)) sg)" for doc
        using late pres by (auto simp: auth_signed_def isPresentationTimestampValid_def Let_def split: if_splits)
      have "vh_challengeStore h' = s' \<and> vh_chain h' = c
          \<and> (if \<exists>doc. r = Inr doc \<and> auth_signed P doc clk ch req pres
                then \<forall>d. authenticates out d \<longleftrightarrow> d = pr_DID pres else rejects out)"
        using assms late pres rs unfolding sg
        by (auto simp: eqs Let_def split: sum.splits option.splits if_splits bool.splits outcome.splits)
      then show ?thesis using pres rs by auto
    qed
    then show ?thesis using Some gt ch dl by auto
  qed
qed

lemma VerifyAuth_cases:
  assumes v: "VerifyAuth P dops cops clk h body = (out, h')"
  obtains (malformed) "decode_auth body = None" "h' = h" "rejects out"
  | (missing) req rc s where "decode_auth body = Some req"
      "cs_Get cops (clk 0) (vh_challengeStore h) (va_ChallengeID req) = (rc, s)"
      "isl rc \<or> va_Presentation req = []" "h' = h\<lparr>vh_challengeStore := s\<rparr>" "rejects out"
  | (checked) req ch s rd where "decode_auth body = Some req" "va_Presentation req \<noteq> []"
      "cs_Get cops (clk 0) (vh_challengeStore h) (va_ChallengeID req) = (Inr ch, s)"
      "cs_Delete cops s (va_ChallengeID req) = (rd, vh_challengeStore h')" "out \<noteq> Panic"
      "vh_chain h' = vh_chain h \<or> (\<exists>d r. Client_ResolveDID dops (vh_chain h) d = (r, vh_chain h'))"
      "\<And>d. authenticates out d \<longleftrightarrow> (\<exists>pres doc. pr_DID pres = d \<and> auth_signed P doc clk ch req pres
          \<and> fst (Client_ResolveDID dops (vh_chain h) d) = Inr doc)"
  using VerifyAuth_paths [OF v]
proof (elim disjE exE conjE, goal_cases)
  case 1
  then show ?case using malformed by blast
next
  case (2 req rc s)
  show ?case
  proof (cases "isl rc \<or> va_Presentation req = []")
    case True
    then show ?thesis using missing [OF 2(4,5)] 2(6) by auto
  next
    case False
    with 2(6) obtain ch rd where rc: "rc = Inr ch" and dl: "cs_Delete cops s (va_ChallengeID req) = (rd, vh_challengeStore h')"
      and rest: "(vh_chain h' = vh_chain h \<and> rejects out \<and> \<not> (\<exists>pres doc. auth_signed P doc clk ch req pres)
                \<or> (\<exists>pres r. decodeAuthPresentation (va_Presentation req) = Some pres
                    \<and> Client_ResolveDID dops (vh_chain h) (pr_DID pres) = (r, vh_chain h')
                    \<and> (if \<exists>doc. r = Inr doc \<and> auth_signed P doc clk ch req pres
                       then \<forall>d. authenticates out d \<longleftrightarrow> d = pr_DID pres else rejects out)))"
      by (simp only: if_False simp_thms) blast
    have un: "auth_signed P doc clk ch req pres \<Longrightarrow> decodeAuthPresentation (va_Presentation req) = Some pres" for doc pres
      by (simp add: auth_signed_def)
    show ?thesis
    proof (rule checked [OF 2(4) _ 2(5) [unfolded rc] dl])
      show "va_Presentation req \<noteq> []" using False by blast
      show "out \<noteq> Panic"
      proof
        assume "out = Panic"
        with rest show False by (metis authenticates_simps(3))
      qed
      show "vh_chain h' = vh_chain h \<or> (\<exists>d r. Client_ResolveDID dops (vh_chain h) d = (r, vh_chain h'))"
        using rest by blast
      show "authenticates out d \<longleftrightarrow> (\<exists>pres doc. pr_DID pres = d \<and> auth_signed P doc clk ch req pres
          \<and> fst (Client_ResolveDID dops (vh_chain h) d) = Inr doc)" for d
        using rest
      proof (elim disjE conjE exE, goal_cases)
        case 1
        then show ?case by blast
      next
        case (2 pres r)
        then have r: "fst (Client_ResolveDID dops (vh_chain h) (pr_DID pres)) = r" by simp
        have one: "auth_signed P doc clk ch req p \<Longrightarrow> p = pres" for doc p using un [of doc p] 2(1) by simp
        show ?case
        proof (cases "\<exists>doc. r = Inr doc \<and> auth_signed P doc clk ch req pres")
          case True
          then have "authenticates out d \<longleftrightarrow> d = pr_DID pres" using 2(3) by simp
          then show ?thesis using True r one by metis
        next
          case False
          then have "\<not> authenticates out d" using 2(3) by simp
          then show ?thesis using False r one by metis
        qed
      qed
    qed
  qed
qed

text \<open>The service in the request only ever refuses: without it, the same request passes.\<close>

lemma VerifyAuth_without_service:
  assumes ok: "authenticates (fst (VerifyAuth P dops cops clk h body)) d"
    and b: "decode_auth body = Some req" "decode_auth body' = Some (req\<lparr>va_ServiceID := []\<rparr>)"
  shows "authenticates (fst (VerifyAuth P dops cops clk h body')) d"
proof -
  obtain out h1 where v: "VerifyAuth P dops cops clk h body = (out, h1)" by fastforce
  obtain out2 h2 where v2: "VerifyAuth P dops cops clk h body' = (out2, h2)" by fastforce
  have ok: "authenticates out d" using ok v by simp
  from v obtain ch s where g: "cs_Get cops (clk 0) (vh_challengeStore h) (va_ChallengeID req) = (Inr ch, s)"
    "va_Presentation req \<noteq> []" "\<exists>pres doc. pr_DID pres = d \<and> auth_signed P doc clk ch req pres
        \<and> fst (Client_ResolveDID dops (vh_chain h) d) = Inr doc"
    using ok b(1) by (cases rule: VerifyAuth_cases) auto
  have s: "auth_signed P doc clk ch (req\<lparr>va_ServiceID := []\<rparr>) pres" if "auth_signed P doc clk ch req pres" for doc pres
    using that by (simp add: auth_signed_def)
  from v2 have "authenticates out2 d"
  proof (cases rule: VerifyAuth_cases)
    case (checked req' ch' s' rd)
    have r: "req' = req\<lparr>va_ServiceID := []\<rparr>" using checked(1) b(2) by simp
    then have "ch' = ch" using checked(3) g(1) by simp
    with r have "req' = req\<lparr>va_ServiceID := []\<rparr>" "ch' = ch" by simp_all
    then show ?thesis using checked(7) g(3) s by blast
  qed (use b(2) g(1,2) in auto)
  then show ?thesis using v2 by simp
qed

text \<open>Only a challenge whose expiry has passed, or does not parse, is refused as expired.\<close>

lemma VerifyAuth_expired:
  assumes "decode_auth body = Some req" "VerifyAuth P dops cops clk h body = (out, h')"
    and "\<And>ch s. cs_Get cops (clk 0) (vh_challengeStore h) (va_ChallengeID req) = (Inr ch, s) \<Longrightarrow>
      \<exists>e. ParseRFC3339 (ch_ExpiresAt ch) = Some e \<and> clk 1 < e"
  shows "out \<noteq> Done (authResult now b d ''challenge expired'')"
  using assms
  by (cases "cs_Get cops (clk 0) (vh_challengeStore h) (va_ChallengeID req)")
    (force simp: VerifyAuth_def Error_def authResult_def Let_def split: sum.splits option.splits if_splits prod.splits bool.splits outcome.splits)

section \<open>Runs of the gateway's authentication\<close>

text \<open>
  Requests to the verification endpoints and to the registry, in any order. The body of a
  challenge request is one the decoder can deliver: its strings are well-formed UTF-8.
\<close>

datatype auth_op =
    OpChallenge "string option" "string option" request
  | OpAuth "json option"
  | OpRegistry did_op

definition auth_serve :: "prims \<Rightarrow> 's DIDStore \<Rightarrow> 'c ChallengeStore \<Rightarrow> clock \<Rightarrow> auth_op
    \<Rightarrow> ('s, 'c) VerifyHandler \<Rightarrow> ('s, 'c) VerifyHandler handled" where
  "auth_serve P dops cops clk op h =
     (case op of
        OpChallenge rnd1 rnd2 r \<Rightarrow> CreateChallenge cops clk rnd1 rnd2 h r
      | OpAuth body \<Rightarrow> VerifyAuth P dops cops clk h body
      | OpRegistry dop \<Rightarrow>
          (let (out, c) = did_serve P dops clk dop (vh_chain h) in (out, h\<lparr>vh_chain := c\<rparr>)))"

definition op_ok :: "auth_op \<Rightarrow> bool" where
  "op_ok op \<longleftrightarrow> (case op of OpChallenge _ _ r \<Rightarrow> body_ok (rq_body r) | _ \<Rightarrow> True)"

text \<open>The request does not draw the identifier \<open>i\<close> for a new challenge.\<close>

definition avoids :: "string \<Rightarrow> clock \<Rightarrow> auth_op \<Rightarrow> bool" where
  "avoids i clk op \<longleftrightarrow> (case op of OpChallenge rnd1 _ _ \<Rightarrow> randomID rnd1 (clk 1) \<noteq> i | _ \<Rightarrow> True)"

inductive auth_reach :: "prims \<Rightarrow> 's DIDStore \<Rightarrow> 'c ChallengeStore \<Rightarrow> (clock \<Rightarrow> auth_op \<Rightarrow> bool)
    \<Rightarrow> ('s, 'c) VerifyHandler \<Rightarrow> ('s, 'c) VerifyHandler \<Rightarrow> bool"
  for P :: prims and dops :: "'s DIDStore" and cops :: "'c ChallengeStore" and Q :: "clock \<Rightarrow> auth_op \<Rightarrow> bool"
    and h0 :: "('s, 'c) VerifyHandler" where
  start: "auth_reach P dops cops Q h0 h0"
| serve: "auth_reach P dops cops Q h0 h \<Longrightarrow> op_ok op \<Longrightarrow> Q clk op \<Longrightarrow>
    auth_serve P dops cops clk op h = (out, h') \<Longrightarrow> auth_reach P dops cops Q h0 h'"

text \<open>A challenge that \<open>CreateChallenge\<close> has made at time \<open>t\<close>.\<close>

definition issued :: "time \<Rightarrow> authChallenge \<Rightarrow> bool" where
  "issued t ch \<longleftrightarrow> (\<exists>clk rnd1 rnd2 req. ch = new_challenge clk rnd1 rnd2 req \<and> clk 0 = t \<and> cc_ServiceID req \<noteq> [])"

lemma issued_new: "cc_ServiceID req \<noteq> [] \<Longrightarrow> issued (clk 0) (new_challenge clk rnd1 rnd2 req)"
  by (auto simp: issued_def)

lemma issued_fields:
  assumes "issued t ch"
  shows "ch_ServiceID ch \<noteq> []" "ch_ExpiresAt ch = FormatRFC3339 (t + 300 * second)"
  using assms by (auto simp: issued_def new_challenge_def Let_def)

lemma ch_ID_new_challenge [simp]: "ch_ChallengeID (new_challenge clk rnd1 rnd2 req) = randomID rnd1 (clk 1)"
  by (simp add: new_challenge_def Let_def)

section \<open>The protocol over any stores of the contracts\<close>

locale auth_protocol =
  D: did_store dops dview dinv + C: challenge_store cops chview chinv
  for dops :: "'s DIDStore" and dview dinv and cops :: "'c ChallengeStore" and chview chinv
begin

abbreviation docs :: "('s, 'c) VerifyHandler \<Rightarrow> string \<Rightarrow> DIDDocument option" where
  "docs h \<equiv> D.cview (vh_chain h)"

abbreviation held :: "('s, 'c) VerifyHandler \<Rightarrow> string \<Rightarrow> authChallenge option" where
  "held h \<equiv> chview (vh_challengeStore h)"

definition hinv :: "('s, 'c) VerifyHandler \<Rightarrow> bool" where
  "hinv h \<longleftrightarrow> D.cinv (vh_chain h) \<and> registry_ok (docs h) \<and> chinv (vh_challengeStore h)
     \<and> (\<forall>i ch. held h i = Some ch \<longrightarrow> (\<exists>t. issued t ch))"

lemma VerifyAuth_law:
  assumes inv: "D.cinv (vh_chain h)" "chinv (vh_challengeStore h)"
    and v: "VerifyAuth P dops cops clk h body = (out, h')"
  shows "D.cinv (vh_chain h') \<and> docs h' = docs h \<and> chinv (vh_challengeStore h') \<and> out \<noteq> Panic"
    and "held h' = held h \<or> (\<exists>req. decode_auth body = Some req \<and> held h' = (held h)(va_ChallengeID req := None))"
    and "authenticates out d \<Longrightarrow> \<exists>req ch pres. decode_auth body = Some req
        \<and> held h (va_ChallengeID req) = Some ch \<and> auth_valid P (docs h) clk ch req pres \<and> pr_DID pres = d"
proof -
  have "D.cinv (vh_chain h') \<and> docs h' = docs h \<and> chinv (vh_challengeStore h') \<and> out \<noteq> Panic
    \<and> (held h' = held h \<or> (\<exists>req. decode_auth body = Some req \<and> held h' = (held h)(va_ChallengeID req := None)))
    \<and> (authenticates out d \<longrightarrow> (\<exists>req ch pres. decode_auth body = Some req
        \<and> held h (va_ChallengeID req) = Some ch \<and> auth_valid P (docs h) clk ch req pres \<and> pr_DID pres = d))" for d
    using v
  proof (cases rule: VerifyAuth_cases)
    case malformed
    then show ?thesis using inv by auto
  next
    case (missing req rc s)
    then show ?thesis using inv C.Get_law [OF inv(2) missing(2)] by auto
  next
    case (checked req ch s rd)
    have g: "chinv s" "chview s = held h" "held h (va_ChallengeID req) = Some ch"
      using C.Get_law [OF inv(2) checked(3)] by blast+
    have chain: "D.cinv (vh_chain h')" "docs h' = docs h"
      using checked(6) D.ResolveDID_law [OF inv(1)] inv(1) by metis+
    have "\<exists>pres. auth_valid P (docs h) clk ch req pres \<and> pr_DID pres = d" if "authenticates out d"
    proof -
      obtain pres doc where p: "pr_DID pres = d" "auth_signed P doc clk ch req pres"
        "fst (Client_ResolveDID dops (vh_chain h) d) = Inr doc" using \<open>authenticates out d\<close> checked(7) by blast
      have "docs h d = Some doc" using D.ResolveDID_law [OF inv(1) prod.collapse [symmetric]] p(3) by blast
      then show ?thesis using p(1,2) checked(2) unfolding auth_valid_def by blast
    qed
    moreover have "chinv (vh_challengeStore h')" "held h' = held h \<or> held h' = (held h)(va_ChallengeID req := None)"
      using C.Delete_law [OF g(1) checked(4)] g(2) by simp_all
    ultimately show ?thesis using g(3) chain checked(1,5) by blast
  qed
  then show "D.cinv (vh_chain h') \<and> docs h' = docs h \<and> chinv (vh_challengeStore h') \<and> out \<noteq> Panic"
    "held h' = held h \<or> (\<exists>req. decode_auth body = Some req \<and> held h' = (held h)(va_ChallengeID req := None))"
    "authenticates out d \<Longrightarrow> \<exists>req ch pres. decode_auth body = Some req
        \<and> held h (va_ChallengeID req) = Some ch \<and> auth_valid P (docs h) clk ch req pres \<and> pr_DID pres = d"
    by blast+
qed

lemma CreateChallenge_law:
  assumes inv: "chinv (vh_challengeStore h)" and ok: "body_ok (rq_body r)"
    and v: "CreateChallenge cops clk rnd1 rnd2 h r = (out, h')"
  shows "vh_chain h' = vh_chain h \<and> chinv (vh_challengeStore h') \<and> out \<noteq> Panic
    \<and> (held h' = held h \<or> (\<exists>req. decode_create (rq_body r) = Some req \<and> cc_ServiceID req \<noteq> []
        \<and> held h' = (held h)(randomID rnd1 (clk 1) \<mapsto> new_challenge clk rnd1 rnd2 req)))"
proof -
  note p = CreateChallenge_paths [OF v]
  show ?thesis
  proof (cases "h' = h")
    case False
    with p obtain req q where "decode_create (rq_body r) = Some req" "cc_ServiceID req \<noteq> []"
      "cs_Save cops (clk 3) (vh_challengeStore h) (new_challenge clk rnd1 rnd2 req) = (q, vh_challengeStore h')" by blast
    moreover have "challenge_ok (new_challenge clk rnd1 rnd2 req)"
      using decode_create_utf8 [OF calculation(1) ok] by (rule new_challenge_ok)
    moreover note C.Save_law [OF inv calculation(4,3)]
    ultimately show ?thesis using p by auto
  qed (use p inv in blast)
qed

lemma serve_inv:
  assumes inv: "hinv h" and op: "op_ok op" and v: "auth_serve P dops cops clk op h = (out, h')"
  shows "hinv h'" "out \<noteq> Panic"
    and "avoids i clk op \<Longrightarrow> held h i = None \<Longrightarrow> held h' i = None"
proof -
  have h: "D.cinv (vh_chain h)" "registry_ok (docs h)" "chinv (vh_challengeStore h)"
    "\<And>i ch. held h i = Some ch \<Longrightarrow> \<exists>t. issued t ch" using inv by (auto simp: hinv_def)
  have "hinv h' \<and> out \<noteq> Panic \<and> (avoids i clk op \<and> held h i = None \<longrightarrow> held h' i = None)"
  proof (cases op)
    case (OpChallenge rnd1 rnd2 r)
    with v op have "CreateChallenge cops clk rnd1 rnd2 h r = (out, h')" "body_ok (rq_body r)"
      by (simp_all add: auth_serve_def op_ok_def)
    note cl = CreateChallenge_law [OF h(3) this(2,1)]
    show ?thesis
    proof (cases "held h' = held h")
      case True
      then show ?thesis using cl h unfolding hinv_def by simp
    next
      case False
      with cl obtain req where req: "cc_ServiceID req \<noteq> []"
        "held h' = (held h)(randomID rnd1 (clk 1) \<mapsto> new_challenge clk rnd1 rnd2 req)" by blast
      moreover have "\<exists>t. issued t (new_challenge clk rnd1 rnd2 req)" using issued_new [OF req(1)] by blast
      moreover have "vh_chain h' = vh_chain h" "chinv (vh_challengeStore h')" "out \<noteq> Panic" using cl by blast+
      ultimately show ?thesis using h unfolding hinv_def by (auto simp: OpChallenge avoids_def split: if_splits)
    qed
  next
    case (OpAuth body)
    with v have "VerifyAuth P dops cops clk h body = (out, h')" by (simp add: auth_serve_def)
    from VerifyAuth_law(1,2) [OF h(1,3) this] h show ?thesis
      unfolding hinv_def by (auto split: if_splits)
  next
    case (OpRegistry dop)
    obtain o2 c where s: "did_serve P dops clk dop (vh_chain h) = (o2, c)" by fastforce
    with v OpRegistry have "out = o2" "h' = h\<lparr>vh_chain := c\<rparr>" by (simp_all add: auth_serve_def)
    moreover have "registry_ok (D.cview c)"
      using D.serve_authorised(2) [OF h(1,2) s] authorised_registry_ok [OF _ h(2)] h(2) by metis
    moreover have "D.cinv c" "o2 \<noteq> Panic" using D.serve_authorised(1,3) [OF h(1,2) s] .
    ultimately show ?thesis using h unfolding hinv_def by simp
  qed
  then show "hinv h'" "out \<noteq> Panic" "avoids i clk op \<Longrightarrow> held h i = None \<Longrightarrow> held h' i = None" by blast+
qed

lemma reach_inv: "auth_reach P dops cops Q h0 h \<Longrightarrow> hinv h0 \<Longrightarrow> hinv h"
  by (induction rule: auth_reach.induct) (auto dest: serve_inv(1))

lemma reach_not_held:
  "auth_reach P dops cops (avoids i) h0 h \<Longrightarrow> hinv h0 \<Longrightarrow> held h0 i = None \<Longrightarrow> held h i = None"
proof (induction rule: auth_reach.induct)
  case (serve h op clk out h')
  have "hinv h" using reach_inv [OF serve.hyps(1)] serve.prems(1) .
  moreover have "held h i = None" using serve.IH serve.prems .
  ultimately show ?case using serve_inv(3) serve.hyps(2-4) by blast
qed simp

lemma not_held_rejects:
  assumes "hinv h" "decode_auth body = Some req" "held h (va_ChallengeID req) = None"
    "VerifyAuth P dops cops clk h body = (out, h')"
  shows "\<not> authenticates out d"
  using VerifyAuth_law(3) [OF _ _ assms(4)] assms(1-3) unfolding hinv_def by fastforce

text \<open>How long a challenge lives: the stored text of the expiry loses the fraction of a second.\<close>

lemma VerifyAuth_lifetime:
  assumes inv: "hinv h" and i: "issued t ch" "four_digit_year (t + 300 * second)"
    and b: "decode_auth body = Some req" "held h (va_ChallengeID req) = Some ch"
  shows "t + 300 * second \<le> clk 1 \<Longrightarrow> \<not> authenticates (fst (VerifyAuth P dops cops clk h body)) d"
    and "clk 1 \<le> t + 299 * second \<Longrightarrow> fst (VerifyAuth P dops cops clk h body) \<noteq> Done (authResult now b d ''challenge expired'')"
proof -
  obtain out h' where v: "VerifyAuth P dops cops clk h body = (out, h')" by fastforce
  have h: "D.cinv (vh_chain h)" "chinv (vh_challengeStore h)" using inv by (simp_all add: hinv_def)
  have m: "(t + 300 * second) mod second < second" "0 \<le> (t + 300 * second) mod second" by (simp_all add: second_def)
  obtain e where e: "ParseRFC3339 (ch_ExpiresAt ch) = Some e" "t + 299 * second < e" "e \<le> t + 300 * second"
    using m Parse_Format [OF i(2)] issued_fields(2) [OF i(1)] by auto
  show "\<not> authenticates (fst (VerifyAuth P dops cops clk h body)) d" if "t + 300 * second \<le> clk 1"
  proof
    assume "authenticates (fst (VerifyAuth P dops cops clk h body)) d"
    then obtain pres where "auth_valid P (docs h) clk ch req pres" using VerifyAuth_law(3) [OF h v] b v by auto
    then have "clk 1 < e" using e(1) by (auto simp: auth_valid_def auth_signed_def)
    then show False using e(3) that by simp
  qed
  show "fst (VerifyAuth P dops cops clk h body) \<noteq> Done (authResult now b d ''challenge expired'')" if "clk 1 \<le> t + 299 * second"
  proof -
    have "\<exists>e. ParseRFC3339 (ch_ExpiresAt ch') = Some e \<and> clk 1 < e"
      if "cs_Get cops (clk 0) (vh_challengeStore h) (va_ChallengeID req) = (Inr ch', s)" for ch' s
      using C.Get_law [OF h(2) that] b(2) e \<open>clk 1 \<le> t + 299 * second\<close> by auto
    then show ?thesis using VerifyAuth_expired [OF b(1) v] v by simp
  qed
qed

end

text \<open>With a challenge store whose deletions succeed, acceptance consumes the challenge.\<close>

locale consuming_auth =
  D: did_store dops dview dinv + K: reliable_challenge_store cops chview chinv keeps
  for dops :: "'s DIDStore" and dview dinv and cops :: "'c ChallengeStore" and chview chinv keeps

sublocale consuming_auth \<subseteq> auth_protocol dops dview dinv cops chview chinv ..

context consuming_auth
begin

lemma accepted_consumed:
  assumes inv: "hinv h" and v: "VerifyAuth P dops cops clk h body = (out, h')" and ok: "authenticates out d"
  obtains req where "decode_auth body = Some req" "held h' (va_ChallengeID req) = None"
  using v
proof (cases rule: VerifyAuth_cases)
  case (checked req ch s rd)
  have "chinv (vh_challengeStore h)" using inv by (simp add: hinv_def)
  from K.Get_law [OF this checked(3)] have s: "chinv s" by blast
  have "rd = Inr ()" using K.Delete_ok [OF s checked(4)] by blast
  then have "held h' (va_ChallengeID req) = None" using K.Delete_law [OF s checked(4)] by simp
  then show thesis using that checked(1) by blast
qed (use ok in blast)+

text \<open>So a challenge authenticates at most once, until its identifier is drawn again.\<close>

lemma accepted_once:
  assumes inv: "hinv h" and v: "VerifyAuth P dops cops clk h body = (out, h1)" and ok: "authenticates out d"
    and body: "decode_auth body = Some req" and body2: "decode_auth body2 = Some req2" "va_ChallengeID req2 = va_ChallengeID req"
    and run: "auth_reach P dops cops (avoids (va_ChallengeID req)) h1 h2"
    and v2: "VerifyAuth P dops cops clk2 h2 body2 = (out2, h3)"
  shows "\<not> authenticates out2 d2"
proof -
  have "auth_serve P dops cops clk (OpAuth body) h = (out, h1)" by (simp add: auth_serve_def v)
  from serve_inv(1) [OF inv _ this] have inv1: "hinv h1" by (simp add: op_ok_def)
  obtain req' where "decode_auth body = Some req'" "held h1 (va_ChallengeID req') = None"
    using accepted_consumed [OF inv v ok] .
  then have "held h2 (va_ChallengeID req) = None" using reach_not_held [OF run inv1] body by simp
  then show ?thesis using not_held_rejects [OF reach_inv [OF run inv1] body2(1) _ v2] body2(2) by simp
qed

end

text \<open>With stores that do not fail, what is valid is accepted.\<close>

locale reliable_auth =
  R: reliable_did_store dops dview dinv + K: reliable_challenge_store cops chview chinv keeps
  for dops :: "'s DIDStore" and dview dinv and cops :: "'c ChallengeStore" and chview chinv keeps

sublocale reliable_auth \<subseteq> consuming_auth dops dview dinv cops chview chinv keeps ..

context reliable_auth
begin

lemma VerifyAuth_accepts:
  assumes inv: "hinv h" and d: "decode_auth body = Some req" and ch: "held h (va_ChallengeID req) = Some ch"
    and k: "keeps (vh_challengeStore h) (va_ChallengeID req) (clk 0)"
    and ok: "auth_valid P (docs h) clk ch req pres"
    and v: "VerifyAuth P dops cops clk h body = (out, h')"
  shows "authenticates out (pr_DID pres)"
proof -
  have h: "dinv (cl_store (vh_chain h))" "chinv (vh_challengeStore h)" using inv by (auto simp: hinv_def)
  have pn: "va_Presentation req \<noteq> []" using ok by (simp add: auth_valid_def)
  show ?thesis
    using v
  proof (cases rule: VerifyAuth_cases)
    case malformed
    then show ?thesis using d by simp
  next
    case (missing req' rc s)
    then show ?thesis using K.Get_ok [OF h(2) ch k] d pn by auto
  next
    case (checked req' ch' s rd)
    then have eq: "req' = req" using d by simp
    have ch': "ch' = ch" using K.Get_law [OF h(2) checked(3)] ch eq by simp
    obtain doc where doc: "docs h (pr_DID pres) = Some doc" "auth_signed P doc clk ch req pres"
      using ok by (auto simp: auth_valid_def)
    obtain r c where rs: "Client_ResolveDID dops (vh_chain h) (pr_DID pres) = (r, c)" by fastforce
    have "fst (Client_ResolveDID dops (vh_chain h) (pr_DID pres)) = Inr doc"
      using R.ResolveDID_ok [OF h(1) rs] doc(1) rs by simp
    then show ?thesis using checked(7) doc(2) eq ch' by blast
  qed
qed

text \<open>Challenge, then response: the whole exchange.\<close>

lemma protocol_completes:
  assumes inv: "hinv h" and body: "body_ok (rq_body r)" and cr: "decode_create (rq_body r) = Some creq" "cc_ServiceID creq \<noteq> []"
    "Header_Get r ''X-Service-ID'' \<in> {[], cc_ServiceID creq}"
    and h1: "CreateChallenge cops clk rnd1 rnd2 h r = (out1, h1)"
    and d: "decode_auth body2 = Some req" "va_ChallengeID req = randomID rnd1 (clk 1)"
    and t: "four_digit_year (clk 0 + 300 * second)" "clk 3 < clk 0 + 300 * second + 2 ^ 62" "clk 0 - 2 ^ 62 < clk 3"
    "clk2 0 + second + millisecond \<le> clk 0 + 300 * second"
    and ok: "auth_valid P (docs h) clk2 (new_challenge clk rnd1 rnd2 creq) req pres"
    and v: "VerifyAuth P dops cops clk2 h1 body2 = (out2, h2)"
  shows "answers out1 201" "authenticates out2 (pr_DID pres)"
proof -
  let ?ch = "new_challenge clk rnd1 rnd2 creq"
  have store: "chinv (vh_challengeStore h)" using inv by (simp add: hinv_def)
  have cok: "challenge_ok ?ch" using decode_create_utf8 [OF cr(1) body] by (rule new_challenge_ok)
  obtain q s where sv: "cs_Save cops (clk 3) (vh_challengeStore h) ?ch = (q, s)" by fastforce
  have q: "q = Inr ()" using K.Save_ok [OF store cok sv] by blast
  have eq: "out1 = Done (JSON 201 (challenge_payload ?ch))" "h1 = h\<lparr>vh_challengeStore := s\<rparr>"
    using h1 cr sv q by (auto simp: CreateChallenge_def Let_def)
  then show "answers out1 201" by simp
  have "auth_serve P dops cops clk (OpChallenge rnd1 rnd2 r) h = (out1, h1)" by (simp add: auth_serve_def h1)
  from serve_inv(1) [OF inv _ this] body have inv1: "hinv h1" by (simp add: op_ok_def)
  have held: "held h1 (va_ChallengeID req) = Some ?ch"
    using K.Save_law [OF store cok sv] q eq(2) d(2) by simp
  have e: "ParseRFC3339 (ch_ExpiresAt ?ch)
      = Some (clk 0 + 300 * second - (clk 0 + 300 * second) mod second)"
    using Parse_Format [OF t(1)] by (simp add: new_challenge_def Let_def)
  have m: "0 \<le> (clk 0 + 300 * second) mod second" "(clk 0 + 300 * second) mod second < second"
    by (simp_all add: second_def)
  have "keeps s (ch_ChallengeID ?ch) (clk2 0)"
    by (rule K.Save_keeps [OF store cok sv e]) (use t m in \<open>simp_all add: second_def\<close>)
  then have k: "keeps (vh_challengeStore h1) (va_ChallengeID req) (clk2 0)" using eq(2) d(2) by simp
  have "docs h1 = docs h" using eq(2) by simp
  then show "authenticates out2 (pr_DID pres)" using VerifyAuth_accepts [OF inv1 d(1) held k _ v] ok by simp
qed

text \<open>The revocation of a DID does not keep its holder from passing: the key of the document stays.\<close>

lemma revoked_authenticates:
  assumes inv: "hinv h" and ok: "authenticates (fst (VerifyAuth P dops cops clk h body)) d"
    and rv: "DIDHandler_Revoke P dops clk2 (vh_chain h) body2 = (out, c)" "answers out 200"
    and req: "decode_revoke body2 = Some rreq" "rev_DID rreq = d"
  shows "\<exists>doc. R.cview c d = Some doc \<and> doc_Deactivated doc"
    and "authenticates (fst (VerifyAuth P dops cops clk (h\<lparr>vh_chain := c\<rparr>) body)) d"
proof -
  have h: "R.cinv (vh_chain h)" "registry_ok (docs h)" using inv by (simp_all add: hinv_def)
  obtain doc where doc: "revoke_valid P (docs h) body2 rreq doc" "docs h d = Some doc"
    using R.Revoke_iff(1) [OF h rv(1)] rv(2) req unfolding answers_def by (auto simp: revoke_valid_def)
  have "doc_ID doc = d" using R.view_ID h(1) doc(2) by blast
  moreover have "writes (docs h) (doc\<lparr>doc_Deactivated := True\<rparr>) (R.cview c)" by (rule R.Revoke_iff(2) [OF h rv(1) doc(1)])
  ultimately obtain doc' where doc': "R.cview c d = Some doc'" "same_but_updated doc' (doc\<lparr>doc_Deactivated := True\<rparr>)"
    by (auto simp: writes_def)
  then have f: "doc_Deactivated doc'" "doc_PublicKeyBase64 doc' = doc_PublicKeyBase64 doc"
    by (auto dest: same_but_updated_fields)
  then show "\<exists>doc. R.cview c d = Some doc \<and> doc_Deactivated doc" using doc'(1) by blast
  have c: "R.cinv c"
    using R.serve_authorised(1) [OF h, of P clk2 "OpRevoke body2"] rv(1) by (simp add: did_serve_def)
  obtain out1 h1 where v1: "VerifyAuth P dops cops clk h body = (out1, h1)" by fastforce
  obtain req ch s pres doc0 where v: "decode_auth body = Some req" "va_Presentation req \<noteq> []"
    "cs_Get cops (clk 0) (vh_challengeStore h) (va_ChallengeID req) = (Inr ch, s)"
    "pr_DID pres = d" "auth_signed P doc0 clk ch req pres" "fst (Client_ResolveDID dops (vh_chain h) d) = Inr doc0"
    using v1
  proof (cases rule: VerifyAuth_cases)
    case (checked req ch s rd)
    then show ?thesis using that ok v1 by auto
  qed (use ok v1 in auto)
  have "docs h d = Some doc0" using R.ResolveDID_law [OF h(1) prod.collapse [symmetric]] v(6) by blast
  then have sg: "auth_signed P doc' clk ch req pres" using v(5) doc(2) f(2) by (simp add: auth_signed_def)
  obtain r c2 where rs: "Client_ResolveDID dops c d = (r, c2)" by fastforce
  have r: "r = Inr doc'" using R.ResolveDID_ok [OF c rs] doc'(1) by simp
  obtain out2 h2 where v2: "VerifyAuth P dops cops clk (h\<lparr>vh_chain := c\<rparr>) body = (out2, h2)" by fastforce
  then have "authenticates out2 d"
  proof (cases rule: VerifyAuth_cases)
    case (checked req' ch' s' rd)
    then have "req' = req" "ch' = ch" using v(1,3) by simp_all
    then show ?thesis using checked(7) v(4) sg rs r by simp blast
  qed (use v(1-3) in auto)
  then show "authenticates (fst (VerifyAuth P dops cops clk (h\<lparr>vh_chain := c\<rparr>) body)) d" using v2 by simp
qed

end

section \<open>The protocol over the model's stores\<close>

interpretation dev_auth: reliable_auth memory_did_store mem_view mem_inv
  memory_challenge_store memch_view memch_inv memch_keeps ..

interpretation prod_auth: auth_protocol postgres_did_store pg_view pg_inv
  redis_challenge_store redis_view redis_inv ..

interpretation prod_consuming: consuming_auth postgres_did_store pg_view pg_inv
  redis_challenge_store redis_view redis_quiet redis_keeps ..

interpretation prod_reliable: reliable_auth postgres_did_store pg_view pg_quiet
  redis_challenge_store redis_view redis_quiet redis_keeps ..

end
