(* ===== verification/AuthRuns.thy ===== *)
theory AuthRuns
  imports AuthProtocol DidRuns
begin

text \<open>
  The two configurations of the gateway's authentication: a development gateway with both stores
  in memory, and a production gateway on Postgres and Redis whose drivers fail by arbitrary
  scripts. An example run for the closed instances of the properties.
\<close>

section \<open>The two configurations\<close>

definition any_op :: "clock \<Rightarrow> auth_op \<Rightarrow> bool" where
  "any_op clk op \<longleftrightarrow> True"

abbreviation dev_serve where "dev_serve P \<equiv> auth_serve P memory_did_store memory_challenge_store"
abbreviation prod_serve where "prod_serve P \<equiv> auth_serve P postgres_did_store redis_challenge_store"
abbreviation dev_VerifyAuth where "dev_VerifyAuth P \<equiv> VerifyAuth P memory_did_store memory_challenge_store"
abbreviation prod_VerifyAuth where "prod_VerifyAuth P \<equiv> VerifyAuth P postgres_did_store redis_challenge_store"

definition new_prod :: "string \<Rightarrow> Service \<Rightarrow> db_fault list \<Rightarrow> db_fault list
    \<Rightarrow> (PostgresDIDStore, RedisChallengeStore) VerifyHandler" where
  "new_prod rpc zkp faults rfaults =
     NewVerifyHandlerWithChallengeStore (NewClientWithStore rpc (empty_dids faults)) zkp
       \<lparr>rd_data = [], rd_faults = rfaults\<rparr>"

definition dev_reach :: "prims \<Rightarrow> string \<Rightarrow> (MemoryDIDStore, MemoryChallengeStore) VerifyHandler \<Rightarrow> bool" where
  "dev_reach P rpc h \<longleftrightarrow>
     (\<exists>zkp. auth_reach P memory_did_store memory_challenge_store any_op (NewVerifyHandler (NewClient rpc) zkp) h)"

definition prod_reach :: "prims \<Rightarrow> string \<Rightarrow> db_fault list \<Rightarrow> db_fault list
    \<Rightarrow> (PostgresDIDStore, RedisChallengeStore) VerifyHandler \<Rightarrow> bool" where
  "prod_reach P rpc faults rfaults h \<longleftrightarrow>
     (\<exists>zkp. auth_reach P postgres_did_store redis_challenge_store any_op (new_prod rpc zkp faults rfaults) h)"

abbreviation dev_docs where "dev_docs h \<equiv> mview (vh_chain h)"
abbreviation prod_docs where "prod_docs h \<equiv> pview (vh_chain h)"
abbreviation dev_held where "dev_held h \<equiv> memch_view (vh_challengeStore h)"
abbreviation prod_held where "prod_held h \<equiv> redis_view (vh_challengeStore h)"

lemma dev_reach_inv: "dev_reach P rpc h \<Longrightarrow> dev_auth.hinv h"
  unfolding dev_reach_def
  by (erule exE, erule dev_auth.reach_inv)
    (use new_client_ok(1,2) in \<open>simp add: dev_auth.hinv_def NewVerifyHandler_def
      NewVerifyHandlerWithChallengeStore_def NewMemoryChallengeStore_def memch_inv_def memch_view_def\<close>)

lemma prod_reach_inv: "prod_reach P rpc faults rfaults h \<Longrightarrow> prod_auth.hinv h"
  unfolding prod_reach_def
  by (erule exE, erule prod_auth.reach_inv)
    (use new_client_ok(3,5) in \<open>simp add: prod_auth.hinv_def new_prod_def
      NewVerifyHandlerWithChallengeStore_def redis_inv_def redis_view_def\<close>)

lemma prod_consuming_inv: "prod_reach P rpc faults [] h \<Longrightarrow> prod_consuming.hinv h"
  unfolding prod_reach_def
  by (erule exE, erule prod_consuming.reach_inv)
    (use new_client_ok(3,5) in \<open>simp add: prod_consuming.hinv_def new_prod_def
      NewVerifyHandlerWithChallengeStore_def redis_quiet_def redis_inv_def redis_view_def\<close>)

lemma prod_reliable_inv: "prod_reach P rpc [] [] h \<Longrightarrow> prod_reliable.hinv h"
  unfolding prod_reach_def
  by (erule exE, erule prod_reliable.reach_inv)
    (use new_client_ok(4,5) in \<open>simp add: prod_reliable.hinv_def new_prod_def
      NewVerifyHandlerWithChallengeStore_def redis_quiet_def redis_inv_def redis_view_def\<close>)

lemma auth_reach_step:
  "auth_reach P dops cops Q h0 h \<Longrightarrow> op_ok op \<Longrightarrow> Q clk op \<Longrightarrow>
     auth_reach P dops cops Q h0 (snd (auth_serve P dops cops clk op h))"
  by (rule auth_reach.serve [where out = "fst (auth_serve P dops cops clk op h)"]) simp_all

section \<open>The example run\<close>

definition demo_rand :: string where "demo_rand = replicate 16 (CHR ''r'')"
definition demo_id :: string where "demo_id = randomID (Some demo_rand) 0"

lemma demo_id_any: "randomID (Some demo_rand) t = demo_id"
  by (simp add: demo_id_def randomID_def)

definition demo_create :: request where
  "demo_create = \<lparr>rq_method = ''POST'', rq_path = [], rq_headers = [(''X-Service-ID'', ''svc'')], rq_RemoteAddr = [],
     rq_body = Some (JObject [(''serviceId'', JString ''svc'')])\<rparr>"

definition demo_presentation_text :: string where
  "demo_presentation_text = json_text (JObject
     [(''did'', JString demo_did), (''challengeId'', JString demo_id), (''signature'', JString demo_sig64),
      (''timestamp'', JNumber ''1700000000000'')])"

definition demo_presentation :: string where "demo_presentation = StdEncode demo_presentation_text"

definition demo_auth :: "string \<Rightarrow> json option" where
  "demo_auth service = Some (JObject
     [(''challengeId'', JString demo_id), (''presentation'', JString demo_presentation),
      (''serviceId'', JString service)])"

definition demo_auth_req :: "string \<Rightarrow> VerifyAuthRequest" where
  "demo_auth_req service = \<lparr>va_ChallengeID = demo_id, va_Presentation = demo_presentation, va_ServiceID = service\<rparr>"

definition demo_pres :: authPresentation where
  "demo_pres = \<lparr>pr_DID = demo_did, pr_ChallengeID = demo_id, pr_Signature = demo_sig64, pr_Timestamp = 1700000000000\<rparr>"

definition demo_creq :: CreateChallengeRequest where
  "demo_creq = \<lparr>cc_ServiceID = ''svc'', cc_ServiceName = []\<rparr>"

definition demo_challenge :: authChallenge where
  "demo_challenge = new_challenge demo_clock (Some demo_rand) (Some demo_rand) demo_creq"

lemma demo_decode_auth [simp]: "decode_auth (demo_auth service) = Some (demo_auth_req service)"
  by (simp add: decode_auth_def demo_auth_def Decode_def decode_struct_def field_for_def VerifyAuthRequest_fields_def
      go_defs demo_auth_req_def)

lemma demo_decode_create [simp]: "decode_create (rq_body demo_create) = Some demo_creq"
  by (simp add: decode_create_def demo_create_def Decode_def decode_struct_def field_for_def
      CreateChallengeRequest_fields_def go_defs demo_creq_def)

lemma demo_create_ok [simp]: "body_ok (rq_body demo_create)" "Header_Get demo_create ''X-Service-ID'' = ''svc''"
  by (simp_all add: demo_create_def Header_Get_def)

lemma ascii_StdEncode: "list_all (\<lambda>c. byte c < 0x80) (StdEncode s)"
proof -
  have "list_all (\<lambda>n. byte (enc6 n) < 0x80) [0..<64]" by code_simp
  then have "byte (enc6 n) < 0x80" if "n < 64" for n using that by (simp add: list_all_iff)
  then have "list_all (\<lambda>c. byte c < 0x80) (b64_quanta enc6 ''='' s)"
    by (induction enc6 "''=''" s rule: b64_quanta.induct) (simp_all add: byte_bits)
  then show ?thesis by (simp add: StdEncode_def)
qed

lemma demo_number: "valid_number ''1700000000000''" "ParseInt64 ''1700000000000'' = Some 1700000000000"
  by (simp_all add: valid_number_def scan_number_def scan_int_def scan_digits_def scan_frac_def scan_exp_def
      is_digit_def digit_val_def ParseInt64_def)

lemma demo_did_utf8: "utf8_ok demo_did"
  unfolding demo_did_def by (rule utf8_ok_ascii) (simp add: list_all_iff)

lemma demo_parse: "parse_json demo_presentation_text = Some (JObject
     [(''did'', JString demo_did), (''challengeId'', JString demo_id), (''signature'', JString demo_sig64),
      (''timestamp'', JNumber ''1700000000000'')])"
  unfolding demo_presentation_text_def
  by (rule parse_json_text)
    (simp_all add: demo_number utf8_ok_ascii ascii_StdEncode demo_sig64_def ascii_randomID demo_id_def demo_did_utf8
      maxNestingDepth_def)

lemma demo_decode_presentation [simp]: "decodeAuthPresentation demo_presentation = Some demo_pres"
  by (simp add: decodeAuthPresentation_def demo_presentation_def demo_parse decode_struct_def field_for_def
      authPresentation_fields_def go_defs demo_number demo_pres_def)

lemma demo_presentation_nonempty [simp]: "demo_presentation \<noteq> []"
  using demo_decode_presentation by (auto simp: decodeAuthPresentation_def StdDecode_def parse_json_def first_value_def)

lemma demo_year: "four_digit_year (demo_clock 0 + 300 * second)"
  by (simp add: demo_clock_def second_def) code_simp

lemma demo_challenge_fields [simp]:
  "ch_ChallengeID demo_challenge = demo_id" "ch_ServiceID demo_challenge = ''svc''"
  "ParseRFC3339 (ch_ExpiresAt demo_challenge) = Some (demo_clock 0 + 300 * second)"
proof -
  have "(demo_clock 0 + 300 * second) mod second = 0" by (simp add: demo_clock_def second_def)
  then show "ParseRFC3339 (ch_ExpiresAt demo_challenge) = Some (demo_clock 0 + 300 * second)"
    using Parse_Format [OF demo_year] by (simp add: demo_challenge_def new_challenge_def Let_def)
qed (simp_all add: demo_challenge_def new_challenge_def demo_creq_def demo_id_any Let_def)

lemma demo_auth_valid:
  assumes "v demo_did = Some doc" "doc_PublicKeyBase64 doc = demo_key64" "service = [] \<or> service = ''svc''"
  shows "auth_valid demo_prims v demo_clock demo_challenge (demo_auth_req service) demo_pres"
proof -
  have "demo_clock 1 < demo_clock 0 + 300 * second" "demo_clock 2 - 300 * second \<le> UnixMilli (pr_Timestamp demo_pres)"
    "UnixMilli (pr_Timestamp demo_pres) \<le> demo_clock 2 + 30 * second"
    by (simp_all add: demo_clock_def second_def demo_pres_def UnixMilli_def)
  then show ?thesis using assms
    by (auto simp: auth_valid_def auth_signed_def demo_auth_req_def demo_pres_def)
qed

text \<open>A registration and a challenge, in both configurations; also with the DID revoked in between.\<close>

definition demo_zkp :: Service where
  "demo_zkp = NewService []"

definition demo_dev :: "MemoryDIDStore Client \<Rightarrow> (MemoryDIDStore, MemoryChallengeStore) VerifyHandler" where
  "demo_dev c = \<lparr>vh_chain = c, vh_zkp = demo_zkp, vh_challengeStore = \<lparr>challenges = [(demo_id, demo_challenge)]\<rparr>\<rparr>"

definition demo_prod :: "db_fault list \<Rightarrow> (PostgresDIDStore, RedisChallengeStore) VerifyHandler" where
  "demo_prod rfaults = \<lparr>vh_chain = demo_p1, vh_zkp = demo_zkp, vh_challengeStore =
     \<lparr>rd_data = [(challengeKey demo_id, (marshal_challenge demo_challenge, demo_clock 0 + 300 * second))],
      rd_faults = rfaults\<rparr>\<rparr>"

abbreviation demo_challenge_op :: auth_op where
  "demo_challenge_op \<equiv> OpChallenge (Some demo_rand) (Some demo_rand) demo_create"

lemma demo_dev_create:
  "snd (dev_serve demo_prims demo_clock demo_challenge_op
     \<lparr>vh_chain = c, vh_zkp = demo_zkp, vh_challengeStore = NewMemoryChallengeStore\<rparr>) = demo_dev c"
proof -
  have "cc_ServiceID demo_creq = ''svc''" by (simp add: demo_creq_def)
  then show ?thesis
    by (simp add: auth_serve_def CreateChallenge_def store_defs NewMemoryChallengeStore_def demo_dev_def
        demo_challenge_def [symmetric])
qed

lemma demo_prod_create:
  "snd (prod_serve demo_prims demo_clock demo_challenge_op
     \<lparr>vh_chain = demo_p1, vh_zkp = demo_zkp, vh_challengeStore = \<lparr>rd_data = [], rd_faults = faults\<rparr>\<rparr>) = demo_prod rfaults"
  if "faults = NoFault # rfaults \<or> faults = [] \<and> rfaults = []"
proof -
  have "cc_ServiceID demo_creq = ''svc''" by (simp add: demo_creq_def)
  with that show ?thesis
    by (auto simp: auth_serve_def CreateChallenge_def store_defs demo_prod_def demo_challenge_def [symmetric]
        redis_do_def redis_SET_def ExpiresAtTime_def Sub_def)
      (simp_all add: demo_clock_def second_def millisecond_def)
qed

lemma demo_dev_registry:
  "dev_serve demo_prims demo_clock (OpRegistry (OpRegister demo_register)) (NewVerifyHandler (NewClient ''r'') demo_zkp)
     = (fst (did_serve demo_prims memory_did_store demo_clock (OpRegister demo_register) (NewClient ''r'')),
        \<lparr>vh_chain = demo_m1, vh_zkp = demo_zkp, vh_challengeStore = NewMemoryChallengeStore\<rparr>)"
  by (simp add: auth_serve_def did_serve_def demo_m1_def NewVerifyHandler_def NewVerifyHandlerWithChallengeStore_def
      case_prod_unfold Let_def)

lemma demo_dev_reach [simp]: "dev_reach demo_prims ''r'' (demo_dev demo_m1)" "dev_reach demo_prims ''r'' (demo_dev demo_m2)"
proof -
  let ?h0 = "NewVerifyHandler (NewClient ''r'') demo_zkp"
  have r1: "auth_reach demo_prims memory_did_store memory_challenge_store any_op ?h0
      \<lparr>vh_chain = demo_m1, vh_zkp = demo_zkp, vh_challengeStore = NewMemoryChallengeStore\<rparr>"
    using auth_reach_step [OF auth_reach.start, of "OpRegistry (OpRegister demo_register)" any_op demo_clock
        demo_prims memory_did_store memory_challenge_store ?h0]
    by (simp add: op_ok_def any_op_def demo_dev_registry)
  have r2: "auth_reach demo_prims memory_did_store memory_challenge_store any_op ?h0
      \<lparr>vh_chain = demo_m2, vh_zkp = demo_zkp, vh_challengeStore = NewMemoryChallengeStore\<rparr>"
    using auth_reach_step [OF r1, of "OpRegistry (OpRevoke demo_revoke)" demo_clock]
    by (simp add: op_ok_def any_op_def auth_serve_def did_serve_def demo_m2_def case_prod_unfold Let_def)
  show "dev_reach demo_prims ''r'' (demo_dev demo_m1)" "dev_reach demo_prims ''r'' (demo_dev demo_m2)"
    using auth_reach_step [OF r1, of demo_challenge_op demo_clock] auth_reach_step [OF r2, of demo_challenge_op demo_clock]
    by (auto simp: dev_reach_def op_ok_def any_op_def demo_dev_create)
qed

lemma demo_prod_reach:
  assumes "faults = NoFault # rfaults \<or> faults = [] \<and> rfaults = []"
  shows "prod_reach demo_prims ''r'' [] faults (demo_prod rfaults)"
proof -
  let ?h0 = "new_prod ''r'' demo_zkp [] faults"
  have r1: "auth_reach demo_prims postgres_did_store redis_challenge_store any_op ?h0
      \<lparr>vh_chain = demo_p1, vh_zkp = demo_zkp, vh_challengeStore = \<lparr>rd_data = [], rd_faults = faults\<rparr>\<rparr>"
    using auth_reach_step [OF auth_reach.start, of "OpRegistry (OpRegister demo_register)" any_op demo_clock
        demo_prims postgres_did_store redis_challenge_store ?h0]
    by (simp add: op_ok_def any_op_def auth_serve_def did_serve_def demo_p1_def new_prod_def
        NewVerifyHandlerWithChallengeStore_def case_prod_unfold Let_def)
  show ?thesis using auth_reach_step [OF r1, of demo_challenge_op demo_clock] demo_prod_create [OF assms]
    by (auto simp: prod_reach_def op_ok_def any_op_def)
qed

lemmas demo_prod_reach0 [simp] = demo_prod_reach [of "[]" "[]", simplified]

lemma demo_challenge_ok: "challenge_ok demo_challenge"
  unfolding demo_challenge_def by (rule new_challenge_ok) (simp_all add: demo_creq_def)

lemma demo_held [simp]: "dev_held (demo_dev c) demo_id = Some demo_challenge"
  "prod_held (demo_prod rfaults) demo_id = Some demo_challenge"
  by (simp_all add: demo_dev_def demo_prod_def memch_view_def redis_view_def
      unmarshal_marshal_challenge demo_challenge_ok)

lemma demo_docs [simp]: "vh_chain (demo_dev c) = c" "vh_chain (demo_prod rfaults) = demo_p1"
  by (simp_all add: demo_dev_def demo_prod_def)

end
