(* ===== verification/AuthProperties.thy ===== *)
theory AuthProperties
  imports AuthRuns
begin

text \<open>
  What the authentication endpoints guarantee in the two configurations of the gateway, and
  where the code falls short of what it means to do.
\<close>

section \<open>What an acceptance proves\<close>

text \<open>
  C3: when \<open>VerifyAuth\<close> authenticates a DID, the challenge it names was made by \<open>CreateChallenge\<close>
  and was still held, the service named (if any) is the one it was made for, it had not
  expired, and the presentation names it, is at most five minutes old and at most thirty
  seconds ahead, and carries a signature over challenge, nonce, DID and timestamp that
  verifies under the 32-byte key the registry stores for that very DID. This holds in every
  reachable state of both configurations, whatever the drivers of Postgres and Redis do.
\<close>

theorem authentication_is_proved:
  "(dev_reach P rpc h \<and> authenticates (fst (dev_VerifyAuth P clk h body)) d \<longrightarrow>
      (\<exists>req ch pres t. decode_auth body = Some req \<and> dev_held h (va_ChallengeID req) = Some ch \<and> issued t ch
         \<and> auth_valid P (dev_docs h) clk ch req pres \<and> pr_DID pres = d))
   \<and> (prod_reach P rpc faults rfaults h' \<and> authenticates (fst (prod_VerifyAuth P clk h' body)) d \<longrightarrow>
      (\<exists>req ch pres t. decode_auth body = Some req \<and> prod_held h' (va_ChallengeID req) = Some ch \<and> issued t ch
         \<and> auth_valid P (prod_docs h') clk ch req pres \<and> pr_DID pres = d))"
proof ((rule conjI; rule impI; elim conjE), goal_cases)
  case 1
  note h = dev_reach_inv [OF 1(1)]
  then show ?case using dev_auth.VerifyAuth_law(3) [OF _ _ prod.collapse [symmetric] 1(2)]
    unfolding dev_auth.hinv_def by blast
next
  case 2
  note h = prod_reach_inv [OF 2(1)]
  then show ?case using prod_auth.VerifyAuth_law(3) [OF _ _ prod.collapse [symmetric] 2(2)]
    unfolding prod_auth.hinv_def by blast
qed

text \<open>The example exchange is accepted, and so is its repetition on a store that kept the challenge.\<close>

lemma demo_req [simp]: "va_ChallengeID (demo_auth_req s) = demo_id" "pr_DID demo_pres = demo_did"
  by (simp_all add: demo_auth_req_def demo_pres_def)

lemma demo_accepts_dev:
  assumes "dev_reach demo_prims ''r'' (demo_dev c)" "mview c demo_did = Some doc" "doc_PublicKeyBase64 doc = demo_key64"
    and "s = [] \<or> s = ''svc''"
  shows "authenticates (fst (dev_VerifyAuth demo_prims demo_clock (demo_dev c) (demo_auth s))) demo_did"
  using dev_auth.VerifyAuth_accepts [OF dev_reach_inv [OF assms(1)] demo_decode_auth _ _ _ surjective_pairing,
      of s demo_challenge demo_clock demo_prims demo_pres] demo_auth_valid [of "mview c" doc s] assms
  by (simp add: memch_keeps_def)

lemma demo_accepts_prod:
  "authenticates (fst (prod_VerifyAuth demo_prims demo_clock (demo_prod []) (demo_auth ''svc''))) demo_did"
proof -
  have "redis_keeps (vh_challengeStore (demo_prod [])) demo_id (demo_clock 0)"
    by (simp add: redis_keeps_def demo_prod_def) (simp add: second_def)
  then show ?thesis
    using prod_reliable.VerifyAuth_accepts [OF prod_reliable_inv [OF demo_prod_reach0] demo_decode_auth _ _ _ surjective_pairing,
        of "''svc''" demo_challenge demo_clock demo_prims demo_pres] demo_auth_valid [of "pview demo_p1" demo_doc "''svc''"]
    by simp
qed

theorem authentication_is_proved_witness:
  "\<exists>req ch pres t. decode_auth (demo_auth ''svc'') = Some req \<and> dev_held (demo_dev demo_m1) (va_ChallengeID req) = Some ch
     \<and> issued t ch \<and> auth_valid demo_prims (mview demo_m1) demo_clock ch req pres \<and> pr_DID pres = demo_did"
  using authentication_is_proved [of demo_prims "''r''" "demo_dev demo_m1" demo_clock "demo_auth ''svc''" demo_did
      "[]" "[]" "demo_prod []"] demo_accepts_dev [of demo_m1 demo_doc "''svc''"] by simp

section \<open>Challenges live once and not long\<close>

text \<open>
  C7: a challenge authenticates at most once. After a request that authenticated a DID, no
  later request with the same challenge identifier authenticates anyone, whatever requests to
  the gateway come in between, as long as the random generator does not draw that identifier
  again. So with the memory store, and with Redis while it answers every command; Postgres may
  fail as it likes.
\<close>

theorem challenge_authenticates_once:
  "(dev_reach P rpc h \<and> dev_VerifyAuth P clk h body = (out, h1) \<and> authenticates out d
      \<and> decode_auth body = Some req \<and> decode_auth body2 = Some req2 \<and> va_ChallengeID req2 = va_ChallengeID req
      \<and> auth_reach P memory_did_store memory_challenge_store (avoids (va_ChallengeID req)) h1 h2 \<longrightarrow>
        \<not> authenticates (fst (dev_VerifyAuth P clk2 h2 body2)) d2)
   \<and> (prod_reach P rpc faults [] h' \<and> prod_VerifyAuth P clk h' body = (out, h1') \<and> authenticates out d
      \<and> decode_auth body = Some req \<and> decode_auth body2 = Some req2 \<and> va_ChallengeID req2 = va_ChallengeID req
      \<and> auth_reach P postgres_did_store redis_challenge_store (avoids (va_ChallengeID req)) h1' h2' \<longrightarrow>
        \<not> authenticates (fst (prod_VerifyAuth P clk2 h2' body2)) d2)"
proof ((rule conjI; rule impI; elim conjE), goal_cases)
  case 1
  then show ?case using dev_auth.accepted_once [OF dev_reach_inv [OF 1(1)] 1(2-7) surjective_pairing] by blast
next
  case 2
  then show ?case using prod_consuming.accepted_once [OF prod_consuming_inv [OF 2(1)] 2(2-7) surjective_pairing] by blast
qed

theorem challenge_authenticates_once_witness:
  "\<not> authenticates (fst (dev_VerifyAuth demo_prims demo_clock
       (snd (dev_VerifyAuth demo_prims demo_clock (demo_dev demo_m1) (demo_auth ''svc''))) (demo_auth ''svc''))) demo_did"
  using challenge_authenticates_once [of demo_prims "''r''" "demo_dev demo_m1" demo_clock "demo_auth ''svc''"
      "fst (dev_VerifyAuth demo_prims demo_clock (demo_dev demo_m1) (demo_auth ''svc''))"
      "snd (dev_VerifyAuth demo_prims demo_clock (demo_dev demo_m1) (demo_auth ''svc''))"
      demo_did "demo_auth_req ''svc''" "demo_auth ''svc''" "demo_auth_req ''svc''"
      "snd (dev_VerifyAuth demo_prims demo_clock (demo_dev demo_m1) (demo_auth ''svc''))" demo_clock demo_did]
    demo_accepts_dev [of demo_m1 demo_doc "''svc''"] by (simp add: auth_reach.start)

text \<open>
  C29: the lifetime of a challenge. A held challenge that was made at time \<open>t\<close> authenticates nobody
  when \<open>VerifyAuth\<close> reads the clock at \<open>t\<close> plus 300 seconds or later, and is never answered as
  expired when it reads it at \<open>t\<close> plus 299 seconds or earlier: the stored text of the expiry loses
  the fraction of a second, so what comes in between depends on it. So in every reachable state of
  both configurations, whatever the drivers do.
\<close>

theorem challenge_lifetime:
  assumes "issued t ch" "four_digit_year (t + 300 * second)" "decode_auth body = Some req"
  shows "(dev_reach P rpc h \<and> dev_held h (va_ChallengeID req) = Some ch \<longrightarrow>
      (t + 300 * second \<le> clk 1 \<longrightarrow> \<not> authenticates (fst (dev_VerifyAuth P clk h body)) d)
      \<and> (clk 1 \<le> t + 299 * second \<longrightarrow> fst (dev_VerifyAuth P clk h body) \<noteq> Done (authResult now b d ''challenge expired'')))
    \<and> (prod_reach P rpc faults rfaults h' \<and> prod_held h' (va_ChallengeID req) = Some ch \<longrightarrow>
      (t + 300 * second \<le> clk 1 \<longrightarrow> \<not> authenticates (fst (prod_VerifyAuth P clk h' body)) d)
      \<and> (clk 1 \<le> t + 299 * second \<longrightarrow> fst (prod_VerifyAuth P clk h' body) \<noteq> Done (authResult now b d ''challenge expired'')))"
proof ((rule conjI; rule impI; elim conjE), goal_cases)
  case 1
  note law = dev_auth.VerifyAuth_lifetime [OF dev_reach_inv [OF 1(1)] assms 1(2)]
  show ?case by (intro conjI impI; erule law)
next
  case 2
  note law = prod_auth.VerifyAuth_lifetime [OF prod_reach_inv [OF 2(1)] assms 2(2)]
  show ?case by (intro conjI impI; erule law)
qed

theorem challenge_lifetime_witness:
  "\<not> authenticates (fst (dev_VerifyAuth demo_prims (\<lambda>i. demo_clock 0 + 300 * second) (demo_dev demo_m1) (demo_auth ''svc''))) demo_did
   \<and> fst (dev_VerifyAuth demo_prims demo_clock (demo_dev demo_m1) (demo_auth ''svc'')) \<noteq> Done (authResult (demo_clock 4) False [] ''challenge expired'')"
proof -
  have i: "issued (demo_clock 0) demo_challenge"
    unfolding demo_challenge_def by (rule issued_new) (simp add: demo_creq_def)
  have "demo_clock 1 \<le> demo_clock 0 + 299 * second" by (simp add: demo_clock_def second_def)
  then show ?thesis
    using challenge_lifetime [OF i demo_year demo_decode_auth [of "''svc''"], where P = demo_prims and rpc = "''r''" and h = "demo_dev demo_m1"
        and d = demo_did and clk = "\<lambda>i. demo_clock 0 + 300 * second", THEN conjunct1]
      challenge_lifetime [OF i demo_year demo_decode_auth [of "''svc''"], where P = demo_prims and rpc = "''r''" and h = "demo_dev demo_m1"
        and d = "[]" and b = False and now = "demo_clock 4" and clk = demo_clock, THEN conjunct1]
    by simp
qed

text \<open>
  C30: the exchange completes. From every reachable state, a well-formed challenge request that
  names its own service is answered 201, and a presentation over the new challenge, signed with
  the stored key of an existing DID and made in its time window, then authenticates that DID, if
  it arrives within 299 seconds less a millisecond. So with the memory stores, and
  with Postgres and Redis while they answer.
\<close>

theorem exchange_completes:
  assumes body: "body_ok (rq_body r)" "decode_create (rq_body r) = Some creq" "cc_ServiceID creq \<noteq> []"
    "Header_Get r ''X-Service-ID'' \<in> {[], cc_ServiceID creq}"
    and auth: "decode_auth body = Some req" "va_ChallengeID req = randomID rnd1 (clk 1)"
    and times: "four_digit_year (clk 0 + 300 * second)" "clk 3 < clk 0 + 300 * second + 2 ^ 62" "clk 0 - 2 ^ 62 < clk 3"
      "clk2 0 + second + millisecond \<le> clk 0 + 300 * second"
  shows "(dev_reach P rpc h \<and> auth_valid P (dev_docs h) clk2 (new_challenge clk rnd1 rnd2 creq) req pres \<longrightarrow>
        answers (fst (CreateChallenge memory_challenge_store clk rnd1 rnd2 h r)) 201
        \<and> authenticates (fst (dev_VerifyAuth P clk2 (snd (CreateChallenge memory_challenge_store clk rnd1 rnd2 h r)) body))
            (pr_DID pres))
     \<and> (prod_reach P rpc [] [] h' \<and> auth_valid P (prod_docs h') clk2 (new_challenge clk rnd1 rnd2 creq) req pres \<longrightarrow>
        answers (fst (CreateChallenge redis_challenge_store clk rnd1 rnd2 h' r)) 201
        \<and> authenticates (fst (prod_VerifyAuth P clk2 (snd (CreateChallenge redis_challenge_store clk rnd1 rnd2 h' r)) body))
            (pr_DID pres))"
proof ((rule conjI; rule impI; elim conjE), goal_cases)
  case 1
  note X = surjective_pairing [of "CreateChallenge memory_challenge_store clk rnd1 rnd2 h r"]
  show ?case using dev_auth.protocol_completes [OF dev_reach_inv [OF 1(1)] body X auth times 1(2) surjective_pairing] ..
next
  case 2
  note X = surjective_pairing [of "CreateChallenge redis_challenge_store clk rnd1 rnd2 h' r"]
  show ?case using prod_reliable.protocol_completes [OF prod_reliable_inv [OF 2(1)] body X auth times 2(2) surjective_pairing] ..
qed

theorem exchange_completes_witness:
  "authenticates (fst (dev_VerifyAuth demo_prims demo_clock
     (snd (CreateChallenge memory_challenge_store demo_clock (Some demo_rand) (Some demo_rand) (demo_dev demo_m1) demo_create))
     (demo_auth ''svc''))) demo_did"
proof -
  have "auth_valid demo_prims (mview demo_m1) demo_clock
      (new_challenge demo_clock (Some demo_rand) (Some demo_rand) demo_creq) (demo_auth_req ''svc'') demo_pres"
    using demo_auth_valid [of "mview demo_m1" demo_doc "''svc''"] by (simp add: demo_challenge_def)
  moreover have "demo_clock 3 < demo_clock 0 + 300 * second + 2 ^ 62" "demo_clock 0 - 2 ^ 62 < demo_clock 3"
    "demo_clock 0 + second + millisecond \<le> demo_clock 0 + 300 * second"
    by (simp_all add: demo_clock_def second_def millisecond_def)
  moreover have "cc_ServiceID demo_creq = ''svc''" by (simp add: demo_creq_def)
  ultimately show ?thesis
    using exchange_completes [of demo_create demo_creq "demo_auth ''svc''" "demo_auth_req ''svc''" "Some demo_rand"
        demo_clock demo_clock demo_prims "''r''" "demo_dev demo_m1" "Some demo_rand" demo_pres "demo_prod []"]
    by (simp add: demo_id_any demo_year)
qed

section \<open>Where the code and its intent part\<close>

text \<open>
  C39: a revocation does not end authentication. Whatever request authenticates a DID still does after
  the revocation of that DID has been answered 200 and its document says so: \<open>VerifyAuth\<close> uses the
  key of the document without looking at \<open>deactivated\<close>. So with the memory stores, and with Postgres
  and Redis while they answer.
\<close>

theorem revoked_did_authenticates:
  assumes "decode_revoke body2 = Some req" "rev_DID req = d"
  shows "(dev_reach P rpc h \<and> authenticates (fst (dev_VerifyAuth P clk h body)) d
      \<and> DIDHandler_Revoke P memory_did_store clk2 (vh_chain h) body2 = (out, c) \<and> answers out 200 \<longrightarrow>
        (\<exists>doc. mview c d = Some doc \<and> doc_Deactivated doc)
        \<and> authenticates (fst (dev_VerifyAuth P clk (h\<lparr>vh_chain := c\<rparr>) body)) d)
    \<and> (prod_reach P rpc [] [] h' \<and> authenticates (fst (prod_VerifyAuth P clk h' body)) d
      \<and> DIDHandler_Revoke P postgres_did_store clk2 (vh_chain h') body2 = (out, c') \<and> answers out 200 \<longrightarrow>
        (\<exists>doc. pview c' d = Some doc \<and> doc_Deactivated doc)
        \<and> authenticates (fst (prod_VerifyAuth P clk (h'\<lparr>vh_chain := c'\<rparr>) body)) d)"
proof ((rule conjI; rule impI; elim conjE), goal_cases)
  case 1
  then show ?case using dev_auth.revoked_authenticates [OF dev_reach_inv [OF 1(1)] 1(2-4) assms] by blast
next
  case 2
  then show ?case using prod_reliable.revoked_authenticates [OF prod_reliable_inv [OF 2(1)] 2(2-4) assms] by blast
qed

theorem revoked_did_authenticates_witness:
  "(\<exists>doc. mview demo_m2 demo_did = Some doc \<and> doc_Deactivated doc)
   \<and> authenticates (fst (dev_VerifyAuth demo_prims demo_clock (demo_dev demo_m2) (demo_auth ''svc''))) demo_did"
proof -
  have c: "DIDHandler_Revoke demo_prims memory_did_store demo_clock (vh_chain (demo_dev demo_m1)) demo_revoke
      = (fst (DIDHandler_Revoke demo_prims memory_did_store demo_clock demo_m1 demo_revoke), demo_m2)"
    by (simp add: demo_m2_def did_serve_def demo_dev_def)
  moreover have "\<exists>req doc. revoke_valid demo_prims (mview demo_m1) demo_revoke req doc" by (auto simp: revoke_valid_def)
  then have "answers (fst (DIDHandler_Revoke demo_prims memory_did_store demo_clock demo_m1 demo_revoke)) 200"
    using mem.Revoke_iff(1) [OF mem_run_ok [OF demo_runs(1)] surjective_pairing] unfolding answers_def by blast
  moreover have "demo_dev demo_m1\<lparr>vh_chain := demo_m2\<rparr> = demo_dev demo_m2" by (simp add: demo_dev_def)
  ultimately show ?thesis
    using revoked_did_authenticates [of demo_revoke _ demo_did demo_prims "''r''" "demo_dev demo_m1" demo_clock "demo_auth ''svc''", THEN conjunct1]
      demo_accepts_dev [of demo_m1 demo_doc "''svc''"] by fastforce
qed

text \<open>
  The error of \<open>Delete\<close> is ignored. When Redis answers the \<open>GET\<close> of a challenge and then
  fails on the \<open>DEL\<close>, the presentation is judged as usual and the challenge stays in the store,
  so the same presentation can be used again until the challenge expires.
\<close>

theorem failed_delete_keeps_challenge:
  assumes "prod_reach P rpc faults rfaults h" "rd_faults (vh_challengeStore h) = NoFault # FailBefore # rest"
    and "prod_VerifyAuth P clk h body = (out, h')" "authenticates out d"
  shows "prod_held h' = prod_held h \<and> (\<exists>req. decode_auth body = Some req \<and> prod_held h (va_ChallengeID req) \<noteq> None)"
  using assms(3)
proof (cases rule: VerifyAuth_cases)
  case (checked req ch s rd)
  have inv: "redis_inv (vh_challengeStore h)" using prod_reach_inv [OF assms(1)] by (simp add: prod_auth.hinv_def)
  have "rd_faults s = FailBefore # rest"
    using checked(3) assms(2)
    by (auto simp: redis_challenge_defs redis_do_def case_prod_unfold Let_def split: option.splits)
  then have "s\<lparr>rd_faults := rest\<rparr> = vh_challengeStore h'"
    using checked(4) by (simp add: redis_challenge_defs redis_do_def case_prod_unfold Let_def)
  from this [symmetric] have "rd_data (vh_challengeStore h') = rd_data s" by simp
  then have "prod_held h' = redis_view s" by (rule redis_view_data(1))
  then show ?thesis using redis.Get_law [OF inv checked(3)] checked(1) by auto
qed (use assms(4) in blast)+

lemma demo_accepts_flaky:
  "authenticates (fst (prod_VerifyAuth demo_prims demo_clock (demo_prod [NoFault, FailBefore]) (demo_auth ''svc''))) demo_did"
proof -
  have "demo_clock 1 < demo_clock 0 + 300 * second" "demo_clock 0 < demo_clock 0 + 300 * second"
    "isPresentationTimestampValid (pr_Timestamp demo_pres) (demo_clock 2)"
    by (simp_all add: demo_clock_def second_def demo_pres_def UnixMilli_def isPresentationTimestampValid_def)
  moreover have "va_Presentation (demo_auth_req s) = demo_presentation" "va_ServiceID (demo_auth_req s) = s"
    "pr_ChallengeID demo_pres = demo_id" "pr_Signature demo_pres = demo_sig64" for s
    by (simp_all add: demo_auth_req_def demo_pres_def)
  moreover have "Client_ResolveDID postgres_did_store demo_p1 demo_did = (Inr demo_doc, demo_p1)"
    using did_of_row_of [of demo_doc]
    by (auto simp: demo_p1_eq Client_ResolveDID_def postgres_did_defs db_query_def next_fault_def did_of_row_def
        split: option.splits)
  ultimately show ?thesis
    by (simp add: VerifyAuth_def redis_challenge_defs redis_do_def redis_GET_def redis_DEL_def demo_prod_def
        unmarshal_marshal_challenge demo_challenge_ok)
qed

theorem failed_delete_keeps_challenge_witness:
  "prod_held (snd (prod_VerifyAuth demo_prims demo_clock (demo_prod [NoFault, FailBefore]) (demo_auth ''svc''))) demo_id
     = Some demo_challenge"
proof -
  have "rd_faults (vh_challengeStore (demo_prod [NoFault, FailBefore])) = [NoFault, FailBefore]"
    by (simp add: demo_prod_def)
  with failed_delete_keeps_challenge [OF demo_prod_reach _ surjective_pairing demo_accepts_flaky,
      of "NoFault # [NoFault, FailBefore]" "[]"] show ?thesis by simp
qed

end
