(* ===== verification/CredentialStore.thy ===== *)
theory CredentialStore
  imports DidStore Canonical
begin

text \<open>
  \<open>internal/handlers/credential_store.go\<close>: where issued credentials are kept. The Go interface
  is a record of operations; the memory store and the Postgres store are two values of it, and
  both are interpretations of the locale that states the contract of the interface over the
  records a store holds.
\<close>

section \<open>Records and the interface\<close>

record CredentialRecord =
  cr_ID :: string
  cr_IssuerDID :: string
  cr_SubjectDID :: string
  cr_Types :: "string list"
  cr_Credential :: gmap
  cr_IssuanceDate :: string
  cr_ExpirationDate :: string
  cr_CreatedAt :: string
  cr_RevokedAt :: string
  cr_RevocationReason :: string

record 's CredentialStore =
  crs_Create :: "'s \<Rightarrow> CredentialRecord \<Rightarrow> (error + unit) \<times> 's"
  crs_ListBySubject :: "'s \<Rightarrow> string \<Rightarrow> (error + CredentialRecord list) \<times> 's"
  crs_Get :: "'s \<Rightarrow> string \<Rightarrow> (error + CredentialRecord) \<times> 's"
  crs_Revoke :: "time \<Rightarrow> 's \<Rightarrow> string \<Rightarrow> string \<Rightarrow> (error + unit) \<times> 's"

section \<open>The memory store\<close>

record MemoryCredentialStore =
  credentials :: "CredentialRecord gomap"

definition NewMemoryCredentialStore :: MemoryCredentialStore where
  "NewMemoryCredentialStore = \<lparr>credentials = []\<rparr>"

definition MemoryCredentialStore_Create :: "MemoryCredentialStore \<Rightarrow> CredentialRecord
    \<Rightarrow> (error + unit) \<times> MemoryCredentialStore" where
  "MemoryCredentialStore_Create s record =
     (if gm_get (credentials s) (cr_ID record) \<noteq> None then (Inl ErrCredentialExists, s)
      else (Inr (), s\<lparr>credentials := gm_set (cr_ID record) record (credentials s)\<rparr>))"

definition MemoryCredentialStore_ListBySubject :: "MemoryCredentialStore \<Rightarrow> string
    \<Rightarrow> (error + CredentialRecord list) \<times> MemoryCredentialStore" where
  "MemoryCredentialStore_ListBySubject s did =
     (Inr (filter (\<lambda>record. cr_SubjectDID record = did) (map snd (credentials s))), s)"

definition MemoryCredentialStore_Get :: "MemoryCredentialStore \<Rightarrow> string
    \<Rightarrow> (error + CredentialRecord) \<times> MemoryCredentialStore" where
  "MemoryCredentialStore_Get s cid =
     (case gm_get (credentials s) cid of
        None \<Rightarrow> (Inl ErrCredentialNotFound, s)
      | Some record \<Rightarrow> (Inr record, s))"

definition MemoryCredentialStore_Revoke :: "time \<Rightarrow> MemoryCredentialStore \<Rightarrow> string \<Rightarrow> string
    \<Rightarrow> (error + unit) \<times> MemoryCredentialStore" where
  "MemoryCredentialStore_Revoke now s cid reason =
     (case gm_get (credentials s) cid of
        None \<Rightarrow> (Inl ErrCredentialNotFound, s)
      | Some record \<Rightarrow>
          (Inr (),
           if cr_RevokedAt record = []
           then s\<lparr>credentials := gm_set cid
                  (record\<lparr>cr_RevokedAt := FormatRFC3339 now, cr_RevocationReason := reason\<rparr>) (credentials s)\<rparr>
           else s))"

definition memory_credential_store :: "MemoryCredentialStore CredentialStore" where
  "memory_credential_store =
     \<lparr>crs_Create = MemoryCredentialStore_Create, crs_ListBySubject = MemoryCredentialStore_ListBySubject,
      crs_Get = MemoryCredentialStore_Get, crs_Revoke = MemoryCredentialStore_Revoke\<rparr>"

lemmas memory_credential_defs [store_defs] =
  memory_credential_store_def MemoryCredentialStore_Create_def MemoryCredentialStore_ListBySubject_def
  MemoryCredentialStore_Get_def MemoryCredentialStore_Revoke_def

section \<open>The Postgres store\<close>

text \<open>
  A row of the table \<open>credentials\<close>; its primary key is the identifier. The credential goes
  through a JSONB column: \<open>J m\<close> is the object that column gives back for the object \<open>m\<close>, or
  \<open>None\<close> when the server rejects it. What the server does to an object (it sorts the members,
  normalises numbers and refuses NUL characters) is outside the repository, so \<open>J\<close> is a
  parameter of the store.
\<close>

type_synonym jsonb = "gmap \<Rightarrow> gmap option"

record credential_row =
  row_issuer_did :: string
  row_subject_did :: string
  row_types :: gval
  row_credential :: gmap
  row_issuance_date :: string
  row_expiration_date :: "string option"
  row_created_at :: string
  row_revoked_at :: "string option"
  row_revocation_reason :: "string option"

type_synonym PostgresCredentialStore = "credential_row sqldb"

definition credential_row_of :: "CredentialRecord \<Rightarrow> gmap \<Rightarrow> credential_row" where
  "credential_row_of record credential =
     \<lparr>row_issuer_did = cr_IssuerDID record, row_subject_did = cr_SubjectDID record,
      row_types = strings_payload (cr_Types record), row_credential = credential,
      row_issuance_date = cr_IssuanceDate record,
      row_expiration_date = NULLIF_empty (cr_ExpirationDate record),
      row_created_at = cr_CreatedAt record, row_revoked_at = NULLIF_empty (cr_RevokedAt record),
      row_revocation_reason = NULLIF_empty (cr_RevocationReason record)\<rparr>"

definition insert_credential :: "jsonb \<Rightarrow> CredentialRecord \<Rightarrow> credential_row gomap
    \<Rightarrow> error + (nat \<times> credential_row gomap)" where
  "insert_credential J record rows =
     (case J (cr_Credential record) of
        None \<Rightarrow> Inl ErrDB
      | Some credential \<Rightarrow> sql_insert (cr_ID record) (credential_row_of record credential) rows)"

definition PostgresCredentialStore_Create :: "jsonb \<Rightarrow> PostgresCredentialStore \<Rightarrow> CredentialRecord
    \<Rightarrow> (error + unit) \<times> PostgresCredentialStore" where
  "PostgresCredentialStore_Create J s record =
     (case db_exec (insert_credential J record) s of
        (Inl e, s') \<Rightarrow> (Inl (if isUniqueViolation e then ErrCredentialExists else e), s')
      | (Inr _, s') \<Rightarrow> (Inr (), s'))"

definition scanCredentialRecord :: "string \<Rightarrow> credential_row \<Rightarrow> CredentialRecord option" where
  "scanCredentialRecord cid row =
     (case unmarshal_context (row_types row) of
        None \<Rightarrow> None
      | Some types \<Rightarrow>
          Some \<lparr>cr_ID = cid, cr_IssuerDID = row_issuer_did row, cr_SubjectDID = row_subject_did row,
            cr_Types = types, cr_Credential = row_credential row, cr_IssuanceDate = row_issuance_date row,
            cr_ExpirationDate = text_or_empty (row_expiration_date row), cr_CreatedAt = row_created_at row,
            cr_RevokedAt = text_or_empty (row_revoked_at row),
            cr_RevocationReason = text_or_empty (row_revocation_reason row)\<rparr>)"

text \<open>Rows of equal \<open>created_at\<close> come in an order the server chooses: that of the table here.\<close>

definition select_by_subject :: "string \<Rightarrow> credential_row gomap \<Rightarrow> credential_row gomap" where
  "select_by_subject did rows =
     rev (sort_key (row_created_at \<circ> snd) (filter (\<lambda>(cid, row). row_subject_did row = did) rows))"

definition PostgresCredentialStore_ListBySubject :: "PostgresCredentialStore \<Rightarrow> string
    \<Rightarrow> (error + CredentialRecord list) \<times> PostgresCredentialStore" where
  "PostgresCredentialStore_ListBySubject s did =
     (case db_query (select_by_subject did) s of
        (Inl e, s') \<Rightarrow> (Inl e, s')
      | (Inr rows, s') \<Rightarrow>
          (case those (map (\<lambda>(cid, row). scanCredentialRecord cid row) rows) of
             None \<Rightarrow> (Inl (ErrOther ''unmarshal''), s')
           | Some records \<Rightarrow> (Inr records, s')))"

definition PostgresCredentialStore_Get :: "PostgresCredentialStore \<Rightarrow> string
    \<Rightarrow> (error + CredentialRecord) \<times> PostgresCredentialStore" where
  "PostgresCredentialStore_Get s cid =
     (case db_query (\<lambda>rows. gm_get rows cid) s of
        (Inl e, s') \<Rightarrow> (Inl e, s')
      | (Inr None, s') \<Rightarrow> (Inl ErrCredentialNotFound, s')
      | (Inr (Some row), s') \<Rightarrow>
          (case scanCredentialRecord cid row of
             None \<Rightarrow> (Inl (ErrOther ''unmarshal''), s')
           | Some record \<Rightarrow> (Inr record, s')))"

definition revoke_row :: "time \<Rightarrow> string \<Rightarrow> credential_row \<Rightarrow> credential_row" where
  "revoke_row now reason row =
     row\<lparr>row_revoked_at := COALESCE (row_revoked_at row) (Some (FormatRFC3339 now)),
         row_revocation_reason := COALESCE (row_revocation_reason row) (NULLIF_empty reason)\<rparr>"

definition PostgresCredentialStore_Revoke :: "time \<Rightarrow> PostgresCredentialStore \<Rightarrow> string \<Rightarrow> string
    \<Rightarrow> (error + unit) \<times> PostgresCredentialStore" where
  "PostgresCredentialStore_Revoke now s cid reason =
     (case db_exec (sql_update cid (revoke_row now reason)) s of
        (Inl e, s') \<Rightarrow> (Inl e, s')
      | (Inr n, s') \<Rightarrow> (if n = 0 then Inl ErrCredentialNotFound else Inr (), s'))"

definition postgres_credential_store :: "jsonb \<Rightarrow> PostgresCredentialStore CredentialStore" where
  "postgres_credential_store J =
     \<lparr>crs_Create = PostgresCredentialStore_Create J, crs_ListBySubject = PostgresCredentialStore_ListBySubject,
      crs_Get = PostgresCredentialStore_Get, crs_Revoke = PostgresCredentialStore_Revoke\<rparr>"

lemmas postgres_credential_defs [store_defs] =
  postgres_credential_store_def PostgresCredentialStore_Create_def PostgresCredentialStore_ListBySubject_def
  PostgresCredentialStore_Get_def PostgresCredentialStore_Revoke_def

section \<open>The contract of the interface\<close>

text \<open>A revocation keeps the time of an earlier one; the stores differ in the reason they keep.\<close>

definition revoked_record :: "time \<Rightarrow> string \<Rightarrow> CredentialRecord \<Rightarrow> CredentialRecord" where
  "revoked_record now why record =
     record\<lparr>cr_RevokedAt := (if cr_RevokedAt record = [] then FormatRFC3339 now else cr_RevokedAt record),
            cr_RevocationReason := why\<rparr>"

text \<open>
  \<open>view s\<close> are the records of a store by identifier; \<open>stored\<close> gives the record that is kept for
  one that is created, which differs at most in the representation of the credential.
\<close>

locale credential_store =
  fixes ops :: "'s CredentialStore"
    and view :: "'s \<Rightarrow> string \<Rightarrow> CredentialRecord option"
    and inv :: "'s \<Rightarrow> bool"
    and stored :: "CredentialRecord \<Rightarrow> CredentialRecord option"
  assumes view_ID: "inv s \<Longrightarrow> view s i = Some rec \<Longrightarrow> cr_ID rec = i"
    and stored_fields: "stored rec = Some rec' \<Longrightarrow> rec' = rec\<lparr>cr_Credential := cr_Credential rec'\<rparr>"
    and Create_law: "inv s \<Longrightarrow> crs_Create ops s rec = (ru, s') \<Longrightarrow>
      inv s'
      \<and> (view s' = view s \<or> view s (cr_ID rec) = None
            \<and> (\<exists>rec'. stored rec = Some rec' \<and> view s' = (view s)(cr_ID rec \<mapsto> rec')))
      \<and> (ru = Inr () \<longrightarrow> view s (cr_ID rec) = None
            \<and> (\<exists>rec'. stored rec = Some rec' \<and> view s' = (view s)(cr_ID rec \<mapsto> rec')))
      \<and> (ru = Inl ErrCredentialExists \<longrightarrow> view s (cr_ID rec) \<noteq> None)"
    and List_law: "inv s \<Longrightarrow> crs_ListBySubject ops s did = (rl, s') \<Longrightarrow>
      inv s' \<and> view s' = view s
      \<and> (\<forall>rs. rl = Inr rs \<longrightarrow> distinct (map cr_ID rs)
            \<and> set rs = {rec. \<exists>i. view s i = Some rec \<and> cr_SubjectDID rec = did})"
    and Get_law: "inv s \<Longrightarrow> crs_Get ops s i = (rg, s') \<Longrightarrow>
      inv s' \<and> view s' = view s \<and> (\<forall>rec. rg = Inr rec \<longrightarrow> view s i = Some rec)
      \<and> (rg = Inl ErrCredentialNotFound \<longrightarrow> view s i = None)"
    and Revoke_law: "inv s \<Longrightarrow> crs_Revoke ops now s i reason = (ru, s') \<Longrightarrow>
      inv s'
      \<and> (view s' = view s
          \<or> (\<exists>rec why. view s i = Some rec \<and> view s' = (view s)(i \<mapsto> revoked_record now why rec)))
      \<and> (ru = Inr () \<longrightarrow>
            (\<exists>rec why. view s i = Some rec \<and> view s' = (view s)(i \<mapsto> revoked_record now why rec)))
      \<and> (ru = Inl ErrCredentialNotFound \<longrightarrow> view s i = None)"

locale reliable_credential_store = credential_store +
  assumes Create_ok: "inv s \<Longrightarrow> stored rec = Some rec' \<Longrightarrow> crs_Create ops s rec = (ru, s') \<Longrightarrow>
      ru = (if view s (cr_ID rec) = None then Inr () else Inl ErrCredentialExists)"
    and List_ok: "inv s \<Longrightarrow> crs_ListBySubject ops s did = (rl, s') \<Longrightarrow> \<exists>rs. rl = Inr rs"
    and Get_ok: "inv s \<Longrightarrow> crs_Get ops s i = (rg, s') \<Longrightarrow>
      rg = (case view s i of None \<Rightarrow> Inl ErrCredentialNotFound | Some rec \<Rightarrow> Inr rec)"
    and Revoke_ok: "inv s \<Longrightarrow> crs_Revoke ops now s i reason = (ru, s') \<Longrightarrow>
      ru = (if view s i = None then Inl ErrCredentialNotFound else Inr ())"

subsection \<open>The memory store keeps it\<close>

definition crmem_view :: "MemoryCredentialStore \<Rightarrow> string \<Rightarrow> CredentialRecord option" where
  "crmem_view s = map_of (credentials s)"

definition crmem_inv :: "MemoryCredentialStore \<Rightarrow> bool" where
  "crmem_inv s \<longleftrightarrow> gm_wf (credentials s) \<and> (\<forall>i rec. map_of (credentials s) i = Some rec \<longrightarrow> cr_ID rec = i)"

lemma records_of_map:
  assumes wf: "gm_wf m" and id: "\<And>i rec. map_of m i = Some rec \<Longrightarrow> cr_ID rec = i"
  shows "distinct (map cr_ID (filter Q (map snd m)))"
    and "set (filter Q (map snd m)) = {rec. \<exists>i. map_of m i = Some rec \<and> Q rec}"
proof -
  have "map cr_ID (map snd m) = map fst m"
    using id gm_get_in_set [OF wf] by (auto simp: case_prod_beta)
  then show "distinct (map cr_ID (filter Q (map snd m)))" using wf by (metis distinct_map_filter)
  show "set (filter Q (map snd m)) = {rec. \<exists>i. map_of m i = Some rec \<and> Q rec}"
    using gm_get_in_set [OF wf] by force
qed

lemma crmem_List:
  assumes "crmem_inv s" "crs_ListBySubject memory_credential_store s did = (rl, s')"
  shows "crmem_inv s' \<and> crmem_view s' = crmem_view s
      \<and> (\<forall>rs. rl = Inr rs \<longrightarrow> distinct (map cr_ID rs)
            \<and> set rs = {rec. \<exists>i. crmem_view s i = Some rec \<and> cr_SubjectDID rec = did})"
  using assms records_of_map [of "credentials s" "\<lambda>rec. cr_SubjectDID rec = did"]
  by (auto simp: memory_credential_defs crmem_inv_def crmem_view_def)

lemma crmem_Revoke:
  assumes inv: "crmem_inv s" and rv: "crs_Revoke memory_credential_store now s i reason = (ru, s')"
  shows "crmem_inv s'
      \<and> (crmem_view s' = crmem_view s
          \<or> (\<exists>rec why. crmem_view s i = Some rec \<and> crmem_view s' = (crmem_view s)(i \<mapsto> revoked_record now why rec)))
      \<and> (ru = Inr () \<longrightarrow>
            (\<exists>rec why. crmem_view s i = Some rec \<and> crmem_view s' = (crmem_view s)(i \<mapsto> revoked_record now why rec)))
      \<and> (ru = Inl ErrCredentialNotFound \<longrightarrow> crmem_view s i = None)"
proof (cases "map_of (credentials s) i")
  case None
  then show ?thesis using assms by (auto simp: memory_credential_defs crmem_view_def)
next
  case (Some rec)
  show ?thesis
  proof (cases "cr_RevokedAt rec = []")
    case True
    then have "s' = s\<lparr>credentials := gm_set i (revoked_record now reason rec) (credentials s)\<rparr>" "ru = Inr ()"
      using rv Some by (auto simp: memory_credential_defs revoked_record_def)
    then show ?thesis using inv Some by (auto simp: crmem_inv_def crmem_view_def revoked_record_def)
  next
    case False
    then have "s' = s" "ru = Inr ()" using rv Some by (auto simp: memory_credential_defs)
    moreover have "revoked_record now (cr_RevocationReason rec) rec = rec"
      using False by (simp add: revoked_record_def)
    ultimately show ?thesis using inv Some unfolding crmem_view_def by (metis fun_upd_triv sum.distinct(1))
  qed
qed

interpretation memcred: reliable_credential_store memory_credential_store crmem_view crmem_inv Some
proof (unfold_locales, goal_cases)
  case (4 s did rl s')
  then show ?case by (rule crmem_List)
next
  case (6 s now i reason ru s')
  then show ?case by (rule crmem_Revoke)
qed (auto simp: memory_credential_defs crmem_inv_def crmem_view_def split: option.splits if_splits)

subsection \<open>The Postgres store keeps it\<close>

definition crpg_view :: "PostgresCredentialStore \<Rightarrow> string \<Rightarrow> CredentialRecord option" where
  "crpg_view s i = Option.bind (gm_get (sql_rows s) i) (scanCredentialRecord i)"

text \<open>Every row can be read back, and an empty text is stored as NULL.\<close>

definition crpg_inv :: "PostgresCredentialStore \<Rightarrow> bool" where
  "crpg_inv s \<longleftrightarrow> db_wf s \<and> (\<forall>i row. gm_get (sql_rows s) i = Some row \<longrightarrow>
     unmarshal_context (row_types row) \<noteq> None \<and> row_revoked_at row \<noteq> Some [] \<and> row_revocation_reason row \<noteq> Some [])"

definition crpg_stored :: "jsonb \<Rightarrow> CredentialRecord \<Rightarrow> CredentialRecord option" where
  "crpg_stored J rec = map_option (\<lambda>c. rec\<lparr>cr_Credential := c\<rparr>) (J (cr_Credential rec))"

lemma crpg_same: "sql_rows s' = sql_rows s \<Longrightarrow> crpg_view s' = crpg_view s \<and> crpg_inv s' = crpg_inv s"
  by (simp add: crpg_view_def fun_eq_iff crpg_inv_def db_wf_def)

lemma crpg_scans:
  assumes "crpg_inv s" "gm_get (sql_rows s) i = Some row"
  obtains rec where "scanCredentialRecord i row = Some rec"
proof -
  obtain types where "unmarshal_context (row_types row) = Some types" using assms by (auto simp: crpg_inv_def)
  then show thesis using that by (simp add: scanCredentialRecord_def)
qed

lemma crpg_view_None: "crpg_inv s \<Longrightarrow> crpg_view s i = None \<longleftrightarrow> gm_get (sql_rows s) i = None"
  by (cases "gm_get (sql_rows s) i") (auto simp: crpg_view_def elim: crpg_scans)

lemma scan_ID: "scanCredentialRecord i row = Some rec \<Longrightarrow> cr_ID rec = i"
  by (auto simp: scanCredentialRecord_def split: option.splits)

lemma scan_subject: "scanCredentialRecord i row = Some rec \<Longrightarrow> cr_SubjectDID rec = row_subject_did row"
  by (auto simp: scanCredentialRecord_def split: option.splits)

lemma crpg_view_iff:
  "crpg_view s i = Some rec \<longleftrightarrow> (\<exists>row. gm_get (sql_rows s) i = Some row \<and> scanCredentialRecord i row = Some rec)"
  by (simp add: crpg_view_def bind_eq_Some_conv)

lemma text_NULLIF [simp]: "text_or_empty (NULLIF_empty s) = s" "NULLIF_empty s \<noteq> Some []"
  by (simp_all add: NULLIF_empty_def text_or_empty_def)

lemma scan_row_of [simp]:
  "scanCredentialRecord (cr_ID rec) (credential_row_of rec c) = Some (rec\<lparr>cr_Credential := c\<rparr>)"
  by (simp add: scanCredentialRecord_def credential_row_of_def)

lemma row_of_fields [simp]:
  "row_types (credential_row_of rec c) = strings_payload (cr_Types rec)"
  "row_revoked_at (credential_row_of rec c) = NULLIF_empty (cr_RevokedAt rec)"
  "row_revocation_reason (credential_row_of rec c) = NULLIF_empty (cr_RevocationReason rec)"
  by (simp_all add: credential_row_of_def)

lemma insert_credential_paths:
  assumes ex: "db_exec (insert_credential J rec) s = (r, s')" and inv: "crpg_inv s"
  shows "crpg_inv s'"
    and "crpg_view s' = crpg_view s \<or> crpg_view s (cr_ID rec) = None
          \<and> (\<exists>rec'. crpg_stored J rec = Some rec' \<and> crpg_view s' = (crpg_view s)(cr_ID rec \<mapsto> rec'))"
    and "r = Inr n \<Longrightarrow> crpg_view s (cr_ID rec) = None
          \<and> (\<exists>rec'. crpg_stored J rec = Some rec' \<and> crpg_view s' = (crpg_view s)(cr_ID rec \<mapsto> rec'))"
    and "r = Inl e \<Longrightarrow> isUniqueViolation e \<Longrightarrow> crpg_view s (cr_ID rec) \<noteq> None"
    and "r = Inl e \<Longrightarrow> e \<noteq> ErrCredentialExists"
proof -
  have "crpg_inv s'
    \<and> (crpg_view s' = crpg_view s \<or> crpg_view s (cr_ID rec) = None
          \<and> (\<exists>rec'. crpg_stored J rec = Some rec' \<and> crpg_view s' = (crpg_view s)(cr_ID rec \<mapsto> rec')))
    \<and> (\<forall>n. r = Inr n \<longrightarrow> crpg_view s (cr_ID rec) = None
          \<and> (\<exists>rec'. crpg_stored J rec = Some rec' \<and> crpg_view s' = (crpg_view s)(cr_ID rec \<mapsto> rec')))"
  proof (cases "J (cr_Credential rec)")
    case None
    then have "sql_rows s' = sql_rows s" "\<And>n. r \<noteq> Inr n"
      using ex by (auto simp: db_exec_def insert_credential_def Let_def split: prod.splits db_fault.splits)
    then show ?thesis using crpg_same [of s' s] inv by blast
  next
    case (Some c)
    let ?row = "credential_row_of rec c"
    have "db_exec (sql_insert (cr_ID rec) ?row) s = (r, s')"
      using ex Some by (simp add: insert_credential_def [abs_def])
    note rows = db_exec_insert [OF this]
    have set: "crpg_inv s' \<and> crpg_stored J rec = Some (rec\<lparr>cr_Credential := c\<rparr>)
        \<and> crpg_view s' = (crpg_view s)(cr_ID rec \<mapsto> rec\<lparr>cr_Credential := c\<rparr>)"
      if "sql_rows s' = gm_set (cr_ID rec) ?row (sql_rows s)"
      using that inv Some
      by (auto simp: crpg_inv_def db_wf_def crpg_view_def crpg_stored_def fun_eq_iff)
    show ?thesis using rows set crpg_same [of s' s] inv crpg_view_None [OF inv] by metis
  qed
  then show "crpg_inv s'" "crpg_view s' = crpg_view s \<or> crpg_view s (cr_ID rec) = None
          \<and> (\<exists>rec'. crpg_stored J rec = Some rec' \<and> crpg_view s' = (crpg_view s)(cr_ID rec \<mapsto> rec'))"
    "r = Inr n \<Longrightarrow> crpg_view s (cr_ID rec) = None
          \<and> (\<exists>rec'. crpg_stored J rec = Some rec' \<and> crpg_view s' = (crpg_view s)(cr_ID rec \<mapsto> rec'))"
    by blast+
  show "r = Inl e \<Longrightarrow> isUniqueViolation e \<Longrightarrow> crpg_view s (cr_ID rec) \<noteq> None"
    using ex crpg_view_None [OF inv]
    by (auto simp: db_exec_def insert_credential_def sql_insert_def Let_def isUniqueViolation_def
        split: prod.splits db_fault.splits option.splits if_splits sum.splits)
  show "r = Inl e \<Longrightarrow> e \<noteq> ErrCredentialExists"
    using ex
    by (auto simp: db_exec_def insert_credential_def sql_insert_def Let_def
        split: prod.splits db_fault.splits option.splits if_splits sum.splits)
qed

lemma scan_revoke_row:
  assumes "scanCredentialRecord i row = Some rec" "row_revoked_at row \<noteq> Some []"
  shows "scanCredentialRecord i (revoke_row now reason row) =
      Some (revoked_record now (text_or_empty (COALESCE (row_revocation_reason row) (NULLIF_empty reason))) rec)"
  using assms
  by (auto simp: scanCredentialRecord_def revoke_row_def revoked_record_def COALESCE_def text_or_empty_def
      split: option.splits)

lemma crpg_Revoke:
  assumes inv: "crpg_inv s" and rv: "crs_Revoke (postgres_credential_store J) now s i reason = (ru, s')"
  shows "crpg_inv s'
      \<and> (crpg_view s' = crpg_view s
          \<or> (\<exists>rec why. crpg_view s i = Some rec \<and> crpg_view s' = (crpg_view s)(i \<mapsto> revoked_record now why rec)))
      \<and> (ru = Inr () \<longrightarrow>
            (\<exists>rec why. crpg_view s i = Some rec \<and> crpg_view s' = (crpg_view s)(i \<mapsto> revoked_record now why rec)))
      \<and> (ru = Inl ErrCredentialNotFound \<longrightarrow> crpg_view s i = None)"
proof -
  obtain q where ex: "db_exec (sql_update i (revoke_row now reason)) s = (q, s')"
    and r: "ru = (case q of Inl e \<Rightarrow> Inl e | Inr n \<Rightarrow> if n = 0 then Inl ErrCredentialNotFound else Inr ())"
    using rv by (auto simp: postgres_credential_defs split: prod.splits sum.splits)
  note rows = db_exec_update [OF ex]
  have ne: "q \<noteq> Inl ErrCredentialNotFound"
    using ex by (auto simp: db_exec_def sql_update_def Let_def split: prod.splits db_fault.splits option.splits)
  have set: "crpg_inv s' \<and> (\<exists>rec why. crpg_view s i = Some rec \<and> crpg_view s' = (crpg_view s)(i \<mapsto> revoked_record now why rec))"
    if row: "gm_get (sql_rows s) i = Some row" and s': "sql_rows s' = gm_set i (revoke_row now reason row) (sql_rows s)" for row
  proof -
    have ok: "unmarshal_context (row_types row) \<noteq> None" "row_revoked_at row \<noteq> Some []"
      "row_revocation_reason row \<noteq> Some []"
      using inv row by (auto simp: crpg_inv_def)
    then obtain rec where rec: "scanCredentialRecord i row = Some rec" by (auto simp: scanCredentialRecord_def)
    have "crpg_inv s'" using inv ok s'
      by (auto simp: crpg_inv_def db_wf_def revoke_row_def COALESCE_def split: option.splits)
    then show ?thesis
      using scan_revoke_row [OF rec ok(2)] row s' rec by (auto simp: crpg_view_def fun_eq_iff)
  qed
  show ?thesis
  proof (cases "\<exists>n. q = Inr n \<and> n \<noteq> 0")
    case True
    then show ?thesis using rows(2) set r by auto
  next
    case False
    then have "ru = Inl ErrCredentialNotFound \<Longrightarrow> crpg_view s i = None" "ru \<noteq> Inr ()"
      using r ne rows(3) crpg_view_None [OF inv] by (auto split: sum.splits if_splits)
    then show ?thesis using rows(1) set crpg_same [of s' s] inv by auto
  qed
qed

lemma crpg_Get:
  assumes inv: "crpg_inv s" and gt: "crs_Get (postgres_credential_store J) s i = (rg, s')"
  shows "crpg_inv s' \<and> crpg_view s' = crpg_view s \<and> (\<forall>rec. rg = Inr rec \<longrightarrow> crpg_view s i = Some rec)
      \<and> (rg = Inl ErrCredentialNotFound \<longrightarrow> crpg_view s i = None)"
proof -
  obtain q where q: "db_query (\<lambda>rows. gm_get rows i) s = (q, s')"
    and r: "rg = (case q of Inl e \<Rightarrow> Inl e | Inr None \<Rightarrow> Inl ErrCredentialNotFound
        | Inr (Some row) \<Rightarrow> (case scanCredentialRecord i row of None \<Rightarrow> Inl (ErrOther ''unmarshal'') | Some rec \<Rightarrow> Inr rec))"
    using gt by (auto simp: postgres_credential_defs split: prod.splits sum.splits option.splits)
  have ne: "q \<noteq> Inl ErrCredentialNotFound" using q by (auto simp: db_query_def Let_def split: prod.splits if_splits)
  show ?thesis
    using db_query_rows [OF q] crpg_same [of s' s] inv r ne
    by (auto simp: crpg_view_def split: sum.splits option.splits)
qed

lemma crpg_records:
  assumes inv: "crpg_inv s"
    and rs: "those (map (\<lambda>(i, row). scanCredentialRecord i row) (select_by_subject did (sql_rows s))) = Some rs"
  shows "distinct (map cr_ID rs) \<and> set rs = {rec. \<exists>i. crpg_view s i = Some rec \<and> cr_SubjectDID rec = did}"
proof -
  let ?S = "select_by_subject did (sql_rows s)"
  have wf: "gm_wf (sql_rows s)" using inv by (simp add: crpg_inv_def db_wf_def)
  have m: "map (\<lambda>(i, row). scanCredentialRecord i row) ?S = map Some rs" using rs by (simp add: those_Some_iff)
  have S: "(i, row) \<in> set ?S \<longleftrightarrow> gm_get (sql_rows s) i = Some row \<and> row_subject_did row = did" for i row
    using gm_get_in_set [OF wf] by (auto simp: select_by_subject_def)
  have "map cr_ID rs = map (cr_ID \<circ> the) (map Some rs)" by simp
  also have "\<dots> = map fst ?S"
    unfolding m [symmetric] map_map
  proof (rule map_cong [OF refl])
    fix x assume "x \<in> set ?S"
    then have "(\<lambda>(i, row). scanCredentialRecord i row) x \<in> set (map Some rs)" unfolding m [symmetric] by simp
    then obtain rec where "scanCredentialRecord (fst x) (snd x) = Some rec" by (auto simp: case_prod_beta)
    then show "(cr_ID \<circ> the \<circ> (\<lambda>(i, row). scanCredentialRecord i row)) x = fst x"
      using scan_ID by (simp add: case_prod_beta)
  qed
  finally have ids: "map cr_ID rs = map fst ?S" .
  have "distinct (map fst ?S)"
    using wf by (simp add: select_by_subject_def rev_map [symmetric] distinct_map_filter)
  moreover have "rec \<in> set rs \<longleftrightarrow> (\<exists>i. crpg_view s i = Some rec \<and> cr_SubjectDID rec = did)" for rec
  proof -
    have "rec \<in> set rs \<longleftrightarrow> Some rec \<in> set (map Some rs)" by auto
    also have "\<dots> \<longleftrightarrow> (\<exists>i row. (i, row) \<in> set ?S \<and> scanCredentialRecord i row = Some rec)"
      unfolding m [symmetric] by force
    also have "\<dots> \<longleftrightarrow> (\<exists>i. crpg_view s i = Some rec \<and> cr_SubjectDID rec = did)"
      unfolding S crpg_view_iff by (metis scan_subject)
    finally show ?thesis .
  qed
  ultimately show ?thesis using ids by auto
qed

lemma crpg_List:
  assumes inv: "crpg_inv s" and ls: "crs_ListBySubject (postgres_credential_store J) s did = (rl, s')"
  shows "crpg_inv s' \<and> crpg_view s' = crpg_view s
      \<and> (\<forall>rs. rl = Inr rs \<longrightarrow> distinct (map cr_ID rs)
            \<and> set rs = {rec. \<exists>i. crpg_view s i = Some rec \<and> cr_SubjectDID rec = did})"
proof -
  obtain q where q: "db_query (select_by_subject did) s = (q, s')"
    and r: "\<And>rs. rl = Inr rs \<Longrightarrow> \<exists>rows. q = Inr rows
        \<and> those (map (\<lambda>(i, row). scanCredentialRecord i row) rows) = Some rs"
    using ls by (auto simp: postgres_credential_defs split: prod.splits sum.splits option.splits)
  have "distinct (map cr_ID rs) \<and> set rs = {rec. \<exists>i. crpg_view s i = Some rec \<and> cr_SubjectDID rec = did}"
    if "rl = Inr rs" for rs
  proof -
    obtain rows where rows: "q = Inr rows" "those (map (\<lambda>(i, row). scanCredentialRecord i row) rows) = Some rs"
      using r [OF \<open>rl = Inr rs\<close>] by blast
    from rows(2) show ?thesis
      unfolding db_query_rows(2) [OF q rows(1)] by (rule crpg_records [OF inv])
  qed
  moreover have "crpg_inv s' \<and> crpg_view s' = crpg_view s"
    using db_query_rows(1) [OF q] crpg_same [of s' s] inv by blast
  ultimately show ?thesis by blast
qed

interpretation pgcred: credential_store "postgres_credential_store J" crpg_view crpg_inv "crpg_stored J" for J
proof (unfold_locales, goal_cases)
  case (1 s i rec)
  then show ?case using scan_ID by (auto simp: crpg_view_def split: bind_splits)
next
  case (2 rec rec')
  then show ?case by (auto simp: crpg_stored_def)
next
  case (3 s rec ru s')
  then obtain q where q: "db_exec (insert_credential J rec) s = (q, s')"
    and r: "ru = (case q of Inl e \<Rightarrow> Inl (if isUniqueViolation e then ErrCredentialExists else e) | Inr n \<Rightarrow> Inr ())"
    by (auto simp: postgres_credential_defs split: prod.splits sum.splits)
  note paths = insert_credential_paths [OF q 3(1)]
  show ?case using paths r by (auto split: sum.splits if_splits)
next
  case (4 s did rl s')
  then show ?case by (rule crpg_List)
next
  case (5 s i rg s')
  then show ?case by (rule crpg_Get)
next
  case (6 s now i reason ru s')
  then show ?case by (rule crpg_Revoke)
qed

text \<open>While its driver reports no failure the Postgres store is reliable.\<close>

definition crpg_quiet :: "PostgresCredentialStore \<Rightarrow> bool" where
  "crpg_quiet s \<longleftrightarrow> crpg_inv s \<and> sql_faults s = []"

lemma crpg_quiet_faults:
  assumes "sql_faults s = []"
  shows "crs_Create (postgres_credential_store J) s rec = (ru, s') \<Longrightarrow> sql_faults s' = []"
    and "crs_ListBySubject (postgres_credential_store J) s did = (rl, s') \<Longrightarrow> sql_faults s' = []"
    and "crs_Get (postgres_credential_store J) s i = (rg, s') \<Longrightarrow> sql_faults s' = []"
    and "crs_Revoke (postgres_credential_store J) now s i reason = (rv, s') \<Longrightarrow> sql_faults s' = []"
  using assms
  by (auto simp: postgres_credential_defs db_query_ok Let_def dest: db_exec_faults_nil
      split: option.splits if_splits prod.splits sum.splits)

interpretation pgcredq: reliable_credential_store "postgres_credential_store J" crpg_view crpg_quiet "crpg_stored J" for J
proof (unfold_locales, goal_cases)
  case (1 s i rec)
  then show ?case using pgcred.view_ID [of s i rec] by (simp add: crpg_quiet_def)
next
  case (2 rec rec')
  then show ?case by (rule pgcred.stored_fields)
next
  case (3 s rec ru s')
  then show ?case using pgcred.Create_law [of s J rec ru s'] crpg_quiet_faults(1) [of s J rec ru s']
    by (simp add: crpg_quiet_def)
next
  case (4 s did rl s')
  then show ?case using pgcred.List_law [of s J did rl s'] crpg_quiet_faults(2) [of s J did rl s']
    by (simp add: crpg_quiet_def)
next
  case (5 s i rg s')
  then show ?case using pgcred.Get_law [of s J i rg s'] crpg_quiet_faults(3) [of s J i rg s']
    by (simp add: crpg_quiet_def)
next
  case (6 s now i reason ru s')
  then show ?case using pgcred.Revoke_law [of s J now i reason ru s'] crpg_quiet_faults(4) [of s J now i reason ru s']
    by (simp add: crpg_quiet_def)
next
  case (7 s rec rec' ru s')
  then show ?case using crpg_view_None [of s "cr_ID rec"]
    by (auto simp: crpg_quiet_def postgres_credential_defs db_exec_ok insert_credential_def sql_insert_def
        crpg_stored_def isUniqueViolation_def unique_violation_def)
next
  case (8 s did rl s')
  let ?S = "select_by_subject did (sql_rows s)"
  have "\<exists>rs. those (map (\<lambda>(i, row). scanCredentialRecord i row) ?S) = Some rs"
  proof -
    have "scanCredentialRecord i row \<noteq> None" if "(i, row) \<in> set ?S" for i row
    proof -
      have "gm_get (sql_rows s) i = Some row"
        using that 8(1) gm_get_in_set [of "sql_rows s" i row]
        by (auto simp: select_by_subject_def crpg_quiet_def crpg_inv_def db_wf_def)
      then show ?thesis using 8(1) by (auto simp: crpg_quiet_def elim: crpg_scans)
    qed
    then have "map (\<lambda>(i, row). scanCredentialRecord i row) ?S = map Some (map (\<lambda>(i, row). the (scanCredentialRecord i row)) ?S)"
      by (auto simp: case_prod_beta)
    then show ?thesis unfolding those_Some_iff by blast
  qed
  then show ?case using 8 by (auto simp: crpg_quiet_def postgres_credential_defs db_query_ok)
next
  case (9 s i rg s')
  show ?case
  proof (cases "gm_get (sql_rows s) i")
    case None
    then show ?thesis using 9 by (auto simp: crpg_quiet_def postgres_credential_defs db_query_ok crpg_view_def)
  next
    case (Some row)
    then obtain rec where "scanCredentialRecord i row = Some rec" using 9(1) by (auto simp: crpg_quiet_def elim: crpg_scans)
    then show ?thesis using 9 Some by (auto simp: crpg_quiet_def postgres_credential_defs db_query_ok crpg_view_def)
  qed
next
  case (10 s now i reason ru s')
  then show ?case using crpg_view_None [of s i]
    by (auto simp: crpg_quiet_def postgres_credential_defs db_exec_ok sql_update_def split: option.splits)
qed

end
