(* ===== verification/CredentialHandler.thy ===== *)
theory CredentialHandler
  imports CredentialStore DidHandler
begin

text \<open>
  \<open>internal/handlers/credential.go\<close>: issuing, listing, revoking and verifying credentials. The
  handlers are functions of the two store interfaces and the clock. A credential is what the
  decoder made of the body: a map to \<open>any\<close>.
\<close>

section \<open>Reading a credential\<close>

definition stringField :: "gmap \<Rightarrow> string \<Rightarrow> string \<times> bool" where
  "stringField payload key =
     (case gm_get payload key of Some (GStr value) \<Rightarrow> (value, value \<noteq> []) | _ \<Rightarrow> ([], False))"

definition issuerDID :: "gval option \<Rightarrow> string + string" where
  "issuerDID value =
     (case value of
        Some (GStr issuer) \<Rightarrow>
          if issuer \<noteq> [] then Inr issuer else Inl ''credential.issuer is required''
      | Some (GObj issuer) \<Rightarrow>
          (let (issuer_id, ok) = stringField issuer ''id''
           in if ok then Inr issuer_id else Inl ''credential.issuer is required'')
      | _ \<Rightarrow> Inl ''credential.issuer is required'')"

text \<open>The loop over the elements of \<open>type\<close>; \<open>types\<close> is what it has appended so far.\<close>

fun types_loop :: "gval list \<Rightarrow> string list \<Rightarrow> string + string list" where
  "types_loop [] types = Inr types"
| "types_loop (rawType # rest) types =
     (case rawType of
        GStr credentialType \<Rightarrow>
          if credentialType = [] then Inl ''credential.type must contain strings''
          else types_loop rest (types @ [credentialType])
      | _ \<Rightarrow> Inl ''credential.type must contain strings'')"

definition credentialTypes :: "gval option \<Rightarrow> string + string list" where
  "credentialTypes value =
     (case value of
        Some (GArr rawTypes) \<Rightarrow>
          if rawTypes = [] then Inl ''credential.type is required'' else types_loop rawTypes []
      | _ \<Rightarrow> Inl ''credential.type is required'')"

definition credentialRecordFromPayload :: "time \<Rightarrow> gmap option \<Rightarrow> string + CredentialRecord" where
  "credentialRecordFromPayload now payload =
     (case payload of
        None \<Rightarrow> Inl ''credential is required''
      | Some credential \<Rightarrow>
        let (cred_id, ok) = stringField credential ''id'' in
        if \<not> ok then Inl ''credential.id is required'' else
        case issuerDID (gm_get credential ''issuer'') of
          Inl err \<Rightarrow> Inl err
        | Inr issuer \<Rightarrow>
        case gm_get credential ''credentialSubject'' of
          Some (GObj subject) \<Rightarrow>
            let (subjectDID, ok) = stringField subject ''id'' in
            if \<not> ok then Inl ''credential.credentialSubject.id is required'' else
            (case credentialTypes (gm_get credential ''type'') of
               Inl err \<Rightarrow> Inl err
             | Inr types \<Rightarrow>
               let (issuanceDate, ok) = stringField credential ''issuanceDate'' in
               if \<not> ok then Inl ''credential.issuanceDate is required'' else
               (case ParseRFC3339 issuanceDate of
                  None \<Rightarrow> Inl ''credential.issuanceDate must be RFC3339''
                | Some issuedAt \<Rightarrow>
                  let (expirationDate, _) = stringField credential ''expirationDate'';
                      record = \<lparr>cr_ID = cred_id, cr_IssuerDID = issuer, cr_SubjectDID = subjectDID,
                        cr_Types = types, cr_Credential = credential, cr_IssuanceDate = issuanceDate,
                        cr_ExpirationDate = expirationDate, cr_CreatedAt = FormatRFC3339 now,
                        cr_RevokedAt = [], cr_RevocationReason = []\<rparr> in
                  if expirationDate \<noteq> [] then
                    (case ParseRFC3339 expirationDate of
                       None \<Rightarrow> Inl ''credential.expirationDate must be RFC3339''
                     | Some expiresAt \<Rightarrow>
                       if \<not> issuedAt < expiresAt
                       then Inl ''credential.expirationDate must be after issuanceDate''
                       else Inr record)
                  else Inr record))
        | _ \<Rightarrow> Inl ''credential.credentialSubject is required'')"

definition credentialStatus :: "CredentialRecord \<Rightarrow> time \<Rightarrow> bool \<times> string" where
  "credentialStatus record now =
     (if cr_RevokedAt record \<noteq> [] then (False, ''credential revoked'')
      else if cr_ExpirationDate record \<noteq> [] then
        (case ParseRFC3339 (cr_ExpirationDate record) of
           None \<Rightarrow> (False, ''invalid credential expiration'')
         | Some expiration \<Rightarrow>
             if \<not> now < expiration then (False, ''credential expired'') else (True, []))
      else (True, []))"

section \<open>The handlers\<close>

record ('s, 'k) CredentialHandler =
  crh_chain :: "'s Client"
  crh_store :: 'k

definition NewCredentialHandler :: "'s Client \<Rightarrow> 'k \<Rightarrow> ('s, 'k) CredentialHandler" where
  "NewCredentialHandler chain store = \<lparr>crh_chain = chain, crh_store = store\<rparr>"

text \<open>The proof of a credential, against the key the registry holds for its issuer now.\<close>

definition verifyCredentialProof :: "prims \<Rightarrow> 's DIDStore \<Rightarrow> 's Client \<Rightarrow> CredentialRecord
    \<Rightarrow> (bool \<times> string) outcome \<times> 's Client" where
  "verifyCredentialProof P dops chain record =
     (case Client_ResolveDID dops chain (cr_IssuerDID record) of
        (Inl _, c) \<Rightarrow> (Done (False, ''credential issuer DID not found''), c)
      | (Inr issuerDoc, c) \<Rightarrow>
        if doc_Deactivated issuerDoc then (Done (False, ''credential issuer DID is deactivated''), c)
        else case StdDecode (doc_PublicKeyBase64 issuerDoc) of
          None \<Rightarrow> (Done (False, ''invalid issuer public key''), c)
        | Some publicKey \<Rightarrow>
          if length publicKey \<noteq> PublicKeySize then (Done (False, ''invalid issuer public key''), c)
          else case gm_get (cr_Credential record) ''proof'' of
            Some (GObj proof_obj) \<Rightarrow>
              let (proofValue, ok) = stringField proof_obj ''proofValue'' in
              if \<not> ok then (Done (False, ''credential proofValue is required''), c) else
              let (proofType, ok) = stringField proof_obj ''type'' in
              if \<not> ok \<or> proofType \<noteq> ''Ed25519Signature2020''
              then (Done (False, ''unsupported credential proof type''), c) else
              let (proofPurpose, ok) = stringField proof_obj ''proofPurpose'' in
              if \<not> ok \<or> proofPurpose \<noteq> ''assertionMethod''
              then (Done (False, ''invalid credential proof purpose''), c) else
              let (verificationMethod, ok) = stringField proof_obj ''verificationMethod'' in
              if \<not> ok \<or> verificationMethod \<noteq> cr_IssuerDID record @ ''#keys-1''
              then (Done (False, ''invalid credential verification method''), c) else
              (case StdDecode proofValue of
                 None \<Rightarrow> (Done (False, ''invalid credential proof encoding''), c)
               | Some signature \<Rightarrow>
                 (case canonicalCredential P (cr_Credential record) of
                    None \<Rightarrow> (Done (False, ''invalid credential payload''), c)
                  | Some message \<Rightarrow>
                    (case ed25519_Verify P publicKey message signature of
                       Panic \<Rightarrow> (Panic, c)
                     | Done False \<Rightarrow> (Done (False, ''invalid credential proof''), c)
                     | Done True \<Rightarrow> (Done (True, []), c))))
          | _ \<Rightarrow> (Done (False, ''credential proof is required''), c))"

text \<open>The JSON form of a record; \<open>omitempty\<close> leaves empty members out.\<close>

definition omitempty :: "string \<Rightarrow> string \<Rightarrow> (string \<times> gval) list" where
  "omitempty key value = (if value = [] then [] else [(key, GStr value)])"

definition record_payload :: "CredentialRecord \<Rightarrow> gval" where
  "record_payload record = GObj
     ([(''id'', GStr (cr_ID record)), (''issuer'', GStr (cr_IssuerDID record)),
       (''subject'', GStr (cr_SubjectDID record)), (''types'', strings_payload (cr_Types record)),
       (''credential'', GObj (cr_Credential record)), (''issuanceDate'', GStr (cr_IssuanceDate record))]
      @ omitempty ''expirationDate'' (cr_ExpirationDate record)
      @ [(''createdAt'', GStr (cr_CreatedAt record))]
      @ omitempty ''revokedAt'' (cr_RevokedAt record)
      @ omitempty ''revocationReason'' (cr_RevocationReason record))"

definition CredentialHandler_ListByDID :: "'k CredentialStore \<Rightarrow> ('s, 'k) CredentialHandler \<Rightarrow> string
    \<Rightarrow> ('s, 'k) CredentialHandler handled" where
  "CredentialHandler_ListByDID kops h did =
     (case crs_ListBySubject kops (crh_store h) did of
        (Inl _, s) \<Rightarrow> (Done (Error StatusInternalServerError ''failed to list credentials''), h\<lparr>crh_store := s\<rparr>)
      | (Inr records, s) \<Rightarrow>
          (Done (JSON StatusOK (GObj [(''did'', GStr did), (''credentials'', GArr (map record_payload records))])),
           h\<lparr>crh_store := s\<rparr>))"

record IssueRequest =
  iss_Credential :: "gmap option"

definition decode_issue :: "prims \<Rightarrow> json option \<Rightarrow> IssueRequest option" where
  "decode_issue P body =
     Decode [(''credential'', map_field P iss_Credential_update iss_Credential)] body \<lparr>iss_Credential = None\<rparr>"

definition CredentialHandler_Issue :: "prims \<Rightarrow> 's DIDStore \<Rightarrow> 'k CredentialStore \<Rightarrow> clock
    \<Rightarrow> ('s, 'k) CredentialHandler \<Rightarrow> json option \<Rightarrow> ('s, 'k) CredentialHandler handled" where
  "CredentialHandler_Issue P dops kops clk h body =
     (case decode_issue P body of
        None \<Rightarrow> (Done (Error StatusBadRequest ''invalid request body''), h)
      | Some req \<Rightarrow>
        case credentialRecordFromPayload (clk 0) (iss_Credential req) of
          Inl err \<Rightarrow> (Done (Error StatusBadRequest err), h)
        | Inr record \<Rightarrow>
          (case Client_ResolveDID dops (crh_chain h) (cr_SubjectDID record) of
             (Inl _, c) \<Rightarrow> (Done (Error StatusBadRequest ''credential subject DID not found''), h\<lparr>crh_chain := c\<rparr>)
           | (Inr _, c) \<Rightarrow>
             (case verifyCredentialProof P dops c record of
                (Panic, c) \<Rightarrow> (Panic, h\<lparr>crh_chain := c\<rparr>)
              | (Done (False, reason), c) \<Rightarrow> (Done (Error StatusBadRequest reason), h\<lparr>crh_chain := c\<rparr>)
              | (Done (True, _), c) \<Rightarrow>
                let h = h\<lparr>crh_chain := c\<rparr> in
                (case crs_Create kops (crh_store h) record of
                   (Inl e, s) \<Rightarrow>
                     (Done (if e = ErrCredentialExists
                            then Error StatusConflict ''credential already exists''
                            else Error StatusInternalServerError ''failed to store credential''),
                      h\<lparr>crh_store := s\<rparr>)
                 | (Inr _, s) \<Rightarrow>
                     (Done (JSON StatusCreated (GObj [(''status'', GStr ''ISSUED''), (''credential'', record_payload record)])),
                      h\<lparr>crh_store := s\<rparr>)))))"

record CredentialRevokeRequest =
  crv_ID :: string
  crv_Reason :: string

definition decode_credential_revoke :: "json option \<Rightarrow> CredentialRevokeRequest option" where
  "decode_credential_revoke body =
     Decode [(''id'', string_field crv_ID_update), (''reason'', string_field crv_Reason_update)] body
       \<lparr>crv_ID = [], crv_Reason = []\<rparr>"

definition CredentialHandler_Revoke :: "'k CredentialStore \<Rightarrow> clock \<Rightarrow> ('s, 'k) CredentialHandler \<Rightarrow> json option
    \<Rightarrow> ('s, 'k) CredentialHandler handled" where
  "CredentialHandler_Revoke kops clk h body =
     (case decode_credential_revoke body of
        None \<Rightarrow> (Done (Error StatusBadRequest ''invalid request body''), h)
      | Some req \<Rightarrow>
        if crv_ID req = [] then (Done (Error StatusBadRequest ''id is required''), h)
        else
        case crs_Revoke kops (clk 0) (crh_store h) (crv_ID req) (crv_Reason req) of
          (Inl e, s) \<Rightarrow>
            (Done (if e = ErrCredentialNotFound then Error StatusNotFound ''credential not found''
                   else Error StatusInternalServerError ''failed to revoke credential''),
             h\<lparr>crh_store := s\<rparr>)
        | (Inr _, s) \<Rightarrow>
            (Done (JSON StatusOK (GObj [(''status'', GStr ''REVOKED''), (''id'', GStr (crv_ID req))])),
             h\<lparr>crh_store := s\<rparr>))"

definition verify_payload :: "CredentialRecord \<Rightarrow> bool \<Rightarrow> string \<Rightarrow> time \<Rightarrow> gval" where
  "verify_payload record valid reason now = GObj
     [(''id'', GStr (cr_ID record)), (''valid'', GBool valid), (''reason'', GStr reason),
      (''issuer'', GStr (cr_IssuerDID record)), (''subject'', GStr (cr_SubjectDID record)),
      (''types'', strings_payload (cr_Types record)), (''verifiedAt'', GStr (FormatRFC3339 now))]"

definition CredentialHandler_Verify :: "prims \<Rightarrow> 's DIDStore \<Rightarrow> 'k CredentialStore \<Rightarrow> clock
    \<Rightarrow> ('s, 'k) CredentialHandler \<Rightarrow> string \<Rightarrow> ('s, 'k) CredentialHandler handled" where
  "CredentialHandler_Verify P dops kops clk h cred_id =
     (case crs_Get kops (crh_store h) cred_id of
        (Inl e, s) \<Rightarrow>
          (Done (if e = ErrCredentialNotFound
                 then JSON StatusOK (GObj [(''id'', GStr cred_id), (''valid'', GBool False),
                        (''reason'', GStr ''credential not found'')])
                 else Error StatusInternalServerError ''failed to verify credential''),
           h\<lparr>crh_store := s\<rparr>)
      | (Inr record, s) \<Rightarrow>
          let h = h\<lparr>crh_store := s\<rparr>; (valid, reason) = credentialStatus record (clk 0) in
          if valid then
            (case verifyCredentialProof P dops (crh_chain h) record of
               (Panic, c) \<Rightarrow> (Panic, h\<lparr>crh_chain := c\<rparr>)
             | (Done (valid, reason), c) \<Rightarrow>
                 (Done (JSON StatusOK (verify_payload record valid reason (clk 1))), h\<lparr>crh_chain := c\<rparr>))
          else (Done (JSON StatusOK (verify_payload record valid reason (clk 1))), h))"

section \<open>Runs of the endpoints\<close>

datatype cred_op =
    OpListCredentials string
  | OpIssue "json option"
  | OpRevokeCredential "json option"
  | OpVerifyCredential string
  | OpDids did_op

definition cred_serve :: "prims \<Rightarrow> 's DIDStore \<Rightarrow> 'k CredentialStore \<Rightarrow> clock \<Rightarrow> cred_op
    \<Rightarrow> ('s, 'k) CredentialHandler \<Rightarrow> ('s, 'k) CredentialHandler handled" where
  "cred_serve P dops kops clk op h =
     (case op of
        OpListCredentials did \<Rightarrow> CredentialHandler_ListByDID kops h did
      | OpIssue body \<Rightarrow> CredentialHandler_Issue P dops kops clk h body
      | OpRevokeCredential body \<Rightarrow> CredentialHandler_Revoke kops clk h body
      | OpVerifyCredential i \<Rightarrow> CredentialHandler_Verify P dops kops clk h i
      | OpDids dop \<Rightarrow> (let (out, c) = did_serve P dops clk dop (crh_chain h) in (out, h\<lparr>crh_chain := c\<rparr>)))"

inductive cred_reach :: "prims \<Rightarrow> 's DIDStore \<Rightarrow> 'k CredentialStore
    \<Rightarrow> ('s, 'k) CredentialHandler \<Rightarrow> ('s, 'k) CredentialHandler \<Rightarrow> bool"
  for P :: prims and dops :: "'s DIDStore" and kops :: "'k CredentialStore" and h0 :: "('s, 'k) CredentialHandler" where
  start: "cred_reach P dops kops h0 h0"
| serve: "cred_reach P dops kops h0 h \<Longrightarrow> cred_serve P dops kops clk op h = (out, h') \<Longrightarrow> cred_reach P dops kops h0 h'"

end
