(* ===== verification/CredentialProtocol.thy ===== *)
theory CredentialProtocol
  imports CredentialHandler
begin

text \<open>
  Credentials over any two stores of the contracts: what is stored is well formed and was proved
  when it was issued, what verification answers, and that a revocation is never taken back.
\<close>

section \<open>Records\<close>

text \<open>The shape of a record the endpoints store.\<close>

definition record_wf :: "CredentialRecord \<Rightarrow> bool" where
  "record_wf rec \<longleftrightarrow>
     cr_ID rec \<noteq> [] \<and> cr_IssuerDID rec \<noteq> [] \<and> cr_SubjectDID rec \<noteq> [] \<and> cr_Types rec \<noteq> [] \<and> [] \<notin> set (cr_Types rec)
     \<and> (\<exists>issued. ParseRFC3339 (cr_IssuanceDate rec) = Some issued
          \<and> (cr_ExpirationDate rec \<noteq> [] \<longrightarrow>
               (\<exists>expires. ParseRFC3339 (cr_ExpirationDate rec) = Some expires \<and> issued < expires)))"

lemma stringField_iff: "stringField m k = (s, True) \<longleftrightarrow> gm_get m k = Some (GStr s) \<and> s \<noteq> []"
  by (auto simp: stringField_def split: option.splits gval.splits)

lemma types_loop_ok: "types_loop vs acc = Inr ts \<Longrightarrow> \<exists>us. ts = acc @ us \<and> vs = map GStr us \<and> [] \<notin> set us"
proof (induction vs acc rule: types_loop.induct)
  case (2 v vs acc)
  then obtain s where s: "v = GStr s" "s \<noteq> []" "types_loop vs (acc @ [s]) = Inr ts"
    by (auto split: gval.splits if_splits)
  then obtain us where us: "ts = (acc @ [s]) @ us" "vs = map GStr us" "[] \<notin> set us" using 2 by blast
  then show ?case using s by (intro exI [of _ "s # us"]) simp
qed simp

text \<open>What a payload must hold, and the record that is made of it.\<close>

lemma payload_record:
  assumes "credentialRecordFromPayload now payload = Inr rec"
  shows "payload = Some (cr_Credential rec)" "record_wf rec" "cr_RevokedAt rec = []" "cr_RevocationReason rec = []"
    "cr_CreatedAt rec = FormatRFC3339 now"
proof -
  obtain m where m: "payload = Some m" using assms by (auto simp: credentialRecordFromPayload_def split: option.splits)
  obtain i oki where i: "stringField m ''id'' = (i, oki)" by fastforce
  have [simp]: "oki" using assms m i by (auto simp: credentialRecordFromPayload_def split: if_splits)
  obtain iss where iss: "issuerDID (gm_get m ''issuer'') = Inr iss"
    using assms m i by (auto simp: credentialRecordFromPayload_def split: sum.splits)
  obtain sub where sub: "gm_get m ''credentialSubject'' = Some (GObj sub)"
    using assms m i iss by (auto simp: credentialRecordFromPayload_def split: option.splits gval.splits)
  obtain sid oks where sid: "stringField sub ''id'' = (sid, oks)" by fastforce
  have [simp]: "oks" using assms m i iss sub sid by (auto simp: credentialRecordFromPayload_def split: if_splits)
  obtain ts where ts: "credentialTypes (gm_get m ''type'') = Inr ts"
    using assms m i iss sub sid by (auto simp: credentialRecordFromPayload_def split: sum.splits)
  obtain idate okd where idate: "stringField m ''issuanceDate'' = (idate, okd)" by fastforce
  have [simp]: "okd" using assms m i iss sub sid ts idate
    by (auto simp: credentialRecordFromPayload_def split: if_splits)
  obtain issued where issued: "ParseRFC3339 idate = Some issued"
    using assms m i iss sub sid ts idate by (auto simp: credentialRecordFromPayload_def split: option.splits)
  obtain edate oke where edate: "stringField m ''expirationDate'' = (edate, oke)" by fastforce
  have rec: "rec = \<lparr>cr_ID = i, cr_IssuerDID = iss, cr_SubjectDID = sid,
                        cr_Types = ts, cr_Credential = m, cr_IssuanceDate = idate,
                        cr_ExpirationDate = edate, cr_CreatedAt = FormatRFC3339 now,
                        cr_RevokedAt = [], cr_RevocationReason = []\<rparr>"
    and ex: "edate \<noteq> [] \<Longrightarrow> \<exists>expires. ParseRFC3339 edate = Some expires \<and> issued < expires"
    using assms m i iss sub sid ts idate issued edate
    by (auto simp: credentialRecordFromPayload_def Let_def split: if_splits option.splits)
  have "i \<noteq> []" "sid \<noteq> []" using i sid by (simp_all add: stringField_iff)
  moreover have "iss \<noteq> []"
    using iss by (auto simp: issuerDID_def stringField_iff split: option.splits gval.splits if_splits prod.splits)
  moreover have "ts \<noteq> [] \<and> [] \<notin> set ts"
    using ts types_loop_ok by (fastforce simp: credentialTypes_def split: option.splits gval.splits if_splits)
  ultimately show "payload = Some (cr_Credential rec)" "record_wf rec" "cr_RevokedAt rec = []"
    "cr_RevocationReason rec = []" "cr_CreatedAt rec = FormatRFC3339 now"
    using rec m issued ex by (simp_all add: record_wf_def)
qed

lemma record_wf_upd [simp]:
  "record_wf (rec\<lparr>cr_Credential := c\<rparr>) = record_wf rec" "record_wf (revoked_record now why rec) = record_wf rec"
  by (simp_all add: record_wf_def revoked_record_def)

section \<open>Proofs\<close>

text \<open>A credential carries a valid proof by the issuer with the given document.\<close>

definition proof_by :: "prims \<Rightarrow> DIDDocument \<Rightarrow> string \<Rightarrow> gmap \<Rightarrow> bool" where
  "proof_by P doc issuer cred \<longleftrightarrow>
     \<not> doc_Deactivated doc
     \<and> (\<exists>key pm val sg msg. StdDecode (doc_PublicKeyBase64 doc) = Some key \<and> length key = PublicKeySize
          \<and> gm_get cred ''proof'' = Some (GObj pm)
          \<and> gm_get pm ''proofValue'' = Some (GStr val) \<and> val \<noteq> []
          \<and> gm_get pm ''type'' = Some (GStr ''Ed25519Signature2020'')
          \<and> gm_get pm ''proofPurpose'' = Some (GStr ''assertionMethod'')
          \<and> gm_get pm ''verificationMethod'' = Some (GStr (issuer @ ''#keys-1''))
          \<and> StdDecode val = Some sg \<and> canonicalCredential P cred = Some msg \<and> sig_ok P key msg sg)"

lemma verifyCredentialProof_cases:
  assumes "verifyCredentialProof P dops c rec = (out, c')"
  obtains rd b r where "Client_ResolveDID dops c (cr_IssuerDID rec) = (rd, c')" "out = Done (b, r)"
    "b \<longleftrightarrow> (\<exists>doc. rd = Inr doc \<and> proof_by P doc (cr_IssuerDID rec) (cr_Credential rec))" "b \<longrightarrow> r = []"
proof -
  obtain rd c1 where rd: "Client_ResolveDID dops c (cr_IssuerDID rec) = (rd, c1)" by fastforce
  show thesis
  proof (cases rd)
    case (Inl e)
    then show thesis using that [of rd False] assms rd by (auto simp: verifyCredentialProof_def)
  next
    case (Inr doc)
    show thesis
    proof (cases "\<exists>key. \<not> doc_Deactivated doc \<and> StdDecode (doc_PublicKeyBase64 doc) = Some key \<and> length key = PublicKeySize")
      case False
      then have "\<not> proof_by P doc (cr_IssuerDID rec) (cr_Credential rec)" by (auto simp: proof_by_def)
      then show thesis using that [of rd False] assms rd Inr False
        by (cases "doc_Deactivated doc"; cases "StdDecode (doc_PublicKeyBase64 doc)") (auto simp: verifyCredentialProof_def)
    next
      case True
      then obtain key where key: "\<not> doc_Deactivated doc" "StdDecode (doc_PublicKeyBase64 doc) = Some key"
        "length key = PublicKeySize" by blast
      show thesis
      proof (cases "\<exists>pm. gm_get (cr_Credential rec) ''proof'' = Some (GObj pm)")
        case False
        then have "\<not> proof_by P doc (cr_IssuerDID rec) (cr_Credential rec)" by (auto simp: proof_by_def)
        then show thesis using that [of rd False] assms rd Inr key False
          by (cases "gm_get (cr_Credential rec) ''proof''"; cases "the (gm_get (cr_Credential rec) ''proof'')")
            (auto simp: verifyCredentialProof_def)
      next
        case True
        then obtain pm where pm: "gm_get (cr_Credential rec) ''proof'' = Some (GObj pm)" by blast
        obtain val ok1 ty ok2 pp ok3 vm ok4 where f: "stringField pm ''proofValue'' = (val, ok1)"
          "stringField pm ''type'' = (ty, ok2)" "stringField pm ''proofPurpose'' = (pp, ok3)"
          "stringField pm ''verificationMethod'' = (vm, ok4)" by (metis surj_pair)
        have field: "x \<noteq> [] \<Longrightarrow> gm_get pm k = Some (GStr x) \<longleftrightarrow> there \<and> v = x" if "stringField pm k = (v, there)" for k v there x
          using stringField_iff [of pm k x] that by auto
        have given: "gm_get pm ''proofValue'' = Some (GStr x) \<and> x \<noteq> [] \<and> R \<longleftrightarrow> ok1 \<and> x = val \<and> R" for x R
          using stringField_iff [of pm "''proofValue''" x] f(1) by auto
        have pb: "proof_by P doc (cr_IssuerDID rec) (cr_Credential rec) \<longleftrightarrow>
            ok1 \<and> (ok2 \<and> ty = ''Ed25519Signature2020'') \<and> (ok3 \<and> pp = ''assertionMethod'')
            \<and> (ok4 \<and> vm = cr_IssuerDID rec @ ''#keys-1'')
            \<and> (\<exists>sg msg. StdDecode val = Some sg \<and> canonicalCredential P (cr_Credential rec) = Some msg \<and> sig_ok P key msg sg)"
          by (simp add: proof_by_def key pm given field [OF f(2)] field [OF f(3)] field [OF f(4)])
        obtain b r where "out = Done (b, r) \<and> c' = c1 \<and> (b \<longrightarrow> r = [])
            \<and> (b \<longleftrightarrow> proof_by P doc (cr_IssuerDID rec) (cr_Credential rec))"
          using assms unfolding pb
          by (cases "StdDecode val"; cases "canonicalCredential P (cr_Credential rec)")
            (auto simp: verifyCredentialProof_def rd Inr key pm f split: if_splits bool.splits)
        then show thesis using rd Inr by (intro that [of rd b r]) auto
      qed
    qed
  qed
qed

text \<open>The proof does not depend on the order in which the members of a map are listed.\<close>

lemma gval_wf_member: "gval_wf (GObj m) \<Longrightarrow> gm_get m k = Some v \<Longrightarrow> gval_wf v"
  by (auto simp: list_all_iff dest!: map_of_SomeD)

lemma same_get:
  assumes "gval_wf (GObj m)" "gval_wf (GObj n)" "gval_same (GObj m) (GObj n)"
  shows "rel_option gval_same (gm_get m k) (gm_get n k)"
  using assms gval_same_GObj [of m n] by simp

lemma same_string:
  assumes "gval_wf (GObj m)" "gval_wf (GObj n)" "gval_same (GObj m) (GObj n)"
  shows "gm_get m k = Some (GStr s) \<longleftrightarrow> gm_get n k = Some (GStr s)"
proof -
  show ?thesis using same_get [OF assms, of k]
    by (cases "gm_get m k"; cases "gm_get n k") (auto simp: gval_same_cases)
qed

lemma same_object:
  assumes "gval_wf (GObj m)" "gval_wf (GObj n)" "gval_same (GObj m) (GObj n)" "gm_get m k = Some (GObj a)"
  obtains b where "gm_get n k = Some (GObj b)" "gval_same (GObj a) (GObj b)" "gval_wf (GObj a)" "gval_wf (GObj b)"
proof -
  obtain w where w: "gm_get n k = Some w" "gval_same (GObj a) w"
    using same_get [OF assms(1-3), of k] unfolding assms(4) by (auto simp: option_rel_Some1)
  then obtain b where "w = GObj b" using gval_same_cases(3) by blast
  then show thesis using that w gval_wf_member [OF assms(1,4)] gval_wf_member [OF assms(2) w(1)] by blast
qed

lemma gval_wf_withoutProof: "gval_wf (GObj m) \<Longrightarrow> gval_wf (GObj (withoutProof m))"
  by (auto simp: withoutProof_def list_all_iff)

lemma canonicalCredential_same:
  assumes "gval_wf (GObj m)" "gval_wf (GObj n)" "gval_same (GObj m) (GObj n)"
  shows "canonicalCredential P m = canonicalCredential P n"
proof -
  have "gval_same (GObj (withoutProof m)) (GObj (withoutProof n))"
  proof -
    have "gm_get (withoutProof x) k = (if k = ''proof'' then None else gm_get x k)" if "gval_wf (GObj x)" for x k
      using that unfolding withoutProof_def
      by (subst gm_get_filter [of _ "\<lambda>k v. k \<noteq> ''proof''"]) (auto split: option.splits)
    then have "rel_option gval_same (gm_get (withoutProof m) k) (gm_get (withoutProof n) k)" for k
      using same_get [OF assms, of k] assms(1,2) by simp
    then show ?thesis
      using gval_same_GObj gval_wf_withoutProof [OF assms(1)] gval_wf_withoutProof [OF assms(2)] by simp
  qed
  then show ?thesis
    using canonical_same gval_wf_withoutProof assms unfolding canonicalCredential_def by blast
qed

lemma proof_by_same:
  assumes m: "gval_wf (GObj m)" and n: "gval_wf (GObj n)" and same: "gval_same (GObj m) (GObj n)"
    and pf: "proof_by P doc issuer m"
  shows "proof_by P doc issuer n"
proof -
  obtain key pm val sg msg where *: "\<not> doc_Deactivated doc" "StdDecode (doc_PublicKeyBase64 doc) = Some key"
    "length key = PublicKeySize" "gm_get m ''proof'' = Some (GObj pm)"
    "gm_get pm ''proofValue'' = Some (GStr val)" "val \<noteq> []"
    "gm_get pm ''type'' = Some (GStr ''Ed25519Signature2020'')"
    "gm_get pm ''proofPurpose'' = Some (GStr ''assertionMethod'')"
    "gm_get pm ''verificationMethod'' = Some (GStr (issuer @ ''#keys-1''))"
    "StdDecode val = Some sg" "canonicalCredential P m = Some msg" "sig_ok P key msg sg"
    using pf unfolding proof_by_def by blast
  obtain pn where pn: "gm_get n ''proof'' = Some (GObj pn)" "gval_same (GObj pm) (GObj pn)"
    "gval_wf (GObj pm)" "gval_wf (GObj pn)"
    by (rule same_object [OF m n same *(4)])
  note str = same_string [OF pn(3,4,2), THEN iffD1]
  show ?thesis
    unfolding proof_by_def
    using *(1,2,3) pn(1) str [OF *(5)] *(6) str [OF *(7)] str [OF *(8)] str [OF *(9)] *(10,12)
      *(11) [unfolded canonicalCredential_same [OF m n same]] by blast
qed

section \<open>What the endpoints do\<close>

text \<open>
  The two changes of the records. \<open>v\<close> are the documents of the registry, \<open>r\<close> the records by
  identifier, \<open>stored\<close> what the store keeps for a record.
\<close>

definition issuance :: "prims \<Rightarrow> (CredentialRecord \<Rightarrow> CredentialRecord option) \<Rightarrow> (string \<Rightarrow> DIDDocument option)
    \<Rightarrow> (string \<Rightarrow> CredentialRecord option) \<Rightarrow> time \<Rightarrow> json option \<Rightarrow> (string \<Rightarrow> CredentialRecord option) \<Rightarrow> bool" where
  "issuance P stored v r now body r' \<longleftrightarrow>
     (\<exists>req rec rec' doc. decode_issue P body = Some req
        \<and> credentialRecordFromPayload now (iss_Credential req) = Inr rec
        \<and> v (cr_SubjectDID rec) \<noteq> None
        \<and> v (cr_IssuerDID rec) = Some doc \<and> proof_by P doc (cr_IssuerDID rec) (cr_Credential rec)
        \<and> r (cr_ID rec) = None \<and> stored rec = Some rec' \<and> r' = r(cr_ID rec \<mapsto> rec'))"

definition withdrawal :: "(string \<Rightarrow> CredentialRecord option) \<Rightarrow> time \<Rightarrow> json option
    \<Rightarrow> (string \<Rightarrow> CredentialRecord option) \<Rightarrow> bool" where
  "withdrawal r now body r' \<longleftrightarrow>
     (\<exists>req rec why. decode_credential_revoke body = Some req \<and> r (crv_ID req) = Some rec
        \<and> r' = r(crv_ID req \<mapsto> revoked_record now why rec))"

lemma issuanceE:
  assumes "issuance P stored v r now body r'"
  obtains req rec rec' doc where "decode_issue P body = Some req"
    "credentialRecordFromPayload now (iss_Credential req) = Inr rec" "v (cr_SubjectDID rec) \<noteq> None"
    "v (cr_IssuerDID rec) = Some doc" "proof_by P doc (cr_IssuerDID rec) (cr_Credential rec)"
    "r (cr_ID rec) = None" "stored rec = Some rec'" "r' = r(cr_ID rec \<mapsto> rec')"
  using assms unfolding issuance_def by (elim exE conjE) (rule that)

lemma withdrawalE:
  assumes "withdrawal r now body r'"
  obtains req rec why where "decode_credential_revoke body = Some req" "r (crv_ID req) = Some rec"
    "r' = r(crv_ID req \<mapsto> revoked_record now why rec)"
  using assms unfolding withdrawal_def by (elim exE conjE) (rule that)

text \<open>A credential is valid at time \<open>t\<close>.\<close>

definition valid_now :: "prims \<Rightarrow> (string \<Rightarrow> DIDDocument option) \<Rightarrow> (string \<Rightarrow> CredentialRecord option)
    \<Rightarrow> time \<Rightarrow> string \<Rightarrow> bool" where
  "valid_now P v r t i \<longleftrightarrow>
     (\<exists>rec doc. r i = Some rec \<and> cr_RevokedAt rec = []
        \<and> (cr_ExpirationDate rec \<noteq> [] \<longrightarrow> (\<exists>e. ParseRFC3339 (cr_ExpirationDate rec) = Some e \<and> t < e))
        \<and> v (cr_IssuerDID rec) = Some doc \<and> proof_by P doc (cr_IssuerDID rec) (cr_Credential rec))"

definition says_valid :: "response outcome \<Rightarrow> bool" where
  "says_valid out \<longleftrightarrow> (\<exists>rec now. out = Done (JSON StatusOK (verify_payload rec True [] now)))"

lemma verify_payload_eq [simp]:
  "verify_payload rec b r t = verify_payload rec' b' r' t' \<longleftrightarrow>
     cr_ID rec = cr_ID rec' \<and> b = b' \<and> r = r' \<and> cr_IssuerDID rec = cr_IssuerDID rec'
     \<and> cr_SubjectDID rec = cr_SubjectDID rec' \<and> strings_payload (cr_Types rec) = strings_payload (cr_Types rec')
     \<and> FormatRFC3339 t = FormatRFC3339 t'"
  by (auto simp: verify_payload_def)

lemma says_valid_simps [simp]:
  "says_valid (Done (JSON s (verify_payload rec b r t))) \<longleftrightarrow> s = StatusOK \<and> b \<and> r = []"
  "\<not> says_valid (Done (Error s m))" "\<not> says_valid Panic"
  "\<not> says_valid (Done (JSON s (GObj [x, y, z])))" "\<not> says_valid (Done (JSON s (GObj [x, y])))"
  by (auto simp: says_valid_def Error_def) (auto simp: verify_payload_def)

lemma credentialStatus_ok:
  "credentialStatus rec t = (True, r) \<longleftrightarrow> r = [] \<and> cr_RevokedAt rec = []
     \<and> (cr_ExpirationDate rec \<noteq> [] \<longrightarrow> (\<exists>e. ParseRFC3339 (cr_ExpirationDate rec) = Some e \<and> t < e))"
  by (auto simp: credentialStatus_def split: option.splits)

text \<open>What later requests may have done to a record: nothing, or a revocation, which stays.\<close>

definition rec_core :: "CredentialRecord \<Rightarrow> CredentialRecord" where
  "rec_core rec = rec\<lparr>cr_RevokedAt := [], cr_RevocationReason := []\<rparr>"

definition rec_succ :: "CredentialRecord \<Rightarrow> CredentialRecord \<Rightarrow> bool" where
  "rec_succ a b \<longleftrightarrow> rec_core b = rec_core a \<and> (cr_RevokedAt a \<noteq> [] \<longrightarrow> cr_RevokedAt b = cr_RevokedAt a)"

lemma rec_succ_refl [simp]: "rec_succ a a"
  by (simp add: rec_succ_def)

lemma rec_succ_trans: "rec_succ a b \<Longrightarrow> rec_succ b c \<Longrightarrow> rec_succ a c"
  by (simp add: rec_succ_def)

lemma rec_succ_revoked [simp]: "rec_succ a (revoked_record now why a)"
  by (simp add: rec_succ_def rec_core_def revoked_record_def)

lemma revoked_nonempty [simp]: "cr_RevokedAt (revoked_record now why a) \<noteq> []"
  by (simp add: revoked_record_def)

end
