(* ===== verification/Credentials.thy ===== *)
theory Credentials
  imports CredentialProtocol
begin

text \<open>
  The credential endpoints over a registry and a credential store of the contracts: the laws of
  each handler, the invariant of every reachable state, and, for reliable stores, what a request
  is answered. Interpreted for the memory stores and for Postgres.
\<close>

locale credential_service =
  D: did_store dops dview dinv + K: credential_store kops kview kinv stored
  for dops :: "'s DIDStore" and dview dinv and kops :: "'k CredentialStore" and kview kinv stored
begin

abbreviation docs :: "('s, 'k) CredentialHandler \<Rightarrow> string \<Rightarrow> DIDDocument option" where
  "docs h \<equiv> D.cview (crh_chain h)"

abbreviation recs :: "('s, 'k) CredentialHandler \<Rightarrow> string \<Rightarrow> CredentialRecord option" where
  "recs h \<equiv> kview (crh_store h)"

definition sinv :: "('s, 'k) CredentialHandler \<Rightarrow> bool" where
  "sinv h \<longleftrightarrow> D.cinv (crh_chain h) \<and> kinv (crh_store h)"

text \<open>The invariant of reachable states.\<close>

definition hinv :: "('s, 'k) CredentialHandler \<Rightarrow> bool" where
  "hinv h \<longleftrightarrow> sinv h \<and> registry_ok (docs h) \<and> (\<forall>i rec. recs h i = Some rec \<longrightarrow> record_wf rec)"

lemma Issue_law:
  assumes inv: "sinv h" and iss: "CredentialHandler_Issue P dops kops clk h body = (out, h')"
  shows "sinv h'" "docs h' = docs h" "out \<noteq> Panic" "\<not> says_valid out"
    "recs h' = recs h \<or> issuance P stored (docs h) (recs h) (clk 0) body (recs h')"
    "answers out 201 \<Longrightarrow> issuance P stored (docs h) (recs h) (clk 0) body (recs h')"
proof -
  have "sinv h' \<and> docs h' = docs h \<and> out \<noteq> Panic \<and> \<not> says_valid out
    \<and> (recs h' = recs h \<or> issuance P stored (docs h) (recs h) (clk 0) body (recs h'))
    \<and> (answers out 201 \<longrightarrow> issuance P stored (docs h) (recs h) (clk 0) body (recs h'))"
  proof (cases "decode_issue P body")
    case None
    then show ?thesis using iss inv by (auto simp: CredentialHandler_Issue_def)
  next
    case (Some req)
    show ?thesis
    proof (cases "credentialRecordFromPayload (clk 0) (iss_Credential req)")
      case (Inl e)
      then show ?thesis using iss inv Some by (auto simp: CredentialHandler_Issue_def)
    next
      case (Inr rec)
      obtain rs c1 where rs: "Client_ResolveDID dops (crh_chain h) (cr_SubjectDID rec) = (rs, c1)" by fastforce
      note rl = D.ResolveDID_law [OF inv [unfolded sinv_def, THEN conjunct1] rs]
      show ?thesis
      proof (cases rs)
        case err: (Inl e)
        then show ?thesis using iss inv Some Inr rs rl by (auto simp: CredentialHandler_Issue_def sinv_def)
      next
        case sub: (Inr sdoc)
        obtain pr c2 where pr: "verifyCredentialProof P dops c1 rec = (pr, c2)" by fastforce
        from verifyCredentialProof_cases [OF pr] obtain rd b r where
          rd: "Client_ResolveDID dops c1 (cr_IssuerDID rec) = (rd, c2)" and b: "pr = Done (b, r)"
          "b \<longleftrightarrow> (\<exists>doc. rd = Inr doc \<and> proof_by P doc (cr_IssuerDID rec) (cr_Credential rec))" .
        note rl2 = D.ResolveDID_law [OF conjunct1 [OF rl] rd]
        show ?thesis
        proof (cases b)
          case False
          then show ?thesis using iss inv Some Inr rs sub pr b rl rl2
            by (auto simp: CredentialHandler_Issue_def sinv_def)
        next
          case True
          obtain rc s where rc: "crs_Create kops (crh_store h) rec = (rc, s)" by fastforce
          note cl = K.Create_law [OF inv [unfolded sinv_def, THEN conjunct2] rc]
          obtain doc where doc: "rd = Inr doc" "proof_by P doc (cr_IssuerDID rec) (cr_Credential rec)" using b(2) True by blast
          have v: "docs h (cr_SubjectDID rec) \<noteq> None" "docs h (cr_IssuerDID rec) = Some doc"
            using rl rl2 sub doc by auto
          have issd: "issuance P stored (docs h) (recs h) (clk 0) body (kview s)"
            if "kview (crh_store h) (cr_ID rec) = None \<and> (\<exists>rec'. stored rec = Some rec' \<and> kview s = (recs h)(cr_ID rec \<mapsto> rec'))"
            using that Some Inr v doc(2) unfolding issuance_def by blast
          have h': "h' = h\<lparr>crh_chain := c2, crh_store := s\<rparr>" "out \<noteq> Panic" "\<not> says_valid out"
            "answers out 201 \<Longrightarrow> rc = Inr ()"
            using iss Some Inr rs sub pr b(1) True rc
            by (auto simp: CredentialHandler_Issue_def Let_def split: sum.splits if_splits)
          then show ?thesis using cl issd rl rl2 by (auto simp: sinv_def)
        qed
      qed
    qed
  qed
  then show "sinv h'" "docs h' = docs h" "out \<noteq> Panic" "\<not> says_valid out"
    "recs h' = recs h \<or> issuance P stored (docs h) (recs h) (clk 0) body (recs h')"
    "answers out 201 \<Longrightarrow> issuance P stored (docs h) (recs h) (clk 0) body (recs h')" by blast+
qed

lemma Revoke_law:
  assumes inv: "sinv h" and rv: "CredentialHandler_Revoke kops clk h body = (out, h')"
  shows "sinv h'" "docs h' = docs h" "out \<noteq> Panic" "\<not> says_valid out"
    "recs h' = recs h \<or> withdrawal (recs h) (clk 0) body (recs h')"
    "answers out 200 \<Longrightarrow> withdrawal (recs h) (clk 0) body (recs h')"
proof -
  have "sinv h' \<and> docs h' = docs h \<and> out \<noteq> Panic \<and> \<not> says_valid out
    \<and> (recs h' = recs h \<or> withdrawal (recs h) (clk 0) body (recs h'))
    \<and> (answers out 200 \<longrightarrow> withdrawal (recs h) (clk 0) body (recs h'))"
  proof (cases "\<exists>req. decode_credential_revoke body = Some req \<and> crv_ID req \<noteq> []")
    case False
    then show ?thesis using inv rv by (auto simp: CredentialHandler_Revoke_def split: option.splits)
  next
    case True
    then obtain req where req: "decode_credential_revoke body = Some req" "crv_ID req \<noteq> []" by blast
    obtain ru s where ru: "crs_Revoke kops (clk 0) (crh_store h) (crv_ID req) (crv_Reason req) = (ru, s)" by fastforce
    note rl = K.Revoke_law [OF inv [unfolded sinv_def, THEN conjunct2] ru]
    have h': "h' = h\<lparr>crh_store := s\<rparr>" "out \<noteq> Panic" "\<not> says_valid out" "answers out 200 \<Longrightarrow> ru = Inr ()"
      using rv req ru
      by (auto simp: CredentialHandler_Revoke_def split: sum.splits if_splits)
    then show ?thesis using rl req inv by (auto simp: withdrawal_def sinv_def)
  qed
  then show "sinv h'" "docs h' = docs h" "out \<noteq> Panic" "\<not> says_valid out"
    "recs h' = recs h \<or> withdrawal (recs h) (clk 0) body (recs h')"
    "answers out 200 \<Longrightarrow> withdrawal (recs h) (clk 0) body (recs h')" by blast+
qed

lemma Verify_law:
  assumes inv: "sinv h" and vf: "CredentialHandler_Verify P dops kops clk h i = (out, h')"
  shows "sinv h'" "docs h' = docs h" "recs h' = recs h" "out \<noteq> Panic"
    "says_valid out \<Longrightarrow> valid_now P (docs h) (recs h) (clk 0) i"
proof -
  obtain rg s where rg: "crs_Get kops (crh_store h) i = (rg, s)" by fastforce
  note gl = K.Get_law [OF inv [unfolded sinv_def, THEN conjunct2] rg]
  have "sinv h' \<and> docs h' = docs h \<and> recs h' = recs h \<and> out \<noteq> Panic
    \<and> (says_valid out \<longrightarrow> valid_now P (docs h) (recs h) (clk 0) i)"
  proof (cases "\<exists>rec r. rg = Inr rec \<and> credentialStatus rec (clk 0) = (True, r)")
    case False
    then have "h' = h\<lparr>crh_store := s\<rparr> \<and> out \<noteq> Panic \<and> \<not> says_valid out"
      using vf rg by (auto simp: CredentialHandler_Verify_def Let_def split: sum.splits prod.splits if_splits)
    then show ?thesis using gl inv by (auto simp: sinv_def)
  next
    case True
    then obtain rec r where rec: "rg = Inr rec" "credentialStatus rec (clk 0) = (True, r)" by blast
    obtain pr c where pr: "verifyCredentialProof P dops (crh_chain h) rec = (pr, c)" by fastforce
    from verifyCredentialProof_cases [OF pr] obtain rd b q where
      rd: "Client_ResolveDID dops (crh_chain h) (cr_IssuerDID rec) = (rd, c)" and b: "pr = Done (b, q)"
      "b \<longleftrightarrow> (\<exists>doc. rd = Inr doc \<and> proof_by P doc (cr_IssuerDID rec) (cr_Credential rec))" .
    note rl = D.ResolveDID_law [OF inv [unfolded sinv_def, THEN conjunct1] rd]
    have h': "h' = h\<lparr>crh_store := s, crh_chain := c\<rparr>" "out = Done (JSON StatusOK (verify_payload rec b q (clk 1)))"
      using vf rg rec pr b(1) by (auto simp: CredentialHandler_Verify_def)
    then have "says_valid out \<Longrightarrow> valid_now P (docs h) (recs h) (clk 0) i"
      using b(2) rl gl rec by (auto simp: valid_now_def credentialStatus_ok)
    then show ?thesis using h' gl rl by (auto simp: sinv_def)
  qed
  then show "sinv h'" "docs h' = docs h" "recs h' = recs h" "out \<noteq> Panic"
    "says_valid out \<Longrightarrow> valid_now P (docs h) (recs h) (clk 0) i" by blast+
qed

lemma ListByDID_law:
  assumes inv: "sinv h" and ls: "CredentialHandler_ListByDID kops h did = (out, h')"
  shows "sinv h'" "docs h' = docs h" "recs h' = recs h" "out \<noteq> Panic"
    "answers out 200 \<Longrightarrow> \<exists>rs. out = Done (JSON StatusOK
        (GObj [(''did'', GStr did), (''credentials'', GArr (map record_payload rs))]))
      \<and> distinct (map cr_ID rs) \<and> set rs = {rec. \<exists>i. recs h i = Some rec \<and> cr_SubjectDID rec = did}"
proof -
  obtain rl s where rl: "crs_ListBySubject kops (crh_store h) did = (rl, s)" by fastforce
  note ll = K.List_law [OF inv [unfolded sinv_def, THEN conjunct2] rl]
  show "sinv h'" "docs h' = docs h" "recs h' = recs h" "out \<noteq> Panic"
    "answers out 200 \<Longrightarrow> \<exists>rs. out = Done (JSON StatusOK
        (GObj [(''did'', GStr did), (''credentials'', GArr (map record_payload rs))]))
      \<and> distinct (map cr_ID rs) \<and> set rs = {rec. \<exists>i. recs h i = Some rec \<and> cr_SubjectDID rec = did}"
    using ls rl ll inv by (auto simp: CredentialHandler_ListByDID_def sinv_def split: sum.splits)
qed

text \<open>One request: at most one of the registry and the records changes, and only as it may.\<close>

lemma serve_cases:
  assumes inv: "sinv h" and ok: "registry_ok (docs h)" and sv: "cred_serve P dops kops clk op h = (out, h')"
  shows "sinv h'" "out \<noteq> Panic"
    and "recs h' = recs h \<and> (docs h' = docs h \<or> (\<exists>dop. op = OpDids dop \<and> authorised P dop (docs h) (docs h')))
      \<or> docs h' = docs h \<and> (\<exists>body. op = OpIssue body \<and> issuance P stored (docs h) (recs h) (clk 0) body (recs h'))
      \<or> docs h' = docs h \<and> (\<exists>body. op = OpRevokeCredential body \<and> withdrawal (recs h) (clk 0) body (recs h'))"
proof -
  have "sinv h' \<and> out \<noteq> Panic
    \<and> (recs h' = recs h \<and> (docs h' = docs h \<or> (\<exists>dop. op = OpDids dop \<and> authorised P dop (docs h) (docs h')))
      \<or> docs h' = docs h \<and> (\<exists>body. op = OpIssue body \<and> issuance P stored (docs h) (recs h) (clk 0) body (recs h'))
      \<or> docs h' = docs h \<and> (\<exists>body. op = OpRevokeCredential body \<and> withdrawal (recs h) (clk 0) body (recs h')))"
  proof (cases op)
    case (OpListCredentials did)
    then have "CredentialHandler_ListByDID kops h did = (out, h')" using sv by (simp add: cred_serve_def)
    then show ?thesis using ListByDID_law [OF inv] by blast
  next
    case (OpIssue body)
    then have "CredentialHandler_Issue P dops kops clk h body = (out, h')" using sv by (simp add: cred_serve_def)
    note l = Issue_law [OF inv this]
    then show ?thesis using OpIssue by auto
  next
    case (OpRevokeCredential body)
    then have "CredentialHandler_Revoke kops clk h body = (out, h')" using sv by (simp add: cred_serve_def)
    note l = Revoke_law [OF inv this]
    then show ?thesis using OpRevokeCredential by auto
  next
    case (OpVerifyCredential i)
    then have "CredentialHandler_Verify P dops kops clk h i = (out, h')" using sv by (simp add: cred_serve_def)
    then show ?thesis using Verify_law [OF inv] by blast
  next
    case (OpDids dop)
    obtain c where c: "did_serve P dops clk dop (crh_chain h) = (out, c)" "h' = h\<lparr>crh_chain := c\<rparr>"
      using sv OpDids by (auto simp: cred_serve_def split: prod.splits)
    have "D.cinv (crh_chain h)" using inv by (simp add: sinv_def)
    from D.serve_authorised [OF this ok c(1)] show ?thesis using c(2) inv OpDids by (auto simp: sinv_def)
  qed
  then show "sinv h'" "out \<noteq> Panic"
    and "recs h' = recs h \<and> (docs h' = docs h \<or> (\<exists>dop. op = OpDids dop \<and> authorised P dop (docs h) (docs h')))
      \<or> docs h' = docs h \<and> (\<exists>body. op = OpIssue body \<and> issuance P stored (docs h) (recs h) (clk 0) body (recs h'))
      \<or> docs h' = docs h \<and> (\<exists>body. op = OpRevokeCredential body \<and> withdrawal (recs h) (clk 0) body (recs h'))"
    by blast+
qed

lemma issuance_record:
  assumes "issuance P stored v r now body r'"
  obtains rec where "r (cr_ID rec) = None" "r' = r(cr_ID rec \<mapsto> rec)" "record_wf rec" "cr_RevokedAt rec = []"
proof -
  obtain req :: IssueRequest and rec rec' where r: "credentialRecordFromPayload now (iss_Credential req) = Inr rec"
    "r (cr_ID rec) = None" "stored rec = Some rec'" "r' = r(cr_ID rec \<mapsto> rec')"
    using assms by (rule issuanceE)
  define c where "c = cr_Credential rec'"
  have "rec' = rec\<lparr>cr_Credential := c\<rparr>" unfolding c_def by (rule K.stored_fields [OF r(3)])
  then show thesis using that [of rec'] r payload_record [OF r(1)] by simp
qed

lemma serve_hinv:
  assumes h: "hinv h" and sv: "cred_serve P dops kops clk op h = (out, h')"
  shows "hinv h'"
proof -
  have inv: "sinv h" and ok: "registry_ok (docs h)" and wf: "\<And>i rec. recs h i = Some rec \<Longrightarrow> record_wf rec"
    using h by (auto simp: hinv_def)
  note sc = serve_cases [OF inv ok sv]
  have "registry_ok (docs h')"
    using sc(3) ok authorised_registry_ok by (elim disjE conjE exE) auto
  moreover have "record_wf rec" if rec: "recs h' i = Some rec" for i rec
    using sc(3)
  proof (elim disjE conjE exE, goal_cases)
    case (3 body)
    then show ?case using issuance_record [OF 3(3)] rec wf by (metis map_upd_Some_unfold)
  next
    case (4 body)
    then show ?case using rec wf by (auto simp: withdrawal_def split: if_splits)
  qed (use rec wf in auto)
  ultimately show ?thesis using sc(1) by (simp add: hinv_def)
qed

lemma reach_hinv: "cred_reach P dops kops h0 h \<Longrightarrow> hinv h0 \<Longrightarrow> hinv h"
  by (induction rule: cred_reach.induct) (auto intro: serve_hinv)

lemma serve_succ:
  assumes h: "hinv h" and sv: "cred_serve P dops kops clk op h = (out, h')" and r: "recs h i = Some rec"
  shows "\<exists>rec'. recs h' i = Some rec' \<and> rec_succ rec rec'"
proof -
  have "sinv h" "registry_ok (docs h)" using h by (auto simp: hinv_def)
  from serve_cases(3) [OF this sv] show ?thesis
  proof (elim disjE conjE exE, goal_cases)
    case (3 body)
    then show ?case using issuance_record [OF 3(3)] r by (metis fun_upd_other option.distinct(1) rec_succ_refl)
  next
    case (4 body)
    then obtain req :: CredentialRevokeRequest and rec0 why where w: "recs h (crv_ID req) = Some rec0"
      "recs h' = (recs h)(crv_ID req \<mapsto> revoked_record (clk 0) why rec0)" by (elim withdrawalE)
    then show ?case using r by (cases "i = crv_ID req") auto
  qed (use r in auto)
qed

lemma reach_succ:
  assumes "cred_reach P dops kops h h'" "hinv h" "recs h i = Some rec"
  shows "\<exists>rec'. recs h' i = Some rec' \<and> rec_succ rec rec'"
  using assms
proof (induction rule: cred_reach.induct)
  case (serve h1 clk op out h2)
  then obtain r1 where "recs h1 i = Some r1" "rec_succ rec r1" by blast
  moreover have "hinv h1" using reach_hinv [OF serve.hyps(1)] serve.prems by blast
  ultimately show ?case using serve_succ [OF _ serve.hyps(2)] rec_succ_trans by blast
qed simp

text \<open>A revocation that was answered 200 makes every later verification fail.\<close>

lemma revoked_for_good:
  assumes h: "hinv h" and rv: "CredentialHandler_Revoke kops clk h body = (out, h1)" "answers out 200"
    and req: "decode_credential_revoke body = Some req"
    and reach: "cred_reach P dops kops h1 h2"
    and vf: "CredentialHandler_Verify P dops kops clk2 h2 (crv_ID req) = (out2, h3)"
  shows "\<not> says_valid out2"
proof
  assume says: "says_valid out2"
  have inv: "sinv h" using h by (simp add: hinv_def)
  obtain rec why where w: "recs h1 (crv_ID req) = Some (revoked_record (clk 0) why rec)"
    using Revoke_law(6) [OF inv rv] req by (auto simp: withdrawal_def)
  have h1: "hinv h1" using serve_hinv [OF h, of P clk "OpRevokeCredential body" out h1] rv(1)
    by (simp add: cred_serve_def)
  obtain rec' where rec': "recs h2 (crv_ID req) = Some rec'" "rec_succ (revoked_record (clk 0) why rec) rec'"
    using reach_succ [OF reach h1 w] by blast
  then have "cr_RevokedAt rec' \<noteq> []" by (auto simp: rec_succ_def)
  moreover have "sinv h2" using reach_hinv [OF reach h1] by (simp add: hinv_def)
  ultimately show False using Verify_law(5) [OF _ vf says] rec'(1) by (auto simp: valid_now_def)
qed

end

text \<open>Over reliable stores the answers are determined.\<close>

locale reliable_credential_service =
  credential_service dops dview dinv kops kview kinv stored
  + RD: reliable_did_store dops dview dinv + RK: reliable_credential_store kops kview kinv stored
  for dops :: "'s DIDStore" and dview dinv and kops :: "'k CredentialStore" and kview kinv stored
begin

lemma verifyCredentialProof_ok:
  assumes "D.cinv c" "verifyCredentialProof P dops c rec = (out, c')"
  obtains b r where "out = Done (b, r)" "D.cinv c'" "D.cview c' = D.cview c" "b \<longrightarrow> r = []"
    "b \<longleftrightarrow> (\<exists>doc. D.cview c (cr_IssuerDID rec) = Some doc \<and> proof_by P doc (cr_IssuerDID rec) (cr_Credential rec))"
proof -
  from verifyCredentialProof_cases [OF assms(2)] obtain rd b r where
    rd: "Client_ResolveDID dops c (cr_IssuerDID rec) = (rd, c')" and b: "out = Done (b, r)"
    "b \<longleftrightarrow> (\<exists>doc. rd = Inr doc \<and> proof_by P doc (cr_IssuerDID rec) (cr_Credential rec))" "b \<longrightarrow> r = []" .
  have "rd = Inr doc \<longleftrightarrow> D.cview c (cr_IssuerDID rec) = Some doc" for doc
    using RD.ResolveDID_ok [OF assms(1) rd] by (simp split: option.splits)
  then have "b \<longleftrightarrow> (\<exists>doc. D.cview c (cr_IssuerDID rec) = Some doc \<and> proof_by P doc (cr_IssuerDID rec) (cr_Credential rec))"
    using b(2) by blast
  then show thesis
    using that [OF b(1) _ _ b(3)] D.ResolveDID_law [OF assms(1) rd] by blast
qed

lemma Verify_iff:
  assumes inv: "sinv h" and vf: "CredentialHandler_Verify P dops kops clk h i = (out, h')"
  shows "says_valid out \<longleftrightarrow> valid_now P (docs h) (recs h) (clk 0) i"
proof
  assume "valid_now P (docs h) (recs h) (clk 0) i"
  then obtain rec doc where rec: "recs h i = Some rec" "credentialStatus rec (clk 0) = (True, [])"
    and doc: "docs h (cr_IssuerDID rec) = Some doc" "proof_by P doc (cr_IssuerDID rec) (cr_Credential rec)"
    unfolding valid_now_def credentialStatus_ok by blast
  obtain rg s where rg: "crs_Get kops (crh_store h) i = (rg, s)" by fastforce
  have rg': "rg = Inr rec" using RK.Get_ok [OF _ rg] inv rec(1) by (simp add: sinv_def)
  obtain pr c where pr: "verifyCredentialProof P dops (crh_chain h) rec = (pr, c)" by fastforce
  have "D.cinv (crh_chain h)" using inv by (simp add: sinv_def)
  from verifyCredentialProof_ok [OF this pr] obtain b r where
    b: "pr = Done (b, r)" "b \<longrightarrow> r = []"
      "b \<longleftrightarrow> (\<exists>doc. docs h (cr_IssuerDID rec) = Some doc \<and> proof_by P doc (cr_IssuerDID rec) (cr_Credential rec))" by blast
  have "b" using b(3) doc by blast
  then show "says_valid out" using vf rg rg' rec(2) pr b by (auto simp: CredentialHandler_Verify_def)
qed (use Verify_law(5) [OF inv vf] in blast)

text \<open>A well-formed request with a valid proof for a new identifier is accepted.\<close>

lemma Issue_accepts:
  assumes inv: "sinv h" and req: "decode_issue P body = Some req"
    and rec: "credentialRecordFromPayload (clk 0) (iss_Credential req) = Inr rec"
    and sub: "docs h (cr_SubjectDID rec) \<noteq> None"
    and doc: "docs h (cr_IssuerDID rec) = Some doc" "proof_by P doc (cr_IssuerDID rec) (cr_Credential rec)"
    and new: "recs h (cr_ID rec) = None" and st: "stored rec = Some rec'"
    and iss: "CredentialHandler_Issue P dops kops clk h body = (out, h')"
  shows "answers out 201" "recs h' = (recs h)(cr_ID rec \<mapsto> rec')" "docs h' = docs h"
proof -
  obtain rs c1 where rs: "Client_ResolveDID dops (crh_chain h) (cr_SubjectDID rec) = (rs, c1)" by fastforce
  have cinv: "D.cinv (crh_chain h)" and kinv: "kinv (crh_store h)" using inv by (simp_all add: sinv_def)
  obtain sdoc where sdoc: "rs = Inr sdoc" using RD.ResolveDID_ok [OF cinv rs] sub by auto
  note rl = D.ResolveDID_law [OF cinv rs]
  obtain pr c2 where pr: "verifyCredentialProof P dops c1 rec = (pr, c2)" by fastforce
  from verifyCredentialProof_ok [OF conjunct1 [OF rl] pr] obtain b r where b: "pr = Done (b, r)"
    "b \<longleftrightarrow> (\<exists>doc. D.cview c1 (cr_IssuerDID rec) = Some doc \<and> proof_by P doc (cr_IssuerDID rec) (cr_Credential rec))" .
  have "b" using b(2) rl doc by metis
  obtain rc s where rc: "crs_Create kops (crh_store h) rec = (rc, s)" by fastforce
  have "rc = Inr ()" using RK.Create_ok [OF kinv st rc] new by simp
  then show "answers out 201"
    using iss req rec rs sdoc pr b(1) \<open>b\<close> rc by (auto simp: CredentialHandler_Issue_def Let_def)
  from Issue_law(6) [OF inv iss this] show "recs h' = (recs h)(cr_ID rec \<mapsto> rec')"
    using req rec st by (auto simp: issuance_def)
  show "docs h' = docs h" by (rule Issue_law(2) [OF inv iss])
qed

text \<open>What is issued verifies until it expires, when the store keeps the value of the credential.\<close>

lemma issued_valid:
  assumes iss: "issuance P stored v r now body r'" and req: "decode_issue P body = Some req"
    and rec: "credentialRecordFromPayload now (iss_Credential req) = Inr rec"
    and keeps: "\<And>rec'. stored rec = Some rec' \<Longrightarrow> gval_wf (GObj (cr_Credential rec)) \<and> gval_wf (GObj (cr_Credential rec'))
        \<and> gval_same (GObj (cr_Credential rec)) (GObj (cr_Credential rec'))"
    and t: "\<And>e. ParseRFC3339 (cr_ExpirationDate rec) = Some e \<Longrightarrow> t < e"
  shows "valid_now P v r' t (cr_ID rec)"
proof -
  obtain doc rec' where i: "v (cr_IssuerDID rec) = Some doc" "proof_by P doc (cr_IssuerDID rec) (cr_Credential rec)"
    "stored rec = Some rec'" "r' = r(cr_ID rec \<mapsto> rec')"
    using iss req rec by (auto simp: issuance_def)
  have pf: "proof_by P doc (cr_IssuerDID rec) (cr_Credential rec')"
    using proof_by_same i(2) keeps [OF i(3)] by blast
  define c where "c = cr_Credential rec'"
  have eq: "rec' = rec\<lparr>cr_Credential := c\<rparr>" unfolding c_def by (rule K.stored_fields [OF i(3)])
  have "record_wf rec" "cr_RevokedAt rec = []" using payload_record [OF rec] by blast+
  then show ?thesis
    using i(1,4) pf eq t unfolding valid_now_def record_wf_def by auto
qed

end

interpretation dev_creds: reliable_credential_service memory_did_store mem_view mem_inv
    memory_credential_store crmem_view crmem_inv Some
  by unfold_locales

interpretation prod_creds: credential_service postgres_did_store pg_view pg_inv
    "postgres_credential_store J" crpg_view crpg_inv "crpg_stored J" for J
  by unfold_locales

interpretation prod_credsq: reliable_credential_service postgres_did_store pg_view pg_quiet
    "postgres_credential_store J" crpg_view crpg_quiet "crpg_stored J" for J
  by unfold_locales

end
