(* ===== verification/CredentialRuns.thy ===== *)
theory CredentialRuns
  imports Credentials DidRuns
begin

text \<open>
  The two configurations of the credential endpoints: both stores in memory, and both in
  Postgres with drivers that fail by arbitrary scripts and a JSONB column given by a parameter.
  An example credential for the closed instances of the properties.
\<close>

section \<open>The two configurations\<close>

definition empty_credentials :: "db_fault list \<Rightarrow> PostgresCredentialStore" where
  "empty_credentials faults = \<lparr>sql_rows = [], sql_faults = faults\<rparr>"

definition dev_creds_run :: "prims \<Rightarrow> string \<Rightarrow> (MemoryDIDStore, MemoryCredentialStore) CredentialHandler \<Rightarrow> bool" where
  "dev_creds_run P rpc h \<longleftrightarrow> cred_reach P memory_did_store memory_credential_store
     (NewCredentialHandler (NewClient rpc) NewMemoryCredentialStore) h"

definition prod_creds_run :: "prims \<Rightarrow> jsonb \<Rightarrow> string \<Rightarrow> db_fault list \<Rightarrow> db_fault list
    \<Rightarrow> (PostgresDIDStore, PostgresCredentialStore) CredentialHandler \<Rightarrow> bool" where
  "prod_creds_run P J rpc faults cfaults h \<longleftrightarrow> cred_reach P postgres_did_store (postgres_credential_store J)
     (NewCredentialHandler (NewClientWithStore rpc (empty_dids faults)) (empty_credentials cfaults)) h"

abbreviation mdocs :: "(MemoryDIDStore, MemoryCredentialStore) CredentialHandler \<Rightarrow> string \<Rightarrow> DIDDocument option" where
  "mdocs h \<equiv> mview (crh_chain h)"
abbreviation pdocs :: "(PostgresDIDStore, PostgresCredentialStore) CredentialHandler \<Rightarrow> string \<Rightarrow> DIDDocument option" where
  "pdocs h \<equiv> pview (crh_chain h)"
abbreviation mrecs :: "(MemoryDIDStore, MemoryCredentialStore) CredentialHandler \<Rightarrow> string \<Rightarrow> CredentialRecord option" where
  "mrecs h \<equiv> crmem_view (crh_store h)"
abbreviation precs :: "(PostgresDIDStore, PostgresCredentialStore) CredentialHandler \<Rightarrow> string \<Rightarrow> CredentialRecord option" where
  "precs h \<equiv> crpg_view (crh_store h)"

abbreviation "dev_Issue P \<equiv> CredentialHandler_Issue P memory_did_store memory_credential_store"
abbreviation "dev_Verify P \<equiv> CredentialHandler_Verify P memory_did_store memory_credential_store"
abbreviation "dev_Revoke \<equiv> CredentialHandler_Revoke memory_credential_store"
abbreviation "prod_Issue P J \<equiv> CredentialHandler_Issue P postgres_did_store (postgres_credential_store J)"
abbreviation "prod_Verify P J \<equiv> CredentialHandler_Verify P postgres_did_store (postgres_credential_store J)"
abbreviation "prod_Revoke J \<equiv> CredentialHandler_Revoke (postgres_credential_store J)"

lemma new_credentials_ok:
  "crmem_inv NewMemoryCredentialStore" "crpg_inv (empty_credentials cf)" "crpg_quiet (empty_credentials [])"
  "crmem_view NewMemoryCredentialStore = Map.empty" "crpg_view (empty_credentials cf) = Map.empty"
  by (auto simp: NewMemoryCredentialStore_def crmem_inv_def crmem_view_def empty_credentials_def crpg_inv_def
      crpg_quiet_def crpg_view_def db_wf_def)

lemma dev_creds_inv:
  assumes "dev_creds_run P rpc h" shows "dev_creds.hinv h" "dev_creds.sinv h"
  using dev_creds.reach_hinv [OF assms [unfolded dev_creds_run_def]] new_credentials_ok new_client_ok(1,2)
  by (simp_all add: dev_creds.hinv_def dev_creds.sinv_def NewCredentialHandler_def)

lemma prod_creds_inv:
  assumes "prod_creds_run P J rpc faults cfaults h" shows "prod_creds.hinv h" "prod_creds.sinv h"
  using prod_creds.reach_hinv [OF assms [unfolded prod_creds_run_def]] new_credentials_ok new_client_ok(3,5)
  by (simp_all add: prod_creds.hinv_def prod_creds.sinv_def NewCredentialHandler_def)

lemma prod_credsq_inv:
  assumes "prod_creds_run P J rpc [] [] h" shows "prod_credsq.hinv h" "prod_credsq.sinv h"
  using prod_credsq.reach_hinv [OF assms [unfolded prod_creds_run_def]] new_credentials_ok new_client_ok(4,5)
  by (simp_all add: prod_credsq.hinv_def prod_credsq.sinv_def NewCredentialHandler_def)

section \<open>An example\<close>

definition demo_credential :: "(string \<times> json) list \<Rightarrow> json" where
  "demo_credential extra = JObject
     ([(''id'', JString ''urn:c1''), (''issuer'', JString demo_did),
       (''credentialSubject'', JObject [(''id'', JString demo_did)]), (''type'', JArray [JString ''T'']),
       (''issuanceDate'', JString (FormatRFC3339 (demo_clock 0))),
       (''proof'', JObject [(''type'', JString ''Ed25519Signature2020''), (''proofPurpose'', JString ''assertionMethod''),
          (''verificationMethod'', JString (demo_did @ ''#keys-1'')), (''proofValue'', JString demo_sig64)])] @ extra)"

definition demo_issue :: "(string \<times> json) list \<Rightarrow> json option" where
  "demo_issue extra = Some (JObject [(''credential'', demo_credential extra)])"

definition demo_payload :: gmap where
  "demo_payload =
     [(''id'', GStr ''urn:c1''), (''issuer'', GStr demo_did),
      (''credentialSubject'', GObj [(''id'', GStr demo_did)]), (''type'', GArr [GStr ''T'']),
      (''issuanceDate'', GStr (FormatRFC3339 (demo_clock 0))),
      (''proof'', GObj [(''type'', GStr ''Ed25519Signature2020''), (''proofPurpose'', GStr ''assertionMethod''),
          (''verificationMethod'', GStr (demo_did @ ''#keys-1'')), (''proofValue'', GStr demo_sig64)])]"

lemma demo_decode_issue [simp]: "decode_issue demo_prims (demo_issue []) = Some \<lparr>iss_Credential = Some demo_payload\<rparr>"
  by (simp add: decode_issue_def demo_issue_def demo_credential_def Decode_def decode_struct_def field_for_def go_defs demo_payload_def)

definition demo_record :: CredentialRecord where
  "demo_record = \<lparr>cr_ID = ''urn:c1'', cr_IssuerDID = demo_did, cr_SubjectDID = demo_did, cr_Types = [''T''],
     cr_Credential = demo_payload, cr_IssuanceDate = FormatRFC3339 (demo_clock 0), cr_ExpirationDate = [],
     cr_CreatedAt = FormatRFC3339 (demo_clock 0), cr_RevokedAt = [], cr_RevocationReason = []\<rparr>"

lemma demo_year0: "four_digit_year (demo_clock 0)"
  by (simp add: demo_clock_def second_def) code_simp

lemma demo_payload_record [simp]:
  "credentialRecordFromPayload (demo_clock 0) (Some demo_payload) = Inr demo_record"
  using Parse_Format [OF demo_year0]
  by (simp add: credentialRecordFromPayload_def demo_payload_def stringField_def issuerDID_def credentialTypes_def demo_record_def)

lemma canonicalizeJSON_total:
  assumes "\<And>x. format_float64 P x \<noteq> None" "gval_wf v" shows "canonicalizeJSON P v \<noteq> None"
proof -
  have "gval_json P w \<noteq> None" for w
  proof (induction w)
    case (GArr xs)
    then have "map (gval_json P) xs = map Some (map (the \<circ> gval_json P) xs)" by auto
    then have "those (map (gval_json P) xs) = Some (map (the \<circ> gval_json P) xs)" unfolding those_Some_iff .
    then show ?case by simp
  next
    case (GObj ms)
    then have "map (\<lambda>(k, v). map_option (Pair k) (gval_json P v)) ms = map Some (map (\<lambda>(k, v). (k, the (gval_json P v))) ms)"
      by fastforce
    then have "those (map (\<lambda>(k, v). map_option (Pair k) (gval_json P v)) ms)
        = Some (map (\<lambda>(k, v). (k, the (gval_json P v))) ms)" unfolding those_Some_iff .
    then show ?case by simp
  qed (simp_all add: assms(1))
  then show ?thesis using canonical_marshals [OF assms(2)] by simp
qed

lemma demo_payload_wf: "gval_wf (GObj demo_payload)"
  by (simp add: demo_payload_def)

lemma demo_proof [simp]:
  assumes "doc_PublicKeyBase64 doc = demo_key64" "\<not> doc_Deactivated doc"
  shows "proof_by demo_prims doc demo_did demo_payload"
proof -
  obtain msg where "canonicalCredential demo_prims demo_payload = Some msg"
    using canonicalizeJSON_total [of demo_prims "GObj (withoutProof demo_payload)"]
      gval_wf_withoutProof [OF demo_payload_wf]
    by (auto simp: canonicalCredential_def demo_prims_def)
  moreover have "demo_sig64 \<noteq> []" using demo_decodes(3) demo_lengths(1)
    by (auto simp: StdDecode_def PublicKeySize_def simp del: demo_lengths)
  ultimately show ?thesis using assms by (auto simp: proof_by_def demo_payload_def)
qed

text \<open>A gateway that has registered the DID, and one that has issued the credential too.\<close>

definition demo_h0 :: "(MemoryDIDStore, MemoryCredentialStore) CredentialHandler" where
  "demo_h0 = NewCredentialHandler demo_m1 NewMemoryCredentialStore"

definition demo_h1 :: "(MemoryDIDStore, MemoryCredentialStore) CredentialHandler" where
  "demo_h1 = snd (dev_Issue demo_prims demo_clock demo_h0 (demo_issue []))"

lemma cred_reach_serve:
  "cred_reach P dops kops h0 h \<Longrightarrow> cred_reach P dops kops h0 (snd (cred_serve P dops kops clk op h))"
  by (rule cred_reach.serve [OF _ surjective_pairing])

lemma demo_h0_run [simp]: "dev_creds_run demo_prims ''r'' demo_h0"
proof -
  have "snd (cred_serve demo_prims memory_did_store memory_credential_store demo_clock (OpDids (OpRegister demo_register))
      (NewCredentialHandler (NewClient ''r'') NewMemoryCredentialStore)) = demo_h0"
    by (simp add: cred_serve_def did_serve_def demo_h0_def demo_m1_def NewCredentialHandler_def split: prod.splits)
  then show ?thesis using cred_reach_serve [OF cred_reach.start] unfolding dev_creds_run_def by metis
qed

lemma demo_issued:
  "answers (fst (dev_Issue demo_prims demo_clock demo_h0 (demo_issue []))) 201"
  "mrecs demo_h1 = [''urn:c1'' \<mapsto> demo_record]" "mdocs demo_h1 = mdocs demo_h0"
proof -
  have "demo_record = demo_record\<lparr>cr_ID := ''urn:c1''\<rparr>" by (simp add: demo_record_def)
  have f: "cr_ID demo_record = ''urn:c1''" "cr_SubjectDID demo_record = demo_did" "cr_IssuerDID demo_record = demo_did"
    "cr_Credential demo_record = demo_payload"
    by (simp_all add: demo_record_def)
  have d: "mdocs demo_h0 demo_did = Some demo_doc" and e: "mrecs demo_h0 = Map.empty"
    using new_credentials_ok(4) by (simp_all add: demo_h0_def NewCredentialHandler_def)
  note acc = dev_creds.Issue_accepts [OF dev_creds_inv(2) [OF demo_h0_run] demo_decode_issue _ _ _ _ _ refl
      surjective_pairing [of "dev_Issue demo_prims demo_clock demo_h0 (demo_issue [])"], of demo_record demo_doc]
  show "answers (fst (dev_Issue demo_prims demo_clock demo_h0 (demo_issue []))) 201"
    "mrecs demo_h1 = [''urn:c1'' \<mapsto> demo_record]" "mdocs demo_h1 = mdocs demo_h0"
    using acc d e f by (simp_all add: demo_h1_def)
qed

lemma demo_h1_run [simp]: "dev_creds_run demo_prims ''r'' demo_h1"
proof -
  have "snd (cred_serve demo_prims memory_did_store memory_credential_store demo_clock (OpIssue (demo_issue [])) demo_h0) = demo_h1"
    by (simp add: cred_serve_def demo_h1_def)
  then show ?thesis using cred_reach_serve demo_h0_run unfolding dev_creds_run_def by metis
qed

end
