(* ===== verification/CredentialProperties.thy ===== *)
theory CredentialProperties
  imports CredentialRuns
begin

text \<open>
  What the credential endpoints guarantee in the two configurations of the gateway, what a
  signature over the canonical text covers, and where the code falls short of what it means.
\<close>

section \<open>The canonical text\<close>

text \<open>The values the decoder yields: those it makes of a text within its limit on nesting.\<close>

definition decoded_map :: "prims \<Rightarrow> gmap \<Rightarrow> bool" where
  "decoded_map P m \<longleftrightarrow> (\<exists>j. json_ok j \<and> json_depth j \<le> maxNestingDepth \<and> to_any P j = Some (GObj m))"

lemma decoded_withoutProof: "decoded_map P m \<Longrightarrow> gval_ok maxNestingDepth (GObj (withoutProof m))"
  unfolding decoded_map_def
proof (elim exE conjE)
  fix j assume "json_ok j" "json_depth j \<le> maxNestingDepth" "to_any P j = Some (GObj m)"
  then have "gval_ok maxNestingDepth (GObj m)" using to_any_ok(1) by blast
  then show ?thesis by (auto simp: withoutProof_def list_all_iff)
qed

text \<open>
  C19: the canonical text of a decoded credential is JSON that the decoder reads back as the
  credential without its proof, with the members of every object in sorted order. The number
  conversions of the library are the parameter \<open>P\<close>; they are assumed to be inverse to each
  other, as \<open>strconv\<close> documents.
\<close>

theorem canonical_text_round_trip:
  assumes "float_laws P" "decoded_map P m" "canonicalCredential P m = Some s"
  shows "\<exists>j. parse_json s = Some j \<and> to_any P j = Some (gnorm (GObj (withoutProof m)))"
  using canonical_parses [OF assms(1) decoded_withoutProof [OF assms(2)]] assms(3)
  by (simp add: canonicalCredential_def)

text \<open>Parameters that write the number zero only, as \<open>0\<close>.\<close>

definition zero_prims :: prims where
  "zero_prims = demo_prims\<lparr>format_float64 := (\<lambda>x. if x = 0 then Some ''0'' else None)\<rparr>"

lemma zero_prims_laws: "float_laws zero_prims"
  by (simp add: float_laws_def zero_prims_def demo_prims_def valid_number_def scan_number_def scan_int_def
      scan_frac_def scan_exp_def)

definition small_credential :: gmap where
  "small_credential = [(''n'', GFloat 0), (''a'', GStr ''<''), (''proof'', GNil)]"

lemma small_decoded: "decoded_map zero_prims small_credential"
  unfolding decoded_map_def
  by (rule exI [of _ "JObject [(''n'', JNumber ''0''), (''a'', JString ''<''), (''proof'', JNull)]"])
     (simp add: small_credential_def zero_prims_def demo_prims_def valid_number_def scan_number_def scan_int_def
      scan_frac_def scan_exp_def maxNestingDepth_def)

definition small_text :: string where
  "small_text = [CHR 0x7B, CHR 0x22, CHR ''a'', CHR 0x22, CHR '':'', CHR 0x22, CHR 0x5C, CHR ''u'', CHR ''0'',
     CHR ''0'', CHR ''3'', CHR ''c'', CHR 0x22, CHR '','', CHR 0x22, CHR ''n'', CHR 0x22, CHR '':'', CHR ''0'', CHR 0x7D]"

lemma small_canonical: "canonicalCredential zero_prims small_credential = Some small_text"
  by (simp add: canonicalCredential_def withoutProof_def small_credential_def small_text_def zero_prims_def
      demo_prims_def marshal_scalar_def MarshalString_def esc_ascii_def hex_digit_def)

theorem canonical_text_round_trip_witness:
  "\<exists>j. parse_json small_text = Some j \<and> to_any zero_prims j = Some (GObj [(''a'', GStr ''<''), (''n'', GFloat 0)])"
  using canonical_text_round_trip [OF zero_prims_laws small_decoded small_canonical]
  by (simp add: withoutProof_def small_credential_def)

text \<open>
  C24: the canonical text covers all of a credential but its proof, and nothing else: two decoded
  credentials have the same canonical text exactly when, without their proofs, they are the
  same value up to the order in which maps list their members. So a signature over one cannot
  be carried over to a credential with another claim, subject or date.
\<close>

theorem canonical_text_determines_credential:
  assumes "float_laws P" "decoded_map P m" "decoded_map P n" "canonicalCredential P m = Some s"
  shows "canonicalCredential P n = Some s \<longleftrightarrow> gval_same (GObj (withoutProof m)) (GObj (withoutProof n))"
proof -
  note ok = decoded_withoutProof [OF assms(2)] decoded_withoutProof [OF assms(3)]
  show ?thesis
    using canonical_determines [OF assms(1) ok] canonical_same [OF gval_ok_wf [OF ok(1)] gval_ok_wf [OF ok(2)]] assms(4)
    unfolding canonicalCredential_def by metis
qed

lemma small_decoded_rev: "decoded_map zero_prims (rev small_credential)"
  unfolding decoded_map_def
  by (rule exI [of _ "JObject [(''proof'', JNull), (''a'', JString ''<''), (''n'', JNumber ''0'')]"])
     (simp add: small_credential_def zero_prims_def demo_prims_def valid_number_def scan_number_def scan_int_def
      scan_frac_def scan_exp_def maxNestingDepth_def)

theorem canonical_text_determines_credential_witness:
  "canonicalCredential zero_prims (rev small_credential) = Some small_text"
  using canonical_text_determines_credential [OF zero_prims_laws small_decoded small_decoded_rev small_canonical]
  by (simp add: gval_same_def withoutProof_def small_credential_def)

section \<open>What is stored\<close>

text \<open>
  C35: every credential record a gateway ever holds is well formed: identifier, issuer, subject and
  every type are non-empty, there is a type, the issuance date is an instant, and an expiration
  date, if there is one, is a later instant. It is stored under its own identifier. This holds
  in every reachable state of both configurations, whatever the drivers do and whatever the
  JSONB column makes of the credential.
\<close>

theorem stored_credentials_well_formed:
  "(dev_creds_run P rpc h \<and> mrecs h i = Some rec \<longrightarrow> record_wf rec \<and> cr_ID rec = i)
   \<and> (prod_creds_run P J rpc faults cfaults h' \<and> precs h' i = Some rec \<longrightarrow> record_wf rec \<and> cr_ID rec = i)"
proof ((rule conjI; rule impI; elim conjE), goal_cases)
  case 1
  then show ?case using dev_creds_inv [OF 1(1)] memcred.view_ID by (auto simp: dev_creds.hinv_def dev_creds.sinv_def)
next
  case 2
  then show ?case using prod_creds_inv [OF 2(1)] pgcred.view_ID by (auto simp: prod_creds.hinv_def prod_creds.sinv_def)
qed

theorem stored_credentials_well_formed_witness:
  "record_wf demo_record \<and> cr_ID demo_record = ''urn:c1''"
  using stored_credentials_well_formed [of demo_prims "''r''" demo_h1 "''urn:c1''" demo_record] demo_issued(2) by simp

text \<open>
  C4: one request changes the records only in two ways. It issues: the body holds a well-formed
  credential under a new identifier, its subject and its issuer are in the registry, the issuer
  is active, and the credential carries an Ed25519 proof by the key the registry holds for the
  issuer over its canonical text. Or it revokes: the body names a stored record, which keeps all
  but its revocation. Reading endpoints and the registry's endpoints change no record, and an
  answer 201 to \<open>Issue\<close> means the first, with either store and whatever the drivers do.
\<close>

theorem credential_changes_authorised:
  "(dev_creds_run P rpc h \<and> cred_serve P memory_did_store memory_credential_store clk op h = (out, h1) \<longrightarrow>
      mrecs h1 = mrecs h
      \<or> (\<exists>body. op = OpIssue body \<and> issuance P Some (mdocs h) (mrecs h) (clk 0) body (mrecs h1))
      \<or> (\<exists>body. op = OpRevokeCredential body \<and> withdrawal (mrecs h) (clk 0) body (mrecs h1)))
   \<and> (prod_creds_run P J rpc faults cfaults h'
      \<and> cred_serve P postgres_did_store (postgres_credential_store J) clk op h' = (out, h1') \<longrightarrow>
      precs h1' = precs h'
      \<or> (\<exists>body. op = OpIssue body \<and> issuance P (crpg_stored J) (pdocs h') (precs h') (clk 0) body (precs h1'))
      \<or> (\<exists>body. op = OpRevokeCredential body \<and> withdrawal (precs h') (clk 0) body (precs h1')))
   \<and> (dev_creds_run P rpc h \<and> answers (fst (dev_Issue P clk h body)) 201 \<longrightarrow>
      issuance P Some (mdocs h) (mrecs h) (clk 0) body (mrecs (snd (dev_Issue P clk h body))))
   \<and> (prod_creds_run P J rpc faults cfaults h' \<and> answers (fst (prod_Issue P J clk h' body)) 201 \<longrightarrow>
      issuance P (crpg_stored J) (pdocs h') (precs h') (clk 0) body (precs (snd (prod_Issue P J clk h' body))))"
proof ((intro conjI impI; elim conjE), goal_cases)
  case 1
  note inv = dev_creds_inv [OF 1(1)]
  then show ?case using dev_creds.serve_cases(3) [OF inv(2) _ 1(2)] by (auto simp: dev_creds.hinv_def)
next
  case 2
  note inv = prod_creds_inv [OF 2(1)]
  then show ?case using prod_creds.serve_cases(3) [OF inv(2) _ 2(2)] by (auto simp: prod_creds.hinv_def)
next
  case 3
  then show ?case using dev_creds.Issue_law(6) [OF dev_creds_inv(2) [OF 3(1)] surjective_pairing] by blast
next
  case 4
  then show ?case using prod_creds.Issue_law(6) [OF prod_creds_inv(2) [OF 4(1)] surjective_pairing] by blast
qed

theorem credential_changes_authorised_witness:
  "issuance demo_prims Some (mdocs demo_h0) (mrecs demo_h0) (demo_clock 0) (demo_issue []) (mrecs demo_h1)"
proof -
  have e: "mrecs demo_h0 = Map.empty" using new_credentials_ok(4) by (simp add: demo_h0_def NewCredentialHandler_def)
  have "cred_serve demo_prims memory_did_store memory_credential_store demo_clock (OpIssue (demo_issue [])) demo_h0 =
      (fst (dev_Issue demo_prims demo_clock demo_h0 (demo_issue [])), demo_h1)"
    by (simp add: cred_serve_def demo_h1_def)
  then show ?thesis
    using credential_changes_authorised [of demo_prims "''r''" demo_h0 demo_clock "OpIssue (demo_issue [])"] demo_issued(2) e
    by (auto dest: fun_cong)
qed

section \<open>What verification answers\<close>

text \<open>
  C18: \<open>Verify\<close> answers that a credential is valid exactly when it is stored, has not been revoked,
  has not expired at the time of the request, and its issuer is an active DID whose present key
  accepts the proof over the canonical text. In memory both directions hold in every reachable
  state; with Postgres both hold while the drivers report no failure, and when they do fail an
  answer \<open>valid\<close> is still right.
\<close>

theorem verification_is_exact:
  "(dev_creds_run P rpc h \<longrightarrow>
      (says_valid (fst (dev_Verify P clk h i)) \<longleftrightarrow> valid_now P (mdocs h) (mrecs h) (clk 0) i))
   \<and> (prod_creds_run P J rpc [] [] h' \<longrightarrow>
      (says_valid (fst (prod_Verify P J clk h' i)) \<longleftrightarrow> valid_now P (pdocs h') (precs h') (clk 0) i))
   \<and> (prod_creds_run P J rpc faults cfaults h' \<and> says_valid (fst (prod_Verify P J clk h' i)) \<longrightarrow>
      valid_now P (pdocs h') (precs h') (clk 0) i)"
proof (intro conjI impI, goal_cases)
  case 1
  then show ?case by (rule dev_creds.Verify_iff [OF dev_creds_inv(2) surjective_pairing])
next
  case 2
  then show ?case by (rule prod_credsq.Verify_iff [OF prod_credsq_inv(2) surjective_pairing])
next
  case 3
  then have "prod_creds_run P J rpc faults cfaults h'" ..
  then show ?case using prod_creds.Verify_law(5) [OF prod_creds_inv(2) surjective_pairing] 3 by blast
qed

lemma demo_valid_now: "valid_now demo_prims (mdocs demo_h1) (mrecs demo_h1) t ''urn:c1''"
proof -
  have "mdocs demo_h1 demo_did = Some demo_doc" using demo_issued(3) by (simp add: demo_h0_def NewCredentialHandler_def)
  then show ?thesis using demo_issued(2) by (simp add: valid_now_def demo_record_def)
qed

theorem verification_is_exact_witness:
  "says_valid (fst (dev_Verify demo_prims demo_clock demo_h1 ''urn:c1''))"
  using verification_is_exact [of demo_prims "''r''" demo_h1 demo_clock "''urn:c1''"] demo_valid_now by simp

text \<open>
  C31: what was issued verifies. When \<open>Issue\<close> has answered 201, \<open>Verify\<close> in the state it leaves
  answers that the credential is valid, at any time before its expiration date. So in memory, and
  with Postgres while it reports no failure; there the credential has been through a JSONB column,
  which lists its members in another order, and the signature still verifies as long as the column
  gives back the same value.
\<close>

theorem issued_credentials_verify:
  assumes "decode_issue P body = Some req" "credentialRecordFromPayload (clk 0) (iss_Credential req) = Inr rec"
    and "\<And>e. ParseRFC3339 (cr_ExpirationDate rec) = Some e \<Longrightarrow> clk2 0 < e"
    and "gval_wf (GObj (cr_Credential rec))"
    and "\<And>m. J (cr_Credential rec) = Some m \<Longrightarrow> gval_wf (GObj m) \<and> gval_same (GObj (cr_Credential rec)) (GObj m)"
  shows "(dev_creds_run P rpc h \<and> answers (fst (dev_Issue P clk h body)) 201 \<longrightarrow>
      says_valid (fst (dev_Verify P clk2 (snd (dev_Issue P clk h body)) (cr_ID rec))))
   \<and> (prod_creds_run P J rpc [] [] h' \<and> answers (fst (prod_Issue P J clk h' body)) 201 \<longrightarrow>
      says_valid (fst (prod_Verify P J clk2 (snd (prod_Issue P J clk h' body)) (cr_ID rec))))"
proof ((intro conjI impI; elim conjE), goal_cases)
  case 1
  note law = dev_creds.Issue_law [OF dev_creds_inv(2) [OF 1(1)] surjective_pairing]
  have "valid_now P (mdocs h) (mrecs (snd (dev_Issue P clk h body))) (clk2 0) (cr_ID rec)"
    by (rule dev_creds.issued_valid [OF law(6) [OF 1(2)] assms(1,2) _ assms(3)]) (use assms(4) in auto)
  then show ?case using dev_creds.Verify_iff [OF law(1) surjective_pairing] law(2) by simp
next
  case 2
  note law = prod_credsq.Issue_law [OF prod_credsq_inv(2) [OF 2(1)] surjective_pairing]
  have "valid_now P (pdocs h') (precs (snd (prod_Issue P J clk h' body))) (clk2 0) (cr_ID rec)"
    by (rule prod_credsq.issued_valid [OF law(6) [OF 2(2)] assms(1,2) _ assms(3)])
       (use assms(4,5) in \<open>auto simp: crpg_stored_def\<close>)
  then show ?case using prod_credsq.Verify_iff [OF law(1) surjective_pairing] law(2) by simp
qed

text \<open>The same exchange in Postgres, with a column that reverses the order of the members.\<close>

definition rev_jsonb :: jsonb where
  "rev_jsonb m = Some (rev m)"

definition demo_ph :: "(PostgresDIDStore, PostgresCredentialStore) CredentialHandler" where
  "demo_ph = NewCredentialHandler demo_p1 (empty_credentials [])"

lemma demo_ph_run: "prod_creds_run demo_prims rev_jsonb ''r'' [] [] demo_ph"
proof -
  have "snd (cred_serve demo_prims postgres_did_store (postgres_credential_store rev_jsonb) demo_clock (OpDids (OpRegister demo_register))
      (NewCredentialHandler (NewClientWithStore ''r'' (empty_dids [])) (empty_credentials []))) = demo_ph"
    by (simp add: cred_serve_def did_serve_def demo_ph_def demo_p1_def NewCredentialHandler_def split: prod.splits)
  then show ?thesis using cred_reach_serve [OF cred_reach.start] unfolding prod_creds_run_def by metis
qed

lemma demo_record_fields [simp]:
  "cr_ID demo_record = ''urn:c1''" "cr_SubjectDID demo_record = demo_did" "cr_IssuerDID demo_record = demo_did"
  "cr_Credential demo_record = demo_payload" "cr_ExpirationDate demo_record = []" "cr_RevokedAt demo_record = []"
  by (simp_all add: demo_record_def)

lemma demo_prod_issued: "answers (fst (prod_Issue demo_prims rev_jsonb demo_clock demo_ph (demo_issue []))) 201"
proof -
  have "pdocs demo_ph demo_did = Some demo_doc" "precs demo_ph = Map.empty"
    using new_credentials_ok(5) by (simp_all add: demo_ph_def NewCredentialHandler_def)
  then show ?thesis
    using prod_credsq.Issue_accepts(1) [OF prod_credsq_inv(2) [OF demo_ph_run] demo_decode_issue _ _ _ _ _ _ surjective_pairing,
      where clk = demo_clock and rec = demo_record and doc = demo_doc
        and rec' = "demo_record\<lparr>cr_Credential := rev demo_payload\<rparr>" and J = rev_jsonb]
    by (simp add: crpg_stored_def rev_jsonb_def)
qed

theorem issued_credentials_verify_witness:
  "says_valid (fst (dev_Verify demo_prims demo_clock demo_h1 ''urn:c1''))
   \<and> says_valid (fst (prod_Verify demo_prims rev_jsonb demo_clock
        (snd (prod_Issue demo_prims rev_jsonb demo_clock demo_ph (demo_issue []))) ''urn:c1''))"
proof -
  have rev: "gval_wf (GObj (rev demo_payload)) \<and> gval_same (GObj demo_payload) (GObj (rev demo_payload))"
    using demo_payload_wf by (auto intro!: gval_same_shuffle simp: rev_map [symmetric])
  have "ParseRFC3339 [] = None" by code_simp
  then show ?thesis
    using issued_credentials_verify [OF demo_decode_issue, of demo_clock demo_record demo_clock rev_jsonb "''r''" demo_h0 demo_ph]
      demo_issued(1) demo_prod_issued demo_ph_run rev demo_payload_wf
    by (simp add: demo_h1_def rev_jsonb_def del: gval_wf.simps)
qed

text \<open>
  C22: a revocation is final. When \<open>Revoke\<close> has answered 200 for a credential, no later \<open>Verify\<close> of
  it answers that it is valid, in any state the gateway reaches from there by any requests,
  in both configurations and whatever the drivers do.
\<close>

theorem credential_revocation_is_final:
  assumes "decode_credential_revoke body = Some req"
  shows "(dev_creds_run P rpc h \<and> dev_Revoke clk h body = (out, h1) \<and> answers out 200
      \<and> cred_reach P memory_did_store memory_credential_store h1 h2 \<longrightarrow>
        \<not> says_valid (fst (dev_Verify P clk2 h2 (crv_ID req))))
   \<and> (prod_creds_run P J rpc faults cfaults h' \<and> prod_Revoke J clk h' body = (out, h1') \<and> answers out 200
      \<and> cred_reach P postgres_did_store (postgres_credential_store J) h1' h2' \<longrightarrow>
        \<not> says_valid (fst (prod_Verify P J clk2 h2' (crv_ID req))))"
proof ((intro conjI impI; elim conjE), goal_cases)
  case 1
  show ?case using dev_creds.revoked_for_good [OF dev_creds_inv(1) [OF 1(1)] 1(2,3) assms 1(4) surjective_pairing] .
next
  case 2
  show ?case using prod_creds.revoked_for_good [OF prod_creds_inv(1) [OF 2(1)] 2(2,3) assms 2(4) surjective_pairing] .
qed

definition demo_withdraw :: "string \<Rightarrow> json option" where
  "demo_withdraw reason = Some (JObject [(''id'', JString ''urn:c1''), (''reason'', JString reason)])"

lemma demo_decode_withdraw [simp]:
  "decode_credential_revoke (demo_withdraw reason) = Some \<lparr>crv_ID = ''urn:c1'', crv_Reason = reason\<rparr>"
  by (simp add: decode_credential_revoke_def demo_withdraw_def Decode_def decode_struct_def field_for_def go_defs)

lemma demo_withdrawn: "answers (fst (dev_Revoke demo_clock demo_h1 (demo_withdraw r))) 200"
proof -
  have "gm_get (credentials (crh_store demo_h1)) ''urn:c1'' = Some demo_record"
    using demo_issued(2) by (simp add: crmem_view_def)
  then show ?thesis by (simp add: CredentialHandler_Revoke_def memory_credential_defs)
qed

theorem credential_revocation_is_final_witness:
  "says_valid (fst (dev_Verify demo_prims demo_clock demo_h1 ''urn:c1''))
   \<and> \<not> says_valid (fst (dev_Verify demo_prims demo_clock (snd (dev_Revoke demo_clock demo_h1 (demo_withdraw ''x''))) ''urn:c1''))"
  using credential_revocation_is_final [OF demo_decode_withdraw [of "''x''"], of demo_prims "''r''" demo_h1 demo_clock
      "fst (dev_Revoke demo_clock demo_h1 (demo_withdraw ''x''))" "snd (dev_Revoke demo_clock demo_h1 (demo_withdraw ''x''))"
      "snd (dev_Revoke demo_clock demo_h1 (demo_withdraw ''x''))" demo_clock]
    demo_withdrawn dev_creds.Verify_iff [OF dev_creds_inv(2) [OF demo_h1_run] surjective_pairing] demo_valid_now
  by (simp add: cred_reach.start)

section \<open>Where the code and its intent part\<close>

text \<open>
  An expiration date that is not a string is dropped. A credential whose \<open>expirationDate\<close> is a
  number, a list or an object is accepted, its record has no expiration date, and as long as
  the record is not revoked no reading of the clock makes it expire; the check of the date
  reports only strings that do not parse.
\<close>

theorem non_string_expiry_never_expires:
  assumes "gm_get m ''expirationDate'' = Some v" "\<forall>s. v \<noteq> GStr s"
    and "credentialRecordFromPayload now (Some m) = Inr rec"
  shows "cr_ExpirationDate rec = [] \<and> cr_Credential rec = m \<and> (\<forall>t. credentialStatus rec t = (True, []))"
proof -
  have "stringField m ''expirationDate'' = ([], False)"
    using assms(1,2) by (auto simp: stringField_def split: gval.splits)
  then have "cr_ExpirationDate rec = []"
    using assms(3)
    by (auto simp: credentialRecordFromPayload_def Let_def
        split: option.splits prod.splits if_splits sum.splits gval.splits)
  then show ?thesis using payload_record [OF assms(3)] by (simp add: credentialStatus_def)
qed

theorem non_string_expiry_never_expires_witness:
  "credentialStatus (demo_record\<lparr>cr_Credential := demo_payload @ [(''expirationDate'', GFloat 5)]\<rparr>) (demo_clock 0) = (True, [])"
proof -
  have "credentialRecordFromPayload (demo_clock 0) (Some (demo_payload @ [(''expirationDate'', GFloat 5)])) =
      Inr (demo_record\<lparr>cr_Credential := demo_payload @ [(''expirationDate'', GFloat 5)]\<rparr>)"
    using Parse_Format [OF demo_year0]
    by (simp add: credentialRecordFromPayload_def demo_payload_def stringField_def issuerDID_def credentialTypes_def demo_record_def)
  from non_string_expiry_never_expires [OF _ _ this, of "GFloat 5"] show ?thesis by (simp add: demo_payload_def)
qed

text \<open>
  The two stores disagree about the reason of a revocation. When a revoked credential without a
  reason is revoked again with one, the memory store changes nothing, and the Postgres store
  keeps the time of the first revocation but takes the reason of the second.
\<close>

theorem revocation_reason_depends_on_store:
  assumes "crmem_view s i = Some rec" "crpg_inv s'" "sql_faults s' = []" "crpg_view s' i = Some rec"
    and "cr_RevokedAt rec \<noteq> []" "cr_RevocationReason rec = []" "reason \<noteq> []"
  shows "crmem_view (snd (MemoryCredentialStore_Revoke now s i reason)) i = Some rec
   \<and> crpg_view (snd (PostgresCredentialStore_Revoke now s' i reason)) i = Some (rec\<lparr>cr_RevocationReason := reason\<rparr>)"
proof
  show "crmem_view (snd (MemoryCredentialStore_Revoke now s i reason)) i = Some rec"
    using assms(1,5) by (auto simp: MemoryCredentialStore_Revoke_def crmem_view_def)
  obtain row where row: "gm_get (sql_rows s') i = Some row" "scanCredentialRecord i row = Some rec"
    using assms(4) by (auto simp: crpg_view_iff)
  have ne: "row_revoked_at row \<noteq> Some []" using assms(2) row(1) by (auto simp: crpg_inv_def)
  have "row_revocation_reason row \<noteq> Some []" using assms(2) row(1) by (auto simp: crpg_inv_def)
  then have "text_or_empty (COALESCE (row_revocation_reason row) (NULLIF_empty reason)) = reason"
    using row(2) assms(6,7)
    by (auto simp: scanCredentialRecord_def text_or_empty_def COALESCE_def NULLIF_empty_def split: option.splits)
  then show "crpg_view (snd (PostgresCredentialStore_Revoke now s' i reason)) i = Some (rec\<lparr>cr_RevocationReason := reason\<rparr>)"
    using scan_revoke_row [OF row(2) ne] row assms(3,5)
    by (simp add: PostgresCredentialStore_Revoke_def db_exec_ok sql_update_def crpg_view_def revoked_record_def)
qed

definition demo_revoked :: CredentialRecord where
  "demo_revoked = demo_record\<lparr>cr_RevokedAt := ''2023''\<rparr>"
definition demo_mem_revoked :: MemoryCredentialStore where
  "demo_mem_revoked = \<lparr>credentials = [(''urn:c1'', demo_revoked)]\<rparr>"
definition demo_pg_revoked :: PostgresCredentialStore where
  "demo_pg_revoked = \<lparr>sql_rows = [(''urn:c1'', credential_row_of demo_revoked demo_payload)], sql_faults = []\<rparr>"

theorem revocation_reason_depends_on_store_witness:
  "crmem_view (snd (MemoryCredentialStore_Revoke (demo_clock 0) demo_mem_revoked ''urn:c1'' ''lost'')) ''urn:c1'' = Some demo_revoked
   \<and> crpg_view (snd (PostgresCredentialStore_Revoke (demo_clock 0) demo_pg_revoked ''urn:c1'' ''lost'')) ''urn:c1''
       = Some (demo_revoked\<lparr>cr_RevocationReason := ''lost''\<rparr>)"
proof -
  have r: "cr_RevocationReason demo_record = []" by (simp add: demo_record_def)
  have i: "crpg_inv demo_pg_revoked" by (simp add: crpg_inv_def db_wf_def demo_pg_revoked_def demo_revoked_def)
  have v: "crpg_view demo_pg_revoked ''urn:c1'' = Some demo_revoked"
    using scan_row_of [of demo_revoked demo_payload] by (simp add: crpg_view_def demo_pg_revoked_def demo_revoked_def)
  show ?thesis
    using revocation_reason_depends_on_store [OF _ i _ v, of demo_mem_revoked "''lost''" "demo_clock 0"]
    by (simp add: crmem_view_def demo_mem_revoked_def demo_pg_revoked_def demo_revoked_def r)
qed

end
