(* ===== verification/ApiKeyStore.thy ===== *)
theory ApiKeyStore
  imports Http Sql Canonical
begin

text \<open>
  \<open>internal/middleware/api_key_store.go\<close>: the keys by which services authenticate themselves. A
  store keeps the digest of a key, not the key. The Go interface is a record of operations with
  the memory store and the Postgres store as values, both interpretations of its contract. The
  digest function is the parameter \<open>P\<close>.
\<close>

section \<open>Records and the interface\<close>

record APIKeyRecord =
  ak_ServiceID :: string
  ak_ServiceName :: string
  ak_CreatedAt :: string
  ak_RevokedAt :: string

record 's APIKeyStore =
  aks_Validate :: "'s \<Rightarrow> string \<Rightarrow> string \<Rightarrow> (error + unit) \<times> 's"
  aks_Create :: "time \<Rightarrow> 's \<Rightarrow> string \<Rightarrow> string \<Rightarrow> string \<Rightarrow> (error + APIKeyRecord) \<times> 's"
  aks_List :: "'s \<Rightarrow> (error + APIKeyRecord list) \<times> 's"
  aks_Revoke :: "time \<Rightarrow> 's \<Rightarrow> string \<Rightarrow> (error + unit) \<times> 's"

definition hashAPIKey :: "prims \<Rightarrow> string \<Rightarrow> string" where
  "hashAPIKey P apiKey = HexEncode (sha256_Sum256 P apiKey)"

text \<open>\<open>None\<close> is a failure of \<open>rand.Read\<close>, otherwise 32 random bytes.\<close>

definition GenerateAPIKey :: "string option \<Rightarrow> string option" where
  "GenerateAPIKey rnd = map_option (\<lambda>b. ''uddi_'' @ RawURLEncode b) rnd"

definition NormalizeAPIKeyInput :: "string \<Rightarrow> string" where
  "NormalizeAPIKeyInput value = TrimSpace value"

definition new_key_record :: "time \<Rightarrow> string \<Rightarrow> string \<Rightarrow> APIKeyRecord" where
  "new_key_record now serviceID serviceName =
     \<lparr>ak_ServiceID = serviceID, ak_ServiceName = serviceName, ak_CreatedAt = FormatRFC3339 now, ak_RevokedAt = []\<rparr>"

section \<open>The memory store\<close>

record memoryAPIKeyRecord =
  mk_record :: APIKeyRecord
  mk_hash :: string

record MemoryAPIKeyStore =
  mem_keys :: "memoryAPIKeyRecord gomap"

definition MemoryAPIKeyStore_Validate :: "prims \<Rightarrow> MemoryAPIKeyStore \<Rightarrow> string \<Rightarrow> string
    \<Rightarrow> (error + unit) \<times> MemoryAPIKeyStore" where
  "MemoryAPIKeyStore_Validate P s serviceID apiKey =
     (case gm_get (mem_keys s) serviceID of
        None \<Rightarrow> (Inl ErrAPIKeyInvalid, s)
      | Some entry \<Rightarrow>
          if ak_RevokedAt (mk_record entry) \<noteq> [] \<or> mk_hash entry \<noteq> hashAPIKey P apiKey
          then (Inl ErrAPIKeyInvalid, s) else (Inr (), s))"

definition MemoryAPIKeyStore_Create :: "prims \<Rightarrow> time \<Rightarrow> MemoryAPIKeyStore \<Rightarrow> string \<Rightarrow> string \<Rightarrow> string
    \<Rightarrow> (error + APIKeyRecord) \<times> MemoryAPIKeyStore" where
  "MemoryAPIKeyStore_Create P now s serviceID serviceName apiKey =
     (if gm_get (mem_keys s) serviceID \<noteq> None then (Inl ErrAPIKeyExists, s)
      else let record = new_key_record now serviceID serviceName in
        (Inr record,
         s\<lparr>mem_keys := gm_set serviceID \<lparr>mk_record = record, mk_hash = hashAPIKey P apiKey\<rparr> (mem_keys s)\<rparr>))"

definition MemoryAPIKeyStore_List :: "MemoryAPIKeyStore \<Rightarrow> (error + APIKeyRecord list) \<times> MemoryAPIKeyStore" where
  "MemoryAPIKeyStore_List s = (Inr (map (\<lambda>(_, entry). mk_record entry) (mem_keys s)), s)"

definition MemoryAPIKeyStore_Revoke :: "time \<Rightarrow> MemoryAPIKeyStore \<Rightarrow> string \<Rightarrow> (error + unit) \<times> MemoryAPIKeyStore" where
  "MemoryAPIKeyStore_Revoke now s serviceID =
     (case gm_get (mem_keys s) serviceID of
        None \<Rightarrow> (Inl ErrAPIKeyNotFound, s)
      | Some entry \<Rightarrow>
          (Inr (),
           if ak_RevokedAt (mk_record entry) = []
           then s\<lparr>mem_keys := gm_set serviceID
                  (entry\<lparr>mk_record := mk_record entry\<lparr>ak_RevokedAt := FormatRFC3339 now\<rparr>\<rparr>) (mem_keys s)\<rparr>
           else s))"

definition memory_api_key_store :: "prims \<Rightarrow> MemoryAPIKeyStore APIKeyStore" where
  "memory_api_key_store P =
     \<lparr>aks_Validate = MemoryAPIKeyStore_Validate P, aks_Create = MemoryAPIKeyStore_Create P,
      aks_List = MemoryAPIKeyStore_List, aks_Revoke = MemoryAPIKeyStore_Revoke\<rparr>"

lemmas memory_api_key_defs [store_defs] =
  memory_api_key_store_def MemoryAPIKeyStore_Validate_def MemoryAPIKeyStore_Create_def
  MemoryAPIKeyStore_List_def MemoryAPIKeyStore_Revoke_def

section \<open>Development keys\<close>

definition development_seeds :: "(string \<times> string \<times> string) list" where
  "development_seeds =
     [(''dev-service'', ''UDDI Dev Service'', ''dev-api-key''),
      (''test-service'', ''UDDI Test Service'', ''test-key'')]"

fun seed_loop :: "'s APIKeyStore \<Rightarrow> clock \<Rightarrow> nat \<Rightarrow> (string \<times> string \<times> string) list \<Rightarrow> 's \<Rightarrow> (error + unit) \<times> 's" where
  "seed_loop ops clk i [] s = (Inr (), s)"
| "seed_loop ops clk i ((serviceID, serviceName, apiKey) # seeds) s =
     (case aks_Create ops (clk i) s serviceID serviceName apiKey of
        (Inl e, s') \<Rightarrow> if e \<noteq> ErrAPIKeyExists then (Inl e, s') else seed_loop ops clk (i + 1) seeds s'
      | (Inr _, s') \<Rightarrow> seed_loop ops clk (i + 1) seeds s')"

definition seedDevelopmentAPIKeys :: "'s APIKeyStore \<Rightarrow> clock \<Rightarrow> 's \<Rightarrow> (error + unit) \<times> 's" where
  "seedDevelopmentAPIKeys ops clk s = seed_loop ops clk 0 development_seeds s"

definition NewMemoryAPIKeyStoreWithDevSeeds :: "prims \<Rightarrow> clock \<Rightarrow> bool \<Rightarrow> MemoryAPIKeyStore" where
  "NewMemoryAPIKeyStoreWithDevSeeds P clk seedDevKeys =
     (let store = \<lparr>mem_keys = []\<rparr>
      in if seedDevKeys then snd (seedDevelopmentAPIKeys (memory_api_key_store P) clk store) else store)"

definition NewMemoryAPIKeyStore :: "prims \<Rightarrow> clock \<Rightarrow> MemoryAPIKeyStore" where
  "NewMemoryAPIKeyStore P clk = NewMemoryAPIKeyStoreWithDevSeeds P clk True"

definition MemoryAPIKeyStore_Add :: "prims \<Rightarrow> time \<Rightarrow> MemoryAPIKeyStore \<Rightarrow> string \<Rightarrow> string \<Rightarrow> MemoryAPIKeyStore" where
  "MemoryAPIKeyStore_Add P now s serviceID apiKey = snd (MemoryAPIKeyStore_Create P now s serviceID serviceID apiKey)"

section \<open>The Postgres store\<close>

record api_key_row =
  row_service_name :: string
  row_api_key_hash :: string
  row_key_created_at :: string
  row_key_revoked_at :: "string option"

type_synonym PostgresAPIKeyStore = "api_key_row sqldb"

text \<open>The query of \<open>Validate\<close> finds no row for an unknown service and none for a revoked key.\<close>

definition select_hash :: "string \<Rightarrow> api_key_row gomap \<Rightarrow> string option" where
  "select_hash serviceID rows =
     (case gm_get rows serviceID of
        None \<Rightarrow> None
      | Some row \<Rightarrow> if row_key_revoked_at row = None then Some (row_api_key_hash row) else None)"

definition PostgresAPIKeyStore_Validate :: "prims \<Rightarrow> PostgresAPIKeyStore \<Rightarrow> string \<Rightarrow> string
    \<Rightarrow> (error + unit) \<times> PostgresAPIKeyStore" where
  "PostgresAPIKeyStore_Validate P s serviceID apiKey =
     (case db_query (select_hash serviceID) s of
        (Inr (Some storedHash), s') \<Rightarrow>
          (if storedHash \<noteq> hashAPIKey P apiKey then Inl ErrAPIKeyInvalid else Inr (), s')
      | (_, s') \<Rightarrow> (Inl ErrAPIKeyInvalid, s'))"

definition PostgresAPIKeyStore_Create :: "prims \<Rightarrow> time \<Rightarrow> PostgresAPIKeyStore \<Rightarrow> string \<Rightarrow> string \<Rightarrow> string
    \<Rightarrow> (error + APIKeyRecord) \<times> PostgresAPIKeyStore" where
  "PostgresAPIKeyStore_Create P now s serviceID serviceName apiKey =
     (let record = new_key_record now serviceID serviceName in
      case db_exec (sql_insert (ak_ServiceID record)
             \<lparr>row_service_name = ak_ServiceName record, row_api_key_hash = hashAPIKey P apiKey,
              row_key_created_at = ak_CreatedAt record, row_key_revoked_at = None\<rparr>) s of
        (Inl e, s') \<Rightarrow> (Inl (if isUniqueViolation e then ErrAPIKeyExists else e), s')
      | (Inr _, s') \<Rightarrow> (Inr record, s'))"

definition key_record_of :: "string \<Rightarrow> api_key_row \<Rightarrow> APIKeyRecord" where
  "key_record_of serviceID row =
     \<lparr>ak_ServiceID = serviceID, ak_ServiceName = row_service_name row,
      ak_CreatedAt = row_key_created_at row, ak_RevokedAt = text_or_empty (row_key_revoked_at row)\<rparr>"

definition PostgresAPIKeyStore_List :: "PostgresAPIKeyStore \<Rightarrow> (error + APIKeyRecord list) \<times> PostgresAPIKeyStore" where
  "PostgresAPIKeyStore_List s =
     (case db_query (\<lambda>rows. map (\<lambda>(serviceID, row). key_record_of serviceID row)
             (rev (sort_key (row_key_created_at \<circ> snd) rows))) s of
        (Inl e, s') \<Rightarrow> (Inl e, s')
      | (Inr records, s') \<Rightarrow> (Inr records, s'))"

definition PostgresAPIKeyStore_Revoke :: "time \<Rightarrow> PostgresAPIKeyStore \<Rightarrow> string \<Rightarrow> (error + unit) \<times> PostgresAPIKeyStore" where
  "PostgresAPIKeyStore_Revoke now s serviceID =
     (case db_exec (sql_update serviceID (\<lambda>row. row\<lparr>row_key_revoked_at :=
             COALESCE (row_key_revoked_at row) (Some (FormatRFC3339 now))\<rparr>)) s of
        (Inl e, s') \<Rightarrow> (Inl e, s')
      | (Inr n, s') \<Rightarrow> (if n = 0 then Inl ErrAPIKeyNotFound else Inr (), s'))"

definition postgres_api_key_store :: "prims \<Rightarrow> PostgresAPIKeyStore APIKeyStore" where
  "postgres_api_key_store P =
     \<lparr>aks_Validate = PostgresAPIKeyStore_Validate P, aks_Create = PostgresAPIKeyStore_Create P,
      aks_List = PostgresAPIKeyStore_List, aks_Revoke = PostgresAPIKeyStore_Revoke\<rparr>"

text \<open>\<open>opened\<close> is the outcome of \<open>storage.OpenPostgres\<close> on the database \<open>s\<close>.\<close>

definition NewPostgresAPIKeyStore :: "prims \<Rightarrow> clock \<Rightarrow> (error + unit) \<Rightarrow> bool \<Rightarrow> PostgresAPIKeyStore
    \<Rightarrow> (error + unit) \<times> PostgresAPIKeyStore" where
  "NewPostgresAPIKeyStore P clk opened seedDevKeys s =
     (case opened of
        Inl e \<Rightarrow> (Inl e, s)
      | Inr _ \<Rightarrow> if seedDevKeys then seedDevelopmentAPIKeys (postgres_api_key_store P) clk s else (Inr (), s))"

lemmas postgres_api_key_defs [store_defs] =
  postgres_api_key_store_def PostgresAPIKeyStore_Validate_def PostgresAPIKeyStore_Create_def
  PostgresAPIKeyStore_List_def PostgresAPIKeyStore_Revoke_def

section \<open>The contract of the interface\<close>

text \<open>\<open>view s\<close> gives the record and the digest of the key of a service.\<close>

type_synonym key_view = "string \<Rightarrow> (APIKeyRecord \<times> string) option"

definition key_valid :: "prims \<Rightarrow> key_view \<Rightarrow> string \<Rightarrow> string \<Rightarrow> bool" where
  "key_valid P v serviceID apiKey \<longleftrightarrow>
     (\<exists>rec. v serviceID = Some (rec, hashAPIKey P apiKey) \<and> ak_RevokedAt rec = [])"

definition revoked_key :: "time \<Rightarrow> APIKeyRecord \<Rightarrow> APIKeyRecord" where
  "revoked_key now rec = rec\<lparr>ak_RevokedAt := (if ak_RevokedAt rec = [] then FormatRFC3339 now else ak_RevokedAt rec)\<rparr>"

locale api_key_store =
  fixes P :: prims and ops :: "'s APIKeyStore" and view :: "'s \<Rightarrow> key_view" and inv :: "'s \<Rightarrow> bool"
  assumes view_ID: "inv s \<Longrightarrow> view s i = Some (rec, k) \<Longrightarrow> ak_ServiceID rec = i"
    and Validate_law: "inv s \<Longrightarrow> aks_Validate ops s i k = (rv, s') \<Longrightarrow>
      inv s' \<and> view s' = view s \<and> (rv = Inr () \<longrightarrow> key_valid P (view s) i k)"
    and Create_law: "inv s \<Longrightarrow> aks_Create ops now s i n k = (rc, s') \<Longrightarrow>
      inv s'
      \<and> (view s' = view s
          \<or> view s i = None \<and> view s' = (view s)(i \<mapsto> (new_key_record now i n, hashAPIKey P k)))
      \<and> (\<forall>rec. rc = Inr rec \<longrightarrow> rec = new_key_record now i n \<and> view s i = None
            \<and> view s' = (view s)(i \<mapsto> (rec, hashAPIKey P k)))
      \<and> (rc = Inl ErrAPIKeyExists \<longrightarrow> view s i \<noteq> None \<and> view s' = view s)"
    and List_law: "inv s \<Longrightarrow> aks_List ops s = (rl, s') \<Longrightarrow>
      inv s' \<and> view s' = view s
      \<and> (\<forall>rs. rl = Inr rs \<longrightarrow> distinct (map ak_ServiceID rs) \<and> set rs = {rec. \<exists>i k. view s i = Some (rec, k)})"
    and Revoke_law: "inv s \<Longrightarrow> aks_Revoke ops now s i = (ru, s') \<Longrightarrow>
      inv s'
      \<and> (view s' = view s \<or> (\<exists>rec k. view s i = Some (rec, k) \<and> view s' = (view s)(i \<mapsto> (revoked_key now rec, k))))
      \<and> (ru = Inr () \<longrightarrow> (\<exists>rec k. view s i = Some (rec, k) \<and> view s' = (view s)(i \<mapsto> (revoked_key now rec, k))))
      \<and> (ru = Inl ErrAPIKeyNotFound \<longrightarrow> view s i = None)"

locale reliable_api_key_store = api_key_store +
  assumes Validate_ok: "inv s \<Longrightarrow> aks_Validate ops s i k = (rv, s') \<Longrightarrow>
      rv = (if key_valid P (view s) i k then Inr () else Inl ErrAPIKeyInvalid)"
    and Create_ok: "inv s \<Longrightarrow> aks_Create ops now s i n k = (rc, s') \<Longrightarrow>
      rc = (if view s i = None then Inr (new_key_record now i n) else Inl ErrAPIKeyExists)"
    and Revoke_ok: "inv s \<Longrightarrow> aks_Revoke ops now s i = (ru, s') \<Longrightarrow>
      ru = (if view s i = None then Inl ErrAPIKeyNotFound else Inr ())"

lemma revoked_key_nonempty [simp]: "ak_RevokedAt (revoked_key now rec) \<noteq> []" "ak_ServiceID (revoked_key now rec) = ak_ServiceID rec"
  by (simp_all add: revoked_key_def)

lemma new_key_fields [simp]:
  "ak_ServiceID (new_key_record now i n) = i" "ak_RevokedAt (new_key_record now i n) = []"
  "ak_ServiceName (new_key_record now i n) = n" "ak_CreatedAt (new_key_record now i n) = FormatRFC3339 now"
  by (simp_all add: new_key_record_def)

subsection \<open>The memory store keeps it\<close>

definition akm_view :: "MemoryAPIKeyStore \<Rightarrow> key_view" where
  "akm_view s i = map_option (\<lambda>entry. (mk_record entry, mk_hash entry)) (gm_get (mem_keys s) i)"

definition akm_inv :: "MemoryAPIKeyStore \<Rightarrow> bool" where
  "akm_inv s \<longleftrightarrow> gm_wf (mem_keys s) \<and> (\<forall>i entry. gm_get (mem_keys s) i = Some entry \<longrightarrow> ak_ServiceID (mk_record entry) = i)"

lemma ids_of_map:
  assumes "gm_wf m" "\<And>i x. gm_get m i = Some x \<Longrightarrow> ak_ServiceID (f i x) = i"
  shows "map ak_ServiceID (map (\<lambda>(i, x). f i x) m) = map fst m"
    "set (map (\<lambda>(i, x). f i x) m) = {rec. \<exists>i x. gm_get m i = Some x \<and> rec = f i x}"
proof -
  have "gm_get m i = Some x \<longleftrightarrow> (i, x) \<in> set m" for i x by (rule gm_get_in_set [OF assms(1)])
  then show "map ak_ServiceID (map (\<lambda>(i, x). f i x) m) = map fst m"
    "set (map (\<lambda>(i, x). f i x) m) = {rec. \<exists>i x. gm_get m i = Some x \<and> rec = f i x}"
    using assms(2) by force+
qed

interpretation memkeys: reliable_api_key_store P "memory_api_key_store P" akm_view akm_inv for P
proof (unfold_locales, goal_cases)
  case (1 s i rec k)
  then show ?case by (auto simp: akm_inv_def akm_view_def)
next
  case (2 s i k rv s')
  then show ?case by (auto simp: memory_api_key_defs akm_view_def key_valid_def split: option.splits if_splits)
next
  case (3 s now i n k rc s')
  then show ?case
    by (auto simp: memory_api_key_defs akm_view_def akm_inv_def Let_def fun_eq_iff split: if_splits)
next
  case (4 s rl s')
  have wf: "gm_wf (mem_keys s)" and ids: "\<And>i x. gm_get (mem_keys s) i = Some x \<Longrightarrow> ak_ServiceID (mk_record x) = i"
    using 4(1) by (auto simp: akm_inv_def)
  note m = ids_of_map [OF wf, of "\<lambda>i entry. mk_record entry"]
  have rl: "rl = Inr (map (\<lambda>(i, entry). mk_record entry) (mem_keys s))" "s' = s"
    using 4(2) by (auto simp: memory_api_key_defs)
  have "set (map (\<lambda>(i, entry). mk_record entry) (mem_keys s)) = {rec. \<exists>i k. akm_view s i = Some (rec, k)}"
    by (rule trans [OF m(2)]) (auto simp: ids akm_view_def)
  moreover have "distinct (map ak_ServiceID (map (\<lambda>(i, entry). mk_record entry) (mem_keys s)))"
    using wf by (subst m(1)) (auto simp: ids)
  ultimately show ?case unfolding rl using 4(1) by simp
next
  case (5 s now i ru s')
  show ?case
  proof (cases "gm_get (mem_keys s) i")
    case None
    then show ?thesis using 5 by (auto simp: memory_api_key_defs akm_view_def)
  next
    case (Some entry)
    show ?thesis
    proof (cases "ak_RevokedAt (mk_record entry) = []")
      case True
      then show ?thesis using 5 Some
        by (auto simp: memory_api_key_defs akm_view_def akm_inv_def revoked_key_def fun_eq_iff split: if_splits)
    next
      case False
      then have "revoked_key now (mk_record entry) = mk_record entry" by (simp add: revoked_key_def)
      then have "akm_view s = (akm_view s)(i \<mapsto> (revoked_key now (mk_record entry), mk_hash entry))"
        using Some by (auto simp: akm_view_def fun_eq_iff)
      moreover have "s' = s" "ru = Inr ()" using 5 Some False by (auto simp: memory_api_key_defs)
      moreover have "akm_view s i = Some (mk_record entry, mk_hash entry)" using Some by (simp add: akm_view_def)
      ultimately show ?thesis using 5(1) by blast
    qed
  qed
next
  case (6 s i k rv s')
  then show ?case by (auto simp: memory_api_key_defs akm_view_def key_valid_def split: option.splits if_splits)
next
  case (7 s now i n k rc s')
  then show ?case by (auto simp: memory_api_key_defs akm_view_def Let_def split: if_splits)
next
  case (8 s now i ru s')
  then show ?case by (auto simp: memory_api_key_defs akm_view_def split: option.splits)
qed

subsection \<open>The Postgres store keeps it\<close>

definition akp_view :: "PostgresAPIKeyStore \<Rightarrow> key_view" where
  "akp_view s i = map_option (\<lambda>row. (key_record_of i row, row_api_key_hash row)) (gm_get (sql_rows s) i)"

definition akp_inv :: "PostgresAPIKeyStore \<Rightarrow> bool" where
  "akp_inv s \<longleftrightarrow> db_wf s \<and> (\<forall>i row. gm_get (sql_rows s) i = Some row \<longrightarrow> row_key_revoked_at row \<noteq> Some [])"

lemma akp_same: "sql_rows s' = sql_rows s \<Longrightarrow> akp_view s' = akp_view s \<and> akp_inv s' = akp_inv s"
  by (simp add: akp_view_def fun_eq_iff akp_inv_def db_wf_def)

lemma key_record_revoked:
  "row_key_revoked_at row \<noteq> Some [] \<Longrightarrow> ak_RevokedAt (key_record_of i row) = [] \<longleftrightarrow> row_key_revoked_at row = None"
  by (auto simp: key_record_of_def text_or_empty_def split: option.splits)

lemma select_hash_valid:
  assumes "akp_inv s"
  shows "select_hash i (sql_rows s) = Some (hashAPIKey P k) \<longleftrightarrow> key_valid P (akp_view s) i k"
  using assms
  by (auto simp: select_hash_def key_valid_def akp_view_def akp_inv_def key_record_revoked split: option.splits)

lemma akp_Create:
  assumes inv: "akp_inv s" and cr: "PostgresAPIKeyStore_Create P now s i n k = (rc, s')"
  shows "akp_inv s'
      \<and> (akp_view s' = akp_view s
          \<or> akp_view s i = None \<and> akp_view s' = (akp_view s)(i \<mapsto> (new_key_record now i n, hashAPIKey P k)))
      \<and> (\<forall>rec. rc = Inr rec \<longrightarrow> rec = new_key_record now i n \<and> akp_view s i = None
            \<and> akp_view s' = (akp_view s)(i \<mapsto> (rec, hashAPIKey P k)))
      \<and> (rc = Inl ErrAPIKeyExists \<longrightarrow> akp_view s i \<noteq> None \<and> akp_view s' = akp_view s)"
proof -
  let ?row = "\<lparr>row_service_name = n, row_api_key_hash = hashAPIKey P k,
              row_key_created_at = FormatRFC3339 now, row_key_revoked_at = None\<rparr>"
  obtain q where ex: "db_exec (sql_insert i ?row) s = (q, s')"
    and r: "rc = (case q of Inl e \<Rightarrow> Inl (if isUniqueViolation e then ErrAPIKeyExists else e) | Inr _ \<Rightarrow> Inr (new_key_record now i n))"
    using cr by (auto simp: PostgresAPIKeyStore_Create_def Let_def split: prod.splits sum.splits)
  note rows = db_exec_insert [OF ex]
  have set: "akp_inv s' \<and> akp_view s' = (akp_view s)(i \<mapsto> (new_key_record now i n, hashAPIKey P k))"
    if "sql_rows s' = gm_set i ?row (sql_rows s)"
    using that inv
    by (auto simp: akp_inv_def db_wf_def akp_view_def key_record_of_def new_key_record_def text_or_empty_def fun_eq_iff)
  have ex: "sql_rows s' = sql_rows s \<and> gm_get (sql_rows s) i \<noteq> None"
    if "rc = Inl ErrAPIKeyExists"
    using that r ex
    by (auto simp: db_exec_def sql_insert_def Let_def isUniqueViolation_def
        split: sum.splits if_splits prod.splits db_fault.splits)
  have none: "akp_view s i = None \<longleftrightarrow> gm_get (sql_rows s) i = None" by (simp add: akp_view_def)
  show ?thesis
    using rows set ex none akp_same [of s' s] inv r by (auto split: sum.splits)
qed

lemma revoke_key_row:
  assumes "row_key_revoked_at row \<noteq> Some []"
  shows "key_record_of i (row\<lparr>row_key_revoked_at := COALESCE (row_key_revoked_at row) (Some (FormatRFC3339 now))\<rparr>)
    = revoked_key now (key_record_of i row)"
  using assms by (auto simp: key_record_of_def revoked_key_def COALESCE_def text_or_empty_def split: option.splits)

lemma akp_Revoke:
  assumes inv: "akp_inv s" and rv: "PostgresAPIKeyStore_Revoke now s i = (ru, s')"
  shows "akp_inv s'
      \<and> (akp_view s' = akp_view s
          \<or> (\<exists>rec k. akp_view s i = Some (rec, k) \<and> akp_view s' = (akp_view s)(i \<mapsto> (revoked_key now rec, k))))
      \<and> (ru = Inr () \<longrightarrow> (\<exists>rec k. akp_view s i = Some (rec, k) \<and> akp_view s' = (akp_view s)(i \<mapsto> (revoked_key now rec, k))))
      \<and> (ru = Inl ErrAPIKeyNotFound \<longrightarrow> akp_view s i = None)"
proof -
  let ?f = "\<lambda>row. row\<lparr>row_key_revoked_at := COALESCE (row_key_revoked_at row) (Some (FormatRFC3339 now))\<rparr>"
  obtain q where ex: "db_exec (sql_update i ?f) s = (q, s')"
    and r: "ru = (case q of Inl e \<Rightarrow> Inl e | Inr n \<Rightarrow> if n = 0 then Inl ErrAPIKeyNotFound else Inr ())"
    using rv by (auto simp: PostgresAPIKeyStore_Revoke_def split: prod.splits sum.splits)
  note rows = db_exec_update [OF ex]
  have ne: "q \<noteq> Inl ErrAPIKeyNotFound"
    using ex by (auto simp: db_exec_def sql_update_def Let_def split: prod.splits db_fault.splits option.splits)
  have set: "akp_inv s' \<and> (\<exists>rec k. akp_view s i = Some (rec, k) \<and> akp_view s' = (akp_view s)(i \<mapsto> (revoked_key now rec, k)))"
    if row: "gm_get (sql_rows s) i = Some row" and s': "sql_rows s' = gm_set i (?f row) (sql_rows s)" for row
  proof -
    have "row_key_revoked_at row \<noteq> Some []" using inv row by (auto simp: akp_inv_def)
    from revoke_key_row [OF this] show ?thesis using inv row s'
      by (auto simp: akp_inv_def db_wf_def akp_view_def fun_eq_iff COALESCE_def split: option.splits)
  qed
  show ?thesis
  proof (cases "\<exists>n. q = Inr n \<and> n \<noteq> 0")
    case True
    then show ?thesis using rows(2) set r by auto
  next
    case False
    then have "ru = Inl ErrAPIKeyNotFound \<Longrightarrow> akp_view s i = None" "ru \<noteq> Inr ()"
      using r ne rows(3) by (auto simp: akp_view_def split: sum.splits if_splits)
    then show ?thesis using rows(1) set akp_same [of s' s] inv by auto
  qed
qed

lemma akp_List:
  assumes inv: "akp_inv s" and ls: "PostgresAPIKeyStore_List s = (rl, s')"
  shows "akp_inv s' \<and> akp_view s' = akp_view s
      \<and> (\<forall>rs. rl = Inr rs \<longrightarrow> distinct (map ak_ServiceID rs) \<and> set rs = {rec. \<exists>i k. akp_view s i = Some (rec, k)})"
proof -
  let ?S = "rev (sort_key (row_key_created_at \<circ> snd) (sql_rows s))"
  obtain q where q: "db_query (\<lambda>rows. map (\<lambda>(serviceID, row). key_record_of serviceID row)
             (rev (sort_key (row_key_created_at \<circ> snd) rows))) s = (q, s')" and r: "rl = q"
    using ls by (auto simp: PostgresAPIKeyStore_List_def split: prod.splits sum.splits)
  have wf: "gm_wf (sql_rows s)" using inv by (simp add: akp_inv_def db_wf_def)
  then have wfS: "gm_wf ?S" by (simp add: rev_map [symmetric])
  have get: "gm_get ?S = gm_get (sql_rows s)" using wf wfS by (simp add: map_of_inject_set)
  note ids = ids_of_map [OF wfS, of key_record_of]
  have "distinct (map ak_ServiceID rs) \<and> set rs = {rec. \<exists>i k. akp_view s i = Some (rec, k)}" if "rl = Inr rs" for rs
  proof -
    have rs: "rs = map (\<lambda>(i, row). key_record_of i row) ?S"
      using db_query_rows(2) [OF q] r that by simp
    have "map ak_ServiceID rs = map fst ?S" unfolding rs by (rule ids(1)) (simp add: key_record_of_def)
    moreover have "set rs = {rec. \<exists>i x. gm_get ?S i = Some x \<and> rec = key_record_of i x}"
      unfolding rs by (rule ids(2)) (simp add: key_record_of_def)
    ultimately show ?thesis using wfS unfolding get by (auto simp: akp_view_def)
  qed
  moreover have "akp_inv s' \<and> akp_view s' = akp_view s" using db_query_rows(1) [OF q] akp_same [of s' s] inv by blast
  ultimately show ?thesis by blast
qed

lemma akp_Validate:
  assumes inv: "akp_inv s" and v: "PostgresAPIKeyStore_Validate P s i k = (rv, s')"
  shows "akp_inv s' \<and> akp_view s' = akp_view s \<and> (rv = Inr () \<longrightarrow> key_valid P (akp_view s) i k)"
    "sql_faults s = [] \<Longrightarrow> rv = (if key_valid P (akp_view s) i k then Inr () else Inl ErrAPIKeyInvalid)"
proof -
  obtain q where q: "db_query (select_hash i) s = (q, s')"
    and r: "rv = (case q of Inr (Some h) \<Rightarrow> if h \<noteq> hashAPIKey P k then Inl ErrAPIKeyInvalid else Inr () | _ \<Rightarrow> Inl ErrAPIKeyInvalid)"
    using v by (auto simp: PostgresAPIKeyStore_Validate_def split: prod.splits sum.splits option.splits)
  show "akp_inv s' \<and> akp_view s' = akp_view s \<and> (rv = Inr () \<longrightarrow> key_valid P (akp_view s) i k)"
    using db_query_rows [OF q] akp_same [of s' s] inv r select_hash_valid [OF inv, of i P k]
    by (auto split: sum.splits option.splits if_splits)
  show "sql_faults s = [] \<Longrightarrow> rv = (if key_valid P (akp_view s) i k then Inr () else Inl ErrAPIKeyInvalid)"
    using q r select_hash_valid [OF inv, of i P k]
    by (auto simp: db_query_ok split: option.splits)
qed

interpretation pgkeys: api_key_store P "postgres_api_key_store P" akp_view akp_inv for P
proof (unfold_locales, goal_cases)
  case (1 s i rec k)
  then show ?case by (auto simp: akp_view_def key_record_of_def)
next
  case (2 s i k rv s')
  then show ?case using akp_Validate(1) by (simp add: postgres_api_key_store_def)
next
  case (3 s now i n k rc s')
  then show ?case using akp_Create by (simp add: postgres_api_key_store_def)
next
  case (4 s rl s')
  then show ?case using akp_List by (simp add: postgres_api_key_store_def)
next
  case (5 s now i ru s')
  then show ?case using akp_Revoke by (simp add: postgres_api_key_store_def)
qed

text \<open>While its driver reports no failure the Postgres store is reliable.\<close>

definition akp_quiet :: "PostgresAPIKeyStore \<Rightarrow> bool" where
  "akp_quiet s \<longleftrightarrow> akp_inv s \<and> sql_faults s = []"

lemma akp_quiet_faults:
  assumes "sql_faults s = []"
  shows "PostgresAPIKeyStore_Validate P s i k = (rv, s') \<Longrightarrow> sql_faults s' = []"
    and "PostgresAPIKeyStore_Create P now s i n k = (rc, s') \<Longrightarrow> sql_faults s' = []"
    and "PostgresAPIKeyStore_List s = (rl, s') \<Longrightarrow> sql_faults s' = []"
    and "PostgresAPIKeyStore_Revoke now s i = (ru, s') \<Longrightarrow> sql_faults s' = []"
  using assms
  by (auto simp: postgres_api_key_defs db_query_ok Let_def dest: db_exec_faults_nil
      split: option.splits if_splits prod.splits sum.splits)

interpretation pgkeysq: reliable_api_key_store P "postgres_api_key_store P" akp_view akp_quiet for P
proof (unfold_locales, goal_cases)
  case (1 s i rec k)
  then show ?case by (auto simp: akp_view_def key_record_of_def)
next
  case (2 s i k rv s')
  then show ?case using akp_Validate(1) [of s P i k rv s'] akp_quiet_faults(1) [of s P i k rv s'] by (simp add: postgres_api_key_store_def akp_quiet_def)
next
  case (3 s now i n k rc s')
  then show ?case using akp_Create [of s P now i n k rc s'] akp_quiet_faults(2) [of s P now i n k rc s'] by (simp add: postgres_api_key_store_def akp_quiet_def)
next
  case (4 s rl s')
  then show ?case using akp_List [of s rl s'] akp_quiet_faults(3) [of s rl s'] by (simp add: postgres_api_key_store_def akp_quiet_def)
next
  case (5 s now i ru s')
  then show ?case using akp_Revoke [of s now i ru s'] akp_quiet_faults(4) [of s now i ru s'] by (simp add: postgres_api_key_store_def akp_quiet_def)
next
  case (6 s i k rv s')
  then show ?case using akp_Validate(2) [of s P i k rv s'] by (simp add: postgres_api_key_store_def akp_quiet_def)
next
  case (7 s now i n k rc s')
  then show ?case
    by (auto simp: postgres_api_key_defs akp_quiet_def db_exec_ok sql_insert_def akp_view_def Let_def
        isUniqueViolation_def unique_violation_def)
next
  case (8 s now i ru s')
  then show ?case
    by (auto simp: postgres_api_key_defs akp_quiet_def db_exec_ok sql_update_def akp_view_def split: option.splits)
qed

end
