(* ===== verification/ApiKeys.thy ===== *)
theory ApiKeys
  imports ApiKeyStore DidHandler
begin

text \<open>
  \<open>internal/handlers/api_key.go\<close> and \<open>internal/middleware/auth.go\<close>: the administration of API keys
  and the guards in front of the protected endpoints. A guard is a function from the handler it
  protects to a handler; \<open>get\<close> and \<open>put\<close> say where in the state the guard finds the store.
\<close>

section \<open>Administration\<close>

record 'a APIKeyHandler =
  akh_store :: 'a

definition NewAPIKeyHandler :: "'a \<Rightarrow> 'a APIKeyHandler" where
  "NewAPIKeyHandler store = \<lparr>akh_store = store\<rparr>"

record CreateKeyRequest =
  ckr_ServiceID :: string
  ckr_ServiceName :: string

definition decode_create_key :: "json option \<Rightarrow> CreateKeyRequest option" where
  "decode_create_key body =
     Decode [(''serviceId'', string_field ckr_ServiceID_update), (''serviceName'', string_field ckr_ServiceName_update)]
       body \<lparr>ckr_ServiceID = [], ckr_ServiceName = []\<rparr>"

definition key_payload :: "APIKeyRecord \<Rightarrow> gval" where
  "key_payload record = GObj
     ([(''serviceId'', GStr (ak_ServiceID record)), (''serviceName'', GStr (ak_ServiceName record)),
       (''createdAt'', GStr (ak_CreatedAt record))]
      @ (if ak_RevokedAt record = [] then [] else [(''revokedAt'', GStr (ak_RevokedAt record))]))"

definition APIKeyHandler_Create :: "'a APIKeyStore \<Rightarrow> clock \<Rightarrow> string option \<Rightarrow> 'a APIKeyHandler \<Rightarrow> json option
    \<Rightarrow> 'a APIKeyHandler handled" where
  "APIKeyHandler_Create aops clk rnd h body =
     (case decode_create_key body of
        None \<Rightarrow> (Done (Error StatusBadRequest ''invalid request body''), h)
      | Some req \<Rightarrow>
        let serviceID = NormalizeAPIKeyInput (ckr_ServiceID req);
            serviceName = NormalizeAPIKeyInput (ckr_ServiceName req) in
        if serviceID = [] then (Done (Error StatusBadRequest ''serviceId is required''), h)
        else
        let serviceName = (if serviceName = [] then serviceID else serviceName) in
        case GenerateAPIKey rnd of
          None \<Rightarrow> (Done (Error StatusInternalServerError ''failed to generate API key''), h)
        | Some apiKey \<Rightarrow>
          (case aks_Create aops (clk 0) (akh_store h) serviceID serviceName apiKey of
             (Inl e, s) \<Rightarrow>
               (Done (if e = ErrAPIKeyExists then Error StatusConflict ''API key already exists''
                      else Error StatusInternalServerError ''failed to create API key''), h\<lparr>akh_store := s\<rparr>)
           | (Inr record, s) \<Rightarrow>
               (Done (JSON StatusCreated (GObj [(''apiKey'', GStr apiKey), (''record'', key_payload record)])),
                h\<lparr>akh_store := s\<rparr>)))"

definition APIKeyHandler_List :: "'a APIKeyStore \<Rightarrow> 'a APIKeyHandler \<Rightarrow> 'a APIKeyHandler handled" where
  "APIKeyHandler_List aops h =
     (case aks_List aops (akh_store h) of
        (Inl _, s) \<Rightarrow> (Done (Error StatusInternalServerError ''failed to list API keys''), h\<lparr>akh_store := s\<rparr>)
      | (Inr records, s) \<Rightarrow>
          (Done (JSON StatusOK (GObj [(''apiKeys'', GArr (map key_payload records))])), h\<lparr>akh_store := s\<rparr>))"

record RevokeKeyRequest =
  rkr_ServiceID :: string

definition decode_revoke_key :: "json option \<Rightarrow> RevokeKeyRequest option" where
  "decode_revoke_key body =
     Decode [(''serviceId'', string_field rkr_ServiceID_update)] body \<lparr>rkr_ServiceID = []\<rparr>"

definition APIKeyHandler_Revoke :: "'a APIKeyStore \<Rightarrow> clock \<Rightarrow> 'a APIKeyHandler \<Rightarrow> json option
    \<Rightarrow> 'a APIKeyHandler handled" where
  "APIKeyHandler_Revoke aops clk h body =
     (case decode_revoke_key body of
        None \<Rightarrow> (Done (Error StatusBadRequest ''invalid request body''), h)
      | Some req \<Rightarrow>
        let serviceID = NormalizeAPIKeyInput (rkr_ServiceID req) in
        if serviceID = [] then (Done (Error StatusBadRequest ''serviceId is required''), h)
        else
        case aks_Revoke aops (clk 0) (akh_store h) serviceID of
          (Inl e, s) \<Rightarrow>
            (Done (if e = ErrAPIKeyNotFound then Error StatusNotFound ''API key not found''
                   else Error StatusInternalServerError ''failed to revoke API key''), h\<lparr>akh_store := s\<rparr>)
        | (Inr _, s) \<Rightarrow>
            (Done (JSON StatusOK (GObj [(''status'', GStr ''REVOKED''), (''serviceId'', GStr serviceID)])),
             h\<lparr>akh_store := s\<rparr>))"

section \<open>Guards\<close>

type_synonym 'g handler = "request \<Rightarrow> 'g \<Rightarrow> 'g handled"

definition RequireAPIKey :: "'a APIKeyStore \<Rightarrow> ('g \<Rightarrow> 'a) \<Rightarrow> ('a \<Rightarrow> 'g \<Rightarrow> 'g) \<Rightarrow> 'g handler \<Rightarrow> 'g handler" where
  "RequireAPIKey aops get put nxt r g =
     (let apiKey = Header_Get r ''X-API-Key''; serviceID = Header_Get r ''X-Service-ID'' in
      if apiKey = [] then (Done (Error StatusUnauthorized ''missing API key''), g)
      else if serviceID = [] then (Done (Error StatusUnauthorized ''missing service ID''), g)
      else case aks_Validate aops (get g) serviceID apiKey of
        (Inl _, s) \<Rightarrow> (Done (Error StatusUnauthorized ''invalid API key''), put s g)
      | (Inr _, s) \<Rightarrow> nxt r (put s g))"

definition RequireAPIKeyPresence :: "'g handler \<Rightarrow> 'g handler" where
  "RequireAPIKeyPresence nxt r g =
     (if Header_Get r ''X-API-Key'' = [] then (Done (Error StatusUnauthorized ''missing API key''), g)
      else nxt r g)"

definition RequireAdminToken :: "string \<Rightarrow> 'g handler \<Rightarrow> 'g handler" where
  "RequireAdminToken adminToken nxt r g =
     (if adminToken = [] then (Done (Error StatusServiceUnavailable ''admin API is not configured''), g)
      else if Header_Get r ''X-Admin-Token'' \<noteq> adminToken
      then (Done (Error StatusUnauthorized ''invalid admin token''), g)
      else nxt r g)"

section \<open>Runs\<close>

datatype key_op =
    OpCreateKey "string option" "json option"
  | OpListKeys
  | OpRevokeKey "json option"
  | OpValidateKey string string

definition key_serve :: "'a APIKeyStore \<Rightarrow> clock \<Rightarrow> key_op \<Rightarrow> 'a APIKeyHandler \<Rightarrow> 'a APIKeyHandler" where
  "key_serve aops clk op h =
     (case op of
        OpCreateKey rnd body \<Rightarrow> snd (APIKeyHandler_Create aops clk rnd h body)
      | OpListKeys \<Rightarrow> snd (APIKeyHandler_List aops h)
      | OpRevokeKey body \<Rightarrow> snd (APIKeyHandler_Revoke aops clk h body)
      | OpValidateKey i k \<Rightarrow> h\<lparr>akh_store := snd (aks_Validate aops (akh_store h) i k)\<rparr>)"

inductive key_reach :: "'a APIKeyStore \<Rightarrow> 'a APIKeyHandler \<Rightarrow> 'a APIKeyHandler \<Rightarrow> bool"
  for aops :: "'a APIKeyStore" and h0 :: "'a APIKeyHandler" where
  start: "key_reach aops h0 h0"
| serve: "key_reach aops h0 h \<Longrightarrow> key_reach aops h0 (key_serve aops clk op h)"

text \<open>The requests among which none revokes the key of the service \<open>i\<close>.\<close>

definition revokes :: "string \<Rightarrow> key_op \<Rightarrow> bool" where
  "revokes i op \<longleftrightarrow>
     (case op of
        OpRevokeKey body \<Rightarrow>
          (case decode_revoke_key body of None \<Rightarrow> False | Some req \<Rightarrow> NormalizeAPIKeyInput (rkr_ServiceID req) = i)
      | _ \<Rightarrow> False)"

inductive unrevoked_reach :: "'a APIKeyStore \<Rightarrow> string \<Rightarrow> 'a APIKeyHandler \<Rightarrow> 'a APIKeyHandler \<Rightarrow> bool"
  for aops :: "'a APIKeyStore" and i :: string and h0 :: "'a APIKeyHandler" where
  start: "unrevoked_reach aops i h0 h0"
| serve: "unrevoked_reach aops i h0 h \<Longrightarrow> \<not> revokes i op \<Longrightarrow> unrevoked_reach aops i h0 (key_serve aops clk op h)"

section \<open>The endpoints over any store of the contract\<close>

context api_key_store
begin

abbreviation kv :: "'s APIKeyHandler \<Rightarrow> key_view" where
  "kv h \<equiv> view (akh_store h)"

abbreviation kinv :: "'s APIKeyHandler \<Rightarrow> bool" where
  "kinv h \<equiv> inv (akh_store h)"

lemma Create_handler_law:
  assumes inv: "kinv h" and cr: "APIKeyHandler_Create ops clk rnd h body = (out, h')"
  shows "kinv h'" "out \<noteq> Panic"
    and "kv h' = kv h \<or> (\<exists>req n k. decode_create_key body = Some req \<and> GenerateAPIKey rnd = Some k
      \<and> NormalizeAPIKeyInput (ckr_ServiceID req) \<noteq> [] \<and> kv h (NormalizeAPIKeyInput (ckr_ServiceID req)) = None
      \<and> kv h' = (kv h)(NormalizeAPIKeyInput (ckr_ServiceID req) \<mapsto>
          (new_key_record (clk 0) (NormalizeAPIKeyInput (ckr_ServiceID req)) n, hashAPIKey P k)))"
    and "answers out 201 \<Longrightarrow> \<exists>req n k rec. decode_create_key body = Some req \<and> GenerateAPIKey rnd = Some k
      \<and> out = Done (JSON 201 (GObj [(''apiKey'', GStr k), (''record'', key_payload rec)]))
      \<and> rec = new_key_record (clk 0) (NormalizeAPIKeyInput (ckr_ServiceID req)) n
      \<and> kv h' = (kv h)(NormalizeAPIKeyInput (ckr_ServiceID req) \<mapsto> (rec, hashAPIKey P k))"
proof -
  have "kinv h' \<and> out \<noteq> Panic \<and> (kv h' = kv h \<or> (\<exists>req n k. decode_create_key body = Some req \<and> GenerateAPIKey rnd = Some k
      \<and> NormalizeAPIKeyInput (ckr_ServiceID req) \<noteq> [] \<and> kv h (NormalizeAPIKeyInput (ckr_ServiceID req)) = None
      \<and> kv h' = (kv h)(NormalizeAPIKeyInput (ckr_ServiceID req) \<mapsto>
          (new_key_record (clk 0) (NormalizeAPIKeyInput (ckr_ServiceID req)) n, hashAPIKey P k))))
    \<and> (answers out 201 \<longrightarrow> (\<exists>req n k rec. decode_create_key body = Some req \<and> GenerateAPIKey rnd = Some k
      \<and> out = Done (JSON 201 (GObj [(''apiKey'', GStr k), (''record'', key_payload rec)]))
      \<and> rec = new_key_record (clk 0) (NormalizeAPIKeyInput (ckr_ServiceID req)) n
      \<and> kv h' = (kv h)(NormalizeAPIKeyInput (ckr_ServiceID req) \<mapsto> (rec, hashAPIKey P k))))"
  proof (cases "\<exists>req k. decode_create_key body = Some req \<and> NormalizeAPIKeyInput (ckr_ServiceID req) \<noteq> []
      \<and> GenerateAPIKey rnd = Some k")
    case False
    then have "h' = h \<and> out \<noteq> Panic \<and> \<not> answers out 201"
      using cr by (auto simp: APIKeyHandler_Create_def Let_def split: option.splits if_splits)
    then show ?thesis using inv by auto
  next
    case True
    then obtain req k where req: "decode_create_key body = Some req" "GenerateAPIKey rnd = Some k"
      and i: "NormalizeAPIKeyInput (ckr_ServiceID req) \<noteq> []" by blast
    define sid where "sid = NormalizeAPIKeyInput (ckr_ServiceID req)"
    define n where "n = (if NormalizeAPIKeyInput (ckr_ServiceName req) = [] then sid else NormalizeAPIKeyInput (ckr_ServiceName req))"
    obtain rc s where rc: "aks_Create ops (clk 0) (akh_store h) sid n k = (rc, s)" by fastforce
    note law = Create_law [OF inv rc]
    have "h' = h\<lparr>akh_store := s\<rparr>" "out \<noteq> Panic"
      "answers out 201 \<Longrightarrow> \<exists>rec. rc = Inr rec \<and> out = Done (JSON 201 (GObj [(''apiKey'', GStr k), (''record'', key_payload rec)]))"
      using cr req i rc unfolding APIKeyHandler_Create_def
      by (auto simp: Let_def sid_def n_def split: sum.splits if_splits)
    then show ?thesis using law req i unfolding sid_def by auto
  qed
  then show "kinv h'" "out \<noteq> Panic"
    and "kv h' = kv h \<or> (\<exists>req n k. decode_create_key body = Some req \<and> GenerateAPIKey rnd = Some k
      \<and> NormalizeAPIKeyInput (ckr_ServiceID req) \<noteq> [] \<and> kv h (NormalizeAPIKeyInput (ckr_ServiceID req)) = None
      \<and> kv h' = (kv h)(NormalizeAPIKeyInput (ckr_ServiceID req) \<mapsto>
          (new_key_record (clk 0) (NormalizeAPIKeyInput (ckr_ServiceID req)) n, hashAPIKey P k)))"
    and "answers out 201 \<Longrightarrow> \<exists>req n k rec. decode_create_key body = Some req \<and> GenerateAPIKey rnd = Some k
      \<and> out = Done (JSON 201 (GObj [(''apiKey'', GStr k), (''record'', key_payload rec)]))
      \<and> rec = new_key_record (clk 0) (NormalizeAPIKeyInput (ckr_ServiceID req)) n
      \<and> kv h' = (kv h)(NormalizeAPIKeyInput (ckr_ServiceID req) \<mapsto> (rec, hashAPIKey P k))" by blast+
qed

lemma List_handler_law:
  assumes inv: "kinv h" and ls: "APIKeyHandler_List ops h = (out, h')"
  shows "kinv h'" "out \<noteq> Panic" "kv h' = kv h"
  using ls List_law [OF inv, of "fst (aks_List ops (akh_store h))" "snd (aks_List ops (akh_store h))"]
  by (auto simp: APIKeyHandler_List_def split: prod.splits sum.splits)

lemma Revoke_handler_law:
  assumes inv: "kinv h" and rv: "APIKeyHandler_Revoke ops clk h body = (out, h')"
  shows "kinv h'" "out \<noteq> Panic"
    and "kv h' = kv h \<or> (\<exists>req rec k. decode_revoke_key body = Some req
      \<and> kv h (NormalizeAPIKeyInput (rkr_ServiceID req)) = Some (rec, k)
      \<and> kv h' = (kv h)(NormalizeAPIKeyInput (rkr_ServiceID req) \<mapsto> (revoked_key (clk 0) rec, k)))"
    and "answers out 200 \<Longrightarrow> \<exists>req rec k. decode_revoke_key body = Some req
      \<and> kv h (NormalizeAPIKeyInput (rkr_ServiceID req)) = Some (rec, k)
      \<and> kv h' = (kv h)(NormalizeAPIKeyInput (rkr_ServiceID req) \<mapsto> (revoked_key (clk 0) rec, k))"
proof -
  have "kinv h' \<and> out \<noteq> Panic \<and> (kv h' = kv h \<or> (\<exists>req rec k. decode_revoke_key body = Some req
      \<and> kv h (NormalizeAPIKeyInput (rkr_ServiceID req)) = Some (rec, k)
      \<and> kv h' = (kv h)(NormalizeAPIKeyInput (rkr_ServiceID req) \<mapsto> (revoked_key (clk 0) rec, k))))
    \<and> (answers out 200 \<longrightarrow> (\<exists>req rec k. decode_revoke_key body = Some req
      \<and> kv h (NormalizeAPIKeyInput (rkr_ServiceID req)) = Some (rec, k)
      \<and> kv h' = (kv h)(NormalizeAPIKeyInput (rkr_ServiceID req) \<mapsto> (revoked_key (clk 0) rec, k))))"
  proof (cases "\<exists>req. decode_revoke_key body = Some req \<and> NormalizeAPIKeyInput (rkr_ServiceID req) \<noteq> []")
    case False
    then have "h' = h \<and> out \<noteq> Panic \<and> \<not> answers out 200"
      using rv by (auto simp: APIKeyHandler_Revoke_def Let_def split: option.splits if_splits)
    then show ?thesis using inv by auto
  next
    case True
    then obtain req where req: "decode_revoke_key body = Some req" "NormalizeAPIKeyInput (rkr_ServiceID req) \<noteq> []" by blast
    obtain ru s where ru: "aks_Revoke ops (clk 0) (akh_store h) (NormalizeAPIKeyInput (rkr_ServiceID req)) = (ru, s)" by fastforce
    note law = Revoke_law [OF inv ru]
    have "h' = h\<lparr>akh_store := s\<rparr>" "out \<noteq> Panic" "answers out 200 \<Longrightarrow> ru = Inr ()"
      using rv req ru unfolding APIKeyHandler_Revoke_def by (auto simp: Let_def split: sum.splits if_splits)
    then show ?thesis using law req by auto
  qed
  then show "kinv h'" "out \<noteq> Panic"
    and "kv h' = kv h \<or> (\<exists>req rec k. decode_revoke_key body = Some req
      \<and> kv h (NormalizeAPIKeyInput (rkr_ServiceID req)) = Some (rec, k)
      \<and> kv h' = (kv h)(NormalizeAPIKeyInput (rkr_ServiceID req) \<mapsto> (revoked_key (clk 0) rec, k)))"
    and "answers out 200 \<Longrightarrow> \<exists>req rec k. decode_revoke_key body = Some req
      \<and> kv h (NormalizeAPIKeyInput (rkr_ServiceID req)) = Some (rec, k)
      \<and> kv h' = (kv h)(NormalizeAPIKeyInput (rkr_ServiceID req) \<mapsto> (revoked_key (clk 0) rec, k))" by blast+
qed

text \<open>
  A service keeps its digest for good, and its revocation too: the only change to a stored key
  is its revocation.
\<close>

definition key_succ :: "APIKeyRecord \<times> string \<Rightarrow> APIKeyRecord \<times> string \<Rightarrow> bool" where
  "key_succ a b \<longleftrightarrow> snd b = snd a \<and> (ak_RevokedAt (fst a) \<noteq> [] \<longrightarrow> ak_RevokedAt (fst b) \<noteq> [])"

lemma key_serve_law:
  assumes "kinv h"
  shows "kinv (key_serve ops clk op h)"
    and "kv h i = Some a \<Longrightarrow> \<exists>b. kv (key_serve ops clk op h) i = Some b \<and> key_succ a b"
proof -
  have "kinv (key_serve ops clk op h) \<and> (\<forall>a. kv h i = Some a \<longrightarrow> (\<exists>b. kv (key_serve ops clk op h) i = Some b \<and> key_succ a b))"
  proof (cases op)
    case (OpCreateKey rnd body)
    obtain out h' where c: "APIKeyHandler_Create ops clk rnd h body = (out, h')" by fastforce
    then show ?thesis
      using Create_handler_law(1,3) [OF assms c] OpCreateKey by (auto simp: key_serve_def key_succ_def)
  next
    case OpListKeys
    obtain out h' where c: "APIKeyHandler_List ops h = (out, h')" by fastforce
    then show ?thesis using List_handler_law [OF assms c] OpListKeys by (simp add: key_serve_def key_succ_def)
  next
    case (OpRevokeKey body)
    obtain out h' where c: "APIKeyHandler_Revoke ops clk h body = (out, h')" by fastforce
    then show ?thesis
      using Revoke_handler_law(1,3) [OF assms c] OpRevokeKey by (auto simp: key_serve_def key_succ_def)
  next
    case (OpValidateKey j k)
    obtain rv s where v: "aks_Validate ops (akh_store h) j k = (rv, s)" by fastforce
    then show ?thesis using Validate_law [OF assms v] OpValidateKey by (simp add: key_serve_def key_succ_def)
  qed
  then show "kinv (key_serve ops clk op h)"
    and "kv h i = Some a \<Longrightarrow> \<exists>b. kv (key_serve ops clk op h) i = Some b \<and> key_succ a b" by blast+
qed

lemma key_reach_law:
  assumes "key_reach ops h h'" "kinv h"
  shows "kinv h' \<and> (\<forall>a. kv h i = Some a \<longrightarrow> (\<exists>b. kv h' i = Some b \<and> key_succ a b))"
  using assms
proof (induction rule: key_reach.induct)
  case (serve h1 clk op)
  then have "kinv h1" by blast
  note law = key_serve_law [OF this, where clk = clk and op = op]
  show ?case
  proof (intro conjI allI impI)
    show "kinv (key_serve ops clk op h1)" by (rule law(1))
    fix a assume "kv h i = Some a"
    then obtain b where b: "kv h1 i = Some b" "key_succ a b" using serve by blast
    obtain c where c: "kv (key_serve ops clk op h1) i = Some c" "key_succ b c" using law(2) [OF b(1)] by blast
    have "key_succ a c" using b(2) c(2) by (simp add: key_succ_def)
    then show "\<exists>b. kv (key_serve ops clk op h1) i = Some b \<and> key_succ a b" using c(1) by blast
  qed
qed (auto simp: key_succ_def)

lemma revoked_for_good:
  assumes inv: "kinv h" and rv: "APIKeyHandler_Revoke ops clk h body = (out, h1)" "answers out 200"
    and req: "decode_revoke_key body = Some req" and reach: "key_reach ops h1 h2"
    and v: "aks_Validate ops (akh_store h2) (NormalizeAPIKeyInput (rkr_ServiceID req)) k = (rv, s)"
  shows "rv \<noteq> Inr ()"
proof
  assume ok: "rv = Inr ()"
  let ?i = "NormalizeAPIKeyInput (rkr_ServiceID req)"
  obtain rec d where r: "kv h1 ?i = Some (revoked_key (clk 0) rec, d)"
    using Revoke_handler_law(4) [OF inv rv] req by auto
  have "kinv h1" by (rule Revoke_handler_law(1) [OF inv rv(1)])
  note kr = key_reach_law [OF reach this, of ?i]
  then obtain b where b: "kv h2 ?i = Some b" "key_succ (revoked_key (clk 0) rec, d) b" using r by blast
  have "key_valid P (kv h2) ?i k" using Validate_law [OF conjunct1 [OF kr] v] ok by blast
  then show False using b by (auto simp: key_valid_def key_succ_def)
qed

lemma unrevoked_step:
  assumes "kinv h" "\<not> revokes i op" "kv h i = Some a" shows "kv (key_serve ops clk op h) i = Some a"
proof (cases op)
  case (OpCreateKey rnd body)
  then show ?thesis
    using Create_handler_law(3) [OF assms(1) surjective_pairing, of clk rnd body] assms(3) by (auto simp: key_serve_def)
next
  case OpListKeys
  then show ?thesis using List_handler_law(3) [OF assms(1) surjective_pairing] assms(3) by (simp add: key_serve_def)
next
  case (OpRevokeKey body)
  then show ?thesis
    using Revoke_handler_law(3) [OF assms(1) surjective_pairing, of clk body] assms(2,3)
    by (auto simp: key_serve_def revokes_def)
next
  case (OpValidateKey j k)
  then show ?thesis using Validate_law [OF assms(1) surjective_pairing, of j k] assms(3) by (simp add: key_serve_def)
qed

lemma unrevoked_reach_law:
  assumes "unrevoked_reach ops i h h'" "kinv h" shows "kinv h' \<and> (\<forall>a. kv h i = Some a \<longrightarrow> kv h' i = Some a)"
  using assms
proof (induction rule: unrevoked_reach.induct)
  case (serve h1 op clk)
  then show ?case using key_serve_law(1) unrevoked_step by blast
qed simp

text \<open>The key that an answer 201 reveals is the one whose digest is stored, until it is revoked.\<close>

lemma created_stays:
  assumes inv: "kinv h" and cr: "APIKeyHandler_Create ops clk rnd h body = (out, h1)" "answers out 201"
  obtains req n k rec where "decode_create_key body = Some req"
    "out = Done (JSON 201 (GObj [(''apiKey'', GStr k), (''record'', key_payload rec)]))"
    "rec = new_key_record (clk 0) (TrimSpace (ckr_ServiceID req)) n"
    "kv h1 = (kv h)(TrimSpace (ckr_ServiceID req) \<mapsto> (rec, hashAPIKey P k))"
    "\<And>h2. unrevoked_reach ops (TrimSpace (ckr_ServiceID req)) h1 h2 \<Longrightarrow>
       kinv h2 \<and> key_valid P (kv h2) (TrimSpace (ckr_ServiceID req)) k"
proof -
  from Create_handler_law(4) [OF inv cr] obtain req n k rec where c: "decode_create_key body = Some req"
    "out = Done (JSON 201 (GObj [(''apiKey'', GStr k), (''record'', key_payload rec)]))"
    "rec = new_key_record (clk 0) (TrimSpace (ckr_ServiceID req)) n"
    "kv h1 = (kv h)(TrimSpace (ckr_ServiceID req) \<mapsto> (rec, hashAPIKey P k))"
    unfolding NormalizeAPIKeyInput_def by blast
  note inv1 = Create_handler_law(1) [OF inv cr(1)]
  have "kinv h2 \<and> key_valid P (kv h2) (TrimSpace (ckr_ServiceID req)) k"
    if "unrevoked_reach ops (TrimSpace (ckr_ServiceID req)) h1 h2" for h2
    using unrevoked_reach_law [OF that inv1] c(3,4) by (auto simp: key_valid_def)
  then show thesis using that c by blast
qed

end

end
