(* ===== verification/ApiKeyProperties.thy ===== *)
theory ApiKeyProperties
  imports ApiKeys Demo
begin

text \<open>
  What the API keys guarantee, in memory and in Postgres: whom the guard lets through, that a
  created key works, that a revocation is final, and where the development keys are.
\<close>

definition empty_api_keys :: "db_fault list \<Rightarrow> PostgresAPIKeyStore" where
  "empty_api_keys faults = \<lparr>sql_rows = [], sql_faults = faults\<rparr>"

definition dev_keys_run :: "prims \<Rightarrow> clock \<Rightarrow> bool \<Rightarrow> MemoryAPIKeyStore APIKeyHandler \<Rightarrow> bool" where
  "dev_keys_run P clk seedDevKeys h \<longleftrightarrow>
     key_reach (memory_api_key_store P) (NewAPIKeyHandler (NewMemoryAPIKeyStoreWithDevSeeds P clk seedDevKeys)) h"

definition prod_keys_run :: "prims \<Rightarrow> db_fault list \<Rightarrow> PostgresAPIKeyStore APIKeyHandler \<Rightarrow> bool" where
  "prod_keys_run P faults h \<longleftrightarrow> key_reach (postgres_api_key_store P) (NewAPIKeyHandler (empty_api_keys faults)) h"

lemma seeded_keys:
  "mem_keys (NewMemoryAPIKeyStoreWithDevSeeds P clk seed) =
     (if seed then
        [(''dev-service'', \<lparr>mk_record = new_key_record (clk 0) ''dev-service'' ''UDDI Dev Service'', mk_hash = hashAPIKey P ''dev-api-key''\<rparr>),
         (''test-service'', \<lparr>mk_record = new_key_record (clk 1) ''test-service'' ''UDDI Test Service'', mk_hash = hashAPIKey P ''test-key''\<rparr>)]
      else [])"
  by (simp add: NewMemoryAPIKeyStoreWithDevSeeds_def seedDevelopmentAPIKeys_def development_seeds_def memory_api_key_defs Let_def)

lemma seeded_inv: "akm_inv (NewMemoryAPIKeyStoreWithDevSeeds P clk seed)"
  by (auto simp: akm_inv_def seeded_keys split: if_splits)

lemma dev_keys_inv: "dev_keys_run P clk seed h \<Longrightarrow> akm_inv (akh_store h)"
  using memkeys.key_reach_law seeded_inv unfolding dev_keys_run_def by (fastforce simp: NewAPIKeyHandler_def)

lemma prod_keys_inv: "prod_keys_run P faults h \<Longrightarrow> akp_inv (akh_store h)"
proof -
  have "akp_inv (empty_api_keys faults)" by (simp add: akp_inv_def db_wf_def empty_api_keys_def)
  then show "prod_keys_run P faults h \<Longrightarrow> akp_inv (akh_store h)"
    using pgkeys.key_reach_law unfolding prod_keys_run_def by (fastforce simp: NewAPIKeyHandler_def)
qed

section \<open>The guard\<close>

text \<open>
  C8: \<open>RequireAPIKey\<close> runs the handler it protects exactly when the request names a service and a
  key, the service has not been revoked, and the stored digest is that of the key; otherwise it
  answers 401 and the handler does not run. With Postgres a failing query counts as an invalid
  key: the guard fails closed. The stored keys are the same afterwards.
\<close>

theorem guard_admits_exactly:
  fixes get1 :: "'g \<Rightarrow> MemoryAPIKeyStore" and get2 :: "'g \<Rightarrow> PostgresAPIKeyStore"
  assumes "akm_inv (get1 g)" "akp_inv (get2 g)" "put1 (get1 g) g = g"
    and "i = Header_Get r ''X-Service-ID''" "k = Header_Get r ''X-API-Key''"
  shows "(if k \<noteq> [] \<and> i \<noteq> [] \<and> key_valid P (akm_view (get1 g)) i k
      then RequireAPIKey (memory_api_key_store P) get1 put1 nxt r g = nxt r g
      else \<exists>m. RequireAPIKey (memory_api_key_store P) get1 put1 nxt r g = (Done (Error 401 m), g))
   \<and> (\<exists>g'. (g' = g \<or> (\<exists>s. g' = put2 s g \<and> akp_inv s \<and> akp_view s = akp_view (get2 g)))
      \<and> (RequireAPIKey (postgres_api_key_store P) get2 put2 nxt r g = nxt r g'
            \<and> k \<noteq> [] \<and> i \<noteq> [] \<and> key_valid P (akp_view (get2 g)) i k
         \<or> (\<exists>m. RequireAPIKey (postgres_api_key_store P) get2 put2 nxt r g = (Done (Error 401 m), g'))
            \<and> \<not> (k \<noteq> [] \<and> i \<noteq> [] \<and> key_valid P (akp_view (get2 g)) i k \<and> sql_faults (get2 g) = [])))"
proof
  have "MemoryAPIKeyStore_Validate P s i k = (if key_valid P (akm_view s) i k then Inr () else Inl ErrAPIKeyInvalid, s)" for s
    by (auto simp: MemoryAPIKeyStore_Validate_def key_valid_def akm_view_def split: option.splits)
  then show "if k \<noteq> [] \<and> i \<noteq> [] \<and> key_valid P (akm_view (get1 g)) i k
      then RequireAPIKey (memory_api_key_store P) get1 put1 nxt r g = nxt r g
      else \<exists>m. RequireAPIKey (memory_api_key_store P) get1 put1 nxt r g = (Done (Error 401 m), g)"
    using assms(3,4,5) by (auto simp: RequireAPIKey_def memory_api_key_store_def Let_def)
next
  let ?R = "RequireAPIKey (postgres_api_key_store P) get2 put2 nxt r g"
  show "\<exists>g'. (g' = g \<or> (\<exists>s. g' = put2 s g \<and> akp_inv s \<and> akp_view s = akp_view (get2 g)))
      \<and> (?R = nxt r g' \<and> k \<noteq> [] \<and> i \<noteq> [] \<and> key_valid P (akp_view (get2 g)) i k
         \<or> (\<exists>m. ?R = (Done (Error 401 m), g'))
            \<and> \<not> (k \<noteq> [] \<and> i \<noteq> [] \<and> key_valid P (akp_view (get2 g)) i k \<and> sql_faults (get2 g) = []))"
  proof (cases "k \<noteq> [] \<and> i \<noteq> []")
    case False
    then have "\<exists>m. ?R = (Done (Error 401 m), g)" using assms(4,5) by (auto simp: RequireAPIKey_def Let_def)
    then show ?thesis using False by blast
  next
    case True
    obtain rv s where v: "aks_Validate (postgres_api_key_store P) (get2 g) i k = (rv, s)" by fastforce
    note law = pgkeys.Validate_law [OF assms(2) v]
    have ok: "sql_faults (get2 g) = [] \<Longrightarrow> rv = (if key_valid P (akp_view (get2 g)) i k then Inr () else Inl ErrAPIKeyInvalid)"
      using pgkeysq.Validate_ok [OF _ v] assms(2) by (simp add: akp_quiet_def)
    have R: "?R = (case rv of Inl e \<Rightarrow> (Done (Error 401 ''invalid API key''), put2 s g) | Inr _ \<Rightarrow> nxt r (put2 s g))"
      using True v assms(4,5) by (auto simp: RequireAPIKey_def Let_def split: sum.splits)
    show ?thesis
    proof (rule exI [of _ "put2 s g"], intro conjI)
      show "put2 s g = g \<or> (\<exists>sa. put2 s g = put2 sa g \<and> akp_inv sa \<and> akp_view sa = akp_view (get2 g))" using law by blast
      show "?R = nxt r (put2 s g) \<and> k \<noteq> [] \<and> i \<noteq> [] \<and> key_valid P (akp_view (get2 g)) i k
         \<or> (\<exists>m. ?R = (Done (Error 401 m), put2 s g))
            \<and> \<not> (k \<noteq> [] \<and> i \<noteq> [] \<and> key_valid P (akp_view (get2 g)) i k \<and> sql_faults (get2 g) = [])"
        using R law ok True by (cases rv) auto
    qed
  qed
qed

definition key_request :: "string \<Rightarrow> string \<Rightarrow> request" where
  "key_request i k = \<lparr>rq_method = ''GET'', rq_path = [], rq_headers = [(''X-API-Key'', k), (''X-Service-ID'', i)],
     rq_RemoteAddr = [], rq_body = None\<rparr>"

lemma key_request_headers [simp]:
  "Header_Get (key_request i k) ''X-API-Key'' = k" "Header_Get (key_request i k) ''X-Service-ID'' = i"
  by (simp_all add: Header_Get_def key_request_def upper_char_def)

definition ok_handler :: "'g handler" where
  "ok_handler r g = (Done (JSON 200 GNil), g)"

theorem guard_admits_exactly_witness:
  "RequireAPIKey (memory_api_key_store demo_prims) fst (\<lambda>s (_, t). (s, t)) ok_handler (key_request ''dev-service'' ''dev-api-key'')
     (NewMemoryAPIKeyStore demo_prims demo_clock, empty_api_keys []) =
   (Done (JSON 200 GNil), (NewMemoryAPIKeyStore demo_prims demo_clock, empty_api_keys []))"
proof -
  have "key_valid demo_prims (akm_view (NewMemoryAPIKeyStore demo_prims demo_clock)) ''dev-service'' ''dev-api-key''"
    by (simp add: key_valid_def akm_view_def NewMemoryAPIKeyStore_def seeded_keys)
  moreover have "akm_inv (NewMemoryAPIKeyStore demo_prims demo_clock)" "akp_inv (empty_api_keys [])"
    by (simp_all add: NewMemoryAPIKeyStore_def seeded_inv akp_inv_def db_wf_def empty_api_keys_def)
  ultimately show ?thesis
    using guard_admits_exactly [of fst "(NewMemoryAPIKeyStore demo_prims demo_clock, empty_api_keys [])" snd
        "\<lambda>s (_, t). (s, t)" "''dev-service''" "key_request ''dev-service'' ''dev-api-key''" "''dev-api-key''"
        demo_prims ok_handler "\<lambda>t (s, _). (s, t)"]
    by (simp add: ok_handler_def)
qed

section \<open>The life of a key\<close>

lemma memory_created:
  assumes run: "dev_keys_run P clk0 seed h"
    and cr: "APIKeyHandler_Create (memory_api_key_store P) clk rnd h body = (out, h1)" "answers out 201"
  shows "\<exists>req n k rec. decode_create_key body = Some req
    \<and> out = Done (JSON 201 (GObj [(''apiKey'', GStr k), (''record'', key_payload rec)]))
    \<and> rec = new_key_record (clk 0) (TrimSpace (ckr_ServiceID req)) n
    \<and> gm_get (mem_keys (akh_store h1)) (TrimSpace (ckr_ServiceID req)) = Some \<lparr>mk_record = rec, mk_hash = hashAPIKey P k\<rparr>
    \<and> (\<forall>h2. unrevoked_reach (memory_api_key_store P) (TrimSpace (ckr_ServiceID req)) h1 h2 \<longrightarrow>
        fst (MemoryAPIKeyStore_Validate P (akh_store h2) (TrimSpace (ckr_ServiceID req)) k) = Inr ())"
proof -
  obtain req n k rec where c: "decode_create_key body = Some req"
    "out = Done (JSON 201 (GObj [(''apiKey'', GStr k), (''record'', key_payload rec)]))"
    "rec = new_key_record (clk 0) (TrimSpace (ckr_ServiceID req)) n"
    "akm_view (akh_store h1) = (akm_view (akh_store h))(TrimSpace (ckr_ServiceID req) \<mapsto> (rec, hashAPIKey P k))"
    "\<And>h2. unrevoked_reach (memory_api_key_store P) (TrimSpace (ckr_ServiceID req)) h1 h2 \<Longrightarrow>
       akm_inv (akh_store h2) \<and> key_valid P (akm_view (akh_store h2)) (TrimSpace (ckr_ServiceID req)) k"
    by (rule memkeys.created_stays [OF dev_keys_inv [OF run] cr]; rule that; assumption)
  let ?i = "TrimSpace (ckr_ServiceID req)"
  have "fst (MemoryAPIKeyStore_Validate P (akh_store h2) ?i k) = Inr ()" if "unrevoked_reach (memory_api_key_store P) ?i h1 h2" for h2
    using memkeys.Validate_ok [OF _ surjective_pairing, of "akh_store h2" P ?i k] c(5) [OF that]
    by (simp add: memory_api_key_store_def)
  moreover have "gm_get (mem_keys (akh_store h1)) ?i = Some \<lparr>mk_record = rec, mk_hash = hashAPIKey P k\<rparr>"
    using fun_cong [OF c(4), of ?i] by (auto simp: akm_view_def)
  ultimately show ?thesis using c(1-3) by blast
qed

lemma postgres_created:
  assumes run: "prod_keys_run P faults h"
    and cr: "APIKeyHandler_Create (postgres_api_key_store P) clk rnd h body = (out, h1)" "answers out 201"
  shows "\<exists>req n k rec. decode_create_key body = Some req
    \<and> out = Done (JSON 201 (GObj [(''apiKey'', GStr k), (''record'', key_payload rec)]))
    \<and> rec = new_key_record (clk 0) (TrimSpace (ckr_ServiceID req)) n
    \<and> gm_get (sql_rows (akh_store h1)) (TrimSpace (ckr_ServiceID req)) =
        Some \<lparr>row_service_name = n, row_api_key_hash = hashAPIKey P k,
          row_key_created_at = FormatRFC3339 (clk 0), row_key_revoked_at = None\<rparr>
    \<and> (\<forall>h2. unrevoked_reach (postgres_api_key_store P) (TrimSpace (ckr_ServiceID req)) h1 h2 \<and> sql_faults (akh_store h2) = [] \<longrightarrow>
        fst (PostgresAPIKeyStore_Validate P (akh_store h2) (TrimSpace (ckr_ServiceID req)) k) = Inr ())"
proof -
  obtain req n k rec where c: "decode_create_key body = Some req"
    "out = Done (JSON 201 (GObj [(''apiKey'', GStr k), (''record'', key_payload rec)]))"
    "rec = new_key_record (clk 0) (TrimSpace (ckr_ServiceID req)) n"
    "akp_view (akh_store h1) = (akp_view (akh_store h))(TrimSpace (ckr_ServiceID req) \<mapsto> (rec, hashAPIKey P k))"
    "\<And>h2. unrevoked_reach (postgres_api_key_store P) (TrimSpace (ckr_ServiceID req)) h1 h2 \<Longrightarrow>
       akp_inv (akh_store h2) \<and> key_valid P (akp_view (akh_store h2)) (TrimSpace (ckr_ServiceID req)) k"
    by (rule pgkeys.created_stays [OF prod_keys_inv [OF run] cr]; rule that; assumption)
  let ?i = "TrimSpace (ckr_ServiceID req)"
  have "fst (PostgresAPIKeyStore_Validate P (akh_store h2) ?i k) = Inr ()"
    if "unrevoked_reach (postgres_api_key_store P) ?i h1 h2" "sql_faults (akh_store h2) = []" for h2
    using pgkeysq.Validate_ok [OF _ surjective_pairing, of "akh_store h2" P ?i k] c(5) [OF that(1)] that(2)
    by (simp add: postgres_api_key_store_def akp_quiet_def)
  moreover obtain row where row: "gm_get (sql_rows (akh_store h1)) ?i = Some row" "key_record_of ?i row = rec"
    "row_api_key_hash row = hashAPIKey P k"
    using fun_cong [OF c(4), of ?i] by (auto simp: akp_view_def)
  have "row_key_revoked_at row \<noteq> Some []" using c(5) [OF unrevoked_reach.start] row(1) by (auto simp: akp_inv_def)
  then have "row = \<lparr>row_service_name = n, row_api_key_hash = hashAPIKey P k,
      row_key_created_at = FormatRFC3339 (clk 0), row_key_revoked_at = None\<rparr>"
    using row(2,3) c(3) by (cases row) (auto simp: key_record_of_def new_key_record_def text_or_empty_def split: option.splits)
  ultimately show ?thesis using c(1-3) row(1) by blast
qed

text \<open>
  C32: when the administration answers 201 it reveals a key, what it stores for the service is the
  digest of that key, not the key, and the key validates for the service in every state that
  requests of the administration and the guards reach from there, as long as no request revokes
  the key of this service. With Postgres the driver may fail in between, but must answer the query that validates.
\<close>

theorem created_key_validates:
  "(dev_keys_run P clk0 seed h \<and> APIKeyHandler_Create (memory_api_key_store P) clk rnd h body = (out, h1) \<and> answers out 201 \<longrightarrow>
      (\<exists>req n k rec. decode_create_key body = Some req
        \<and> out = Done (JSON 201 (GObj [(''apiKey'', GStr k), (''record'', key_payload rec)]))
        \<and> rec = new_key_record (clk 0) (TrimSpace (ckr_ServiceID req)) n
        \<and> gm_get (mem_keys (akh_store h1)) (TrimSpace (ckr_ServiceID req)) = Some \<lparr>mk_record = rec, mk_hash = hashAPIKey P k\<rparr>
        \<and> (\<forall>h2. unrevoked_reach (memory_api_key_store P) (TrimSpace (ckr_ServiceID req)) h1 h2 \<longrightarrow>
            fst (MemoryAPIKeyStore_Validate P (akh_store h2) (TrimSpace (ckr_ServiceID req)) k) = Inr ())))
   \<and> (prod_keys_run P faults h' \<and> APIKeyHandler_Create (postgres_api_key_store P) clk rnd h' body = (out, h1') \<and> answers out 201 \<longrightarrow>
      (\<exists>req n k rec. decode_create_key body = Some req
        \<and> out = Done (JSON 201 (GObj [(''apiKey'', GStr k), (''record'', key_payload rec)]))
        \<and> rec = new_key_record (clk 0) (TrimSpace (ckr_ServiceID req)) n
        \<and> gm_get (sql_rows (akh_store h1')) (TrimSpace (ckr_ServiceID req)) =
            Some \<lparr>row_service_name = n, row_api_key_hash = hashAPIKey P k,
              row_key_created_at = FormatRFC3339 (clk 0), row_key_revoked_at = None\<rparr>
        \<and> (\<forall>h2. unrevoked_reach (postgres_api_key_store P) (TrimSpace (ckr_ServiceID req)) h1' h2 \<and> sql_faults (akh_store h2) = [] \<longrightarrow>
            fst (PostgresAPIKeyStore_Validate P (akh_store h2) (TrimSpace (ckr_ServiceID req)) k) = Inr ())))"
  by (intro conjI impI; elim conjE) (rule memory_created postgres_created; assumption)+

definition demo_new_key :: "json option" where
  "demo_new_key = Some (JObject [(''serviceId'', JString ''svc'')])"

definition demo_rnd :: string where "demo_rnd = replicate 32 (CHR ''r'')"

lemma demo_decode_key [simp]: "decode_create_key demo_new_key = Some \<lparr>ckr_ServiceID = ''svc'', ckr_ServiceName = []\<rparr>"
  by (simp add: decode_create_key_def demo_new_key_def Decode_def decode_struct_def field_for_def go_defs)

lemma trim_svc [simp]: "TrimSpace ''svc'' = ''svc''" "TrimSpace [] = []"
  by code_simp+

definition demo_k0 :: "MemoryAPIKeyStore APIKeyHandler" where
  "demo_k0 = NewAPIKeyHandler (NewMemoryAPIKeyStoreWithDevSeeds demo_prims demo_clock False)"
definition demo_k1 :: "MemoryAPIKeyStore APIKeyHandler" where
  "demo_k1 = snd (APIKeyHandler_Create (memory_api_key_store demo_prims) demo_clock (Some demo_rnd) demo_k0 demo_new_key)"

lemma demo_k0_run: "dev_keys_run demo_prims demo_clock False demo_k0"
  by (simp add: dev_keys_run_def demo_k0_def key_reach.start)

lemma demo_created:
  "APIKeyHandler_Create (memory_api_key_store demo_prims) demo_clock (Some demo_rnd) demo_k0 demo_new_key =
     (Done (JSON 201 (GObj [(''apiKey'', GStr (''uddi_'' @ RawURLEncode demo_rnd)),
        (''record'', key_payload (new_key_record (demo_clock 0) ''svc'' ''svc''))])), demo_k1)"
  unfolding demo_k1_def
  by (simp add: APIKeyHandler_Create_def NormalizeAPIKeyInput_def GenerateAPIKey_def demo_k0_def NewAPIKeyHandler_def
      memory_api_key_defs seeded_keys Let_def)

theorem created_key_validates_witness:
  "\<forall>i k. fst (MemoryAPIKeyStore_Validate demo_prims
     (akh_store (key_serve (memory_api_key_store demo_prims) demo_clock (OpValidateKey i k) demo_k1))
     ''svc'' (''uddi_'' @ RawURLEncode demo_rnd)) = Inr ()"
proof (intro allI)
  fix i k
  let ?h2 = "key_serve (memory_api_key_store demo_prims) demo_clock (OpValidateKey i k) demo_k1"
  have "unrevoked_reach (memory_api_key_store demo_prims) ''svc'' demo_k1 ?h2"
    by (rule unrevoked_reach.serve [OF unrevoked_reach.start]) (simp add: revokes_def)
  then show "fst (MemoryAPIKeyStore_Validate demo_prims (akh_store ?h2) ''svc'' (''uddi_'' @ RawURLEncode demo_rnd)) = Inr ()"
    using created_key_validates [of demo_prims demo_clock False demo_k0 demo_clock "Some demo_rnd" demo_new_key
        "fst (APIKeyHandler_Create (memory_api_key_store demo_prims) demo_clock (Some demo_rnd) demo_k0 demo_new_key)" demo_k1,
        THEN conjunct1]
    by (auto simp: demo_created demo_k0_run)
qed

text \<open>
  C23: the revocation of a key is final. After an answer 200 no key validates for that service in any
  state the administration and the guards reach from there, whatever the driver does. The other
  side of it: since \<open>Create\<close> refuses a service that is stored, a revoked service can never be
  given a new key.
\<close>

theorem api_key_revocation_is_final:
  assumes "decode_revoke_key body = Some req"
  shows "(dev_keys_run P clk0 seed h \<and> APIKeyHandler_Revoke (memory_api_key_store P) clk h body = (out, h1) \<and> answers out 200
      \<and> key_reach (memory_api_key_store P) h1 h2 \<longrightarrow>
        fst (MemoryAPIKeyStore_Validate P (akh_store h2) (TrimSpace (rkr_ServiceID req)) k) \<noteq> Inr ())
   \<and> (prod_keys_run P faults h' \<and> APIKeyHandler_Revoke (postgres_api_key_store P) clk h' body = (out, h1') \<and> answers out 200
      \<and> key_reach (postgres_api_key_store P) h1' h2' \<longrightarrow>
        fst (PostgresAPIKeyStore_Validate P (akh_store h2') (TrimSpace (rkr_ServiceID req)) k) \<noteq> Inr ())"
proof ((intro conjI impI; elim conjE), goal_cases)
  case 1
  have "fst (aks_Validate (memory_api_key_store P) (akh_store h2) (NormalizeAPIKeyInput (rkr_ServiceID req)) k) \<noteq> Inr ()"
    by (rule memkeys.revoked_for_good [OF dev_keys_inv [OF 1(1)] 1(2,3) assms 1(4) surjective_pairing])
  then show ?case by (simp add: memory_api_key_store_def NormalizeAPIKeyInput_def)
next
  case 2
  have "fst (aks_Validate (postgres_api_key_store P) (akh_store h2') (NormalizeAPIKeyInput (rkr_ServiceID req)) k) \<noteq> Inr ()"
    by (rule pgkeys.revoked_for_good [OF prod_keys_inv [OF 2(1)] 2(2,3) assms 2(4) surjective_pairing])
  then show ?case by (simp add: postgres_api_key_store_def NormalizeAPIKeyInput_def)
qed

definition demo_revoke_key :: "json option" where
  "demo_revoke_key = Some (JObject [(''serviceId'', JString ''svc'')])"

lemma demo_decode_revoke_key [simp]: "decode_revoke_key demo_revoke_key = Some \<lparr>rkr_ServiceID = ''svc''\<rparr>"
  by (simp add: decode_revoke_key_def demo_revoke_key_def Decode_def decode_struct_def field_for_def go_defs)

lemma demo_k1_run: "dev_keys_run demo_prims demo_clock False demo_k1"
proof -
  have "key_serve (memory_api_key_store demo_prims) demo_clock (OpCreateKey (Some demo_rnd) demo_new_key) demo_k0 = demo_k1"
    by (simp add: key_serve_def demo_k1_def)
  then show ?thesis using key_reach.serve demo_k0_run unfolding dev_keys_run_def by metis
qed

lemma demo_key_revoked:
  "answers (fst (APIKeyHandler_Revoke (memory_api_key_store demo_prims) demo_clock demo_k1 demo_revoke_key)) 200"
proof -
  have "gm_get (mem_keys (akh_store demo_k1)) ''svc'' \<noteq> None"
    by (simp add: demo_k1_def APIKeyHandler_Create_def NormalizeAPIKeyInput_def GenerateAPIKey_def demo_k0_def NewAPIKeyHandler_def
        memory_api_key_defs seeded_keys Let_def)
  then show ?thesis by (auto simp: APIKeyHandler_Revoke_def NormalizeAPIKeyInput_def memory_api_key_defs Let_def)
qed

theorem api_key_revocation_is_final_witness:
  "fst (MemoryAPIKeyStore_Validate demo_prims
     (akh_store (snd (APIKeyHandler_Create (memory_api_key_store demo_prims) demo_clock (Some demo_rnd)
        (snd (APIKeyHandler_Revoke (memory_api_key_store demo_prims) demo_clock demo_k1 demo_revoke_key)) demo_new_key)))
     ''svc'' (''uddi_'' @ RawURLEncode demo_rnd)) \<noteq> Inr ()"
proof -
  let ?h1 = "snd (APIKeyHandler_Revoke (memory_api_key_store demo_prims) demo_clock demo_k1 demo_revoke_key)"
  let ?h2 = "snd (APIKeyHandler_Create (memory_api_key_store demo_prims) demo_clock (Some demo_rnd) ?h1 demo_new_key)"
  have "key_reach (memory_api_key_store demo_prims) ?h1
      (key_serve (memory_api_key_store demo_prims) demo_clock (OpCreateKey (Some demo_rnd) demo_new_key) ?h1)"
    by (rule key_reach.serve [OF key_reach.start])
  then have "key_reach (memory_api_key_store demo_prims) ?h1 ?h2" by (simp add: key_serve_def)
  then show ?thesis
    using api_key_revocation_is_final [OF demo_decode_revoke_key, of demo_prims demo_clock False demo_k1 demo_clock
        "fst (APIKeyHandler_Revoke (memory_api_key_store demo_prims) demo_clock demo_k1 demo_revoke_key)" ?h1 ?h2]
      demo_k1_run demo_key_revoked by simp
qed

end
