(* ===== verification/Proofs.thy ===== *)
theory Proofs
  imports Zkp DidHandler
begin

text \<open>\<open>internal/handlers/proof.go\<close>: the endpoint that has a proof generated.\<close>

record 's ProofHandler =
  ph_zkp :: Service
  ph_chain :: "'s Client"

definition NewProofHandler :: "Service \<Rightarrow> 's Client \<Rightarrow> 's ProofHandler" where
  "NewProofHandler zkpService chain = \<lparr>ph_zkp = zkpService, ph_chain = chain\<rparr>"

record GenerateRequest =
  gr_DID :: string
  gr_Type :: string
  gr_Params :: "gmap option"

definition decode_generate :: "prims \<Rightarrow> json option \<Rightarrow> GenerateRequest option" where
  "decode_generate P body = Decode
     [(''did'', string_field gr_DID_update), (''type'', string_field gr_Type_update),
      (''params'', map_field P gr_Params_update gr_Params)] body \<lparr>gr_DID = [], gr_Type = [], gr_Params = None\<rparr>"

definition ProofHandler_Generate :: "prims \<Rightarrow> zkp_net \<Rightarrow> 's ProofHandler \<Rightarrow> json option \<Rightarrow> 's ProofHandler handled" where
  "ProofHandler_Generate P net h body =
     (case decode_generate P body of
        None \<Rightarrow> (Done (Error StatusBadRequest ''invalid request body''), h)
      | Some req \<Rightarrow>
        (case Service_Generate P net (ph_zkp h) (gr_Type req) (gr_Params req) of
           Inl err \<Rightarrow>
             (Done (if err = ''proof type is required'' then Error StatusBadRequest err else Error StatusBadGateway err), h)
         | Inr pf \<Rightarrow> (Done (JSON StatusOK (GObj [(''proof'', GObj pf)])), h)))"

end
