(* ===== verification/ZkpProperties.thy ===== *)
theory ZkpProperties
  imports AuthRuns Proofs
begin

text \<open>
  What the endpoints for zero-knowledge proofs guarantee, with the remote service and in the
  development mode.
\<close>

section \<open>The remote service\<close>

text \<open>The answer of \<open>VerifyClaim\<close> that confirms a claim.\<close>

definition confirms :: "response outcome \<Rightarrow> gmap \<Rightarrow> bool" where
  "confirms out claims \<longleftrightarrow> (\<exists>rs ms. out = Done rs \<and> rs_status rs = 200 \<and> rs_body rs = GObj ms
     \<and> gm_get ms ''valid'' = Some (GBool True) \<and> gm_get ms ''publicClaims'' = Some (GObj claims))"

lemma confirms_payload [simp]:
  "confirms (Done (JSON s (claim_payload res t now))) c \<longleftrightarrow> s = 200 \<and> zr_Valid res \<and> zr_PublicClaims res = Some c"
  by (auto simp: confirms_def claim_payload_def split: option.split)

lemma not_confirms_Error [simp]: "\<not> confirms (Done (Error s m)) c" if "s \<noteq> 200"
  using that by (auto simp: confirms_def)

text \<open>
  C33: with a remote service a claim is confirmed exactly when the address parses, the request could
  be marshalled and sent, the answer has a status of 2xx and its body decodes with \<open>valid\<close> true;
  the public claims are those of the answer. Any failure on the way is an answer 200 with
  \<open>valid\<close> false and a reason; no request makes the handler panic or change its state.
\<close>

theorem remote_verification_fails_closed:
  fixes P :: prims and net :: zkp_net and h :: "('s, 'c) VerifyHandler"
  assumes "isRemote (vh_zkp h)" "decode_claim P body = Some req" "vc_Proof req = Some m" "TrimSpace (vc_ClaimType req) \<noteq> []"
    and "\<And>v. marshal_error net v \<noteq> []"
  shows "snd (VerifyClaim P net clk h body) = h \<and> answers (fst (VerifyClaim P net clk h body)) 200
   \<and> (confirms (fst (VerifyClaim P net clk h body)) claims \<longleftrightarrow>
        (\<exists>base text status res out. url_Parse net (svc_url (vh_zkp h)) = Inr base \<and> Marshal P (GObj [(''type'', GStr (TrimSpace (vc_ClaimType req))), (''proof'', GObj m)]) = Some text
          \<and> http_Post net (url_Resolve net (svc_url (vh_zkp h)) (TrimRightByte CHR ''/'' base @ ''/verify'')) text = Inr (status, res)
          \<and> 200 \<le> status \<and> status < 300
          \<and> Decode (VerificationResult_fields P) (map_option fst (first_value res))
               \<lparr>zr_Valid = False, zr_Reason = [], zr_PublicClaims = None\<rparr> = Some out
          \<and> zr_Valid out \<and> claims = (case zr_PublicClaims out of None \<Rightarrow> [] | Some c \<Rightarrow> c)))
   \<and> ((\<exists>c. confirms (fst (VerifyClaim P net clk h body)) c)
      \<or> (\<exists>res. fst (VerifyClaim P net clk h body) = Done (JSON 200 (claim_payload res (vc_ClaimType req) (clk 0)))
            \<and> \<not> zr_Valid res \<and> zr_Reason res \<noteq> []))"
proof (intro conjI)
  define res where "res = Service_Verify P net (vh_zkp h) (vc_ClaimType req) (vc_Proof req)"
  have v: "VerifyClaim P net clk h body = (Done (JSON 200 (claim_payload res (vc_ClaimType req) (clk 0))), h)"
    using assms(2) by (simp add: VerifyClaim_def res_def)
  have res: "res = remoteVerify P net (vh_zkp h) (TrimSpace (vc_ClaimType req)) m"
    using assms(1,3,4) by (simp add: res_def Service_Verify_def)
  show "snd (VerifyClaim P net clk h body) = h" "answers (fst (VerifyClaim P net clk h body)) 200"
    by (simp_all add: v)
  show "confirms (fst (VerifyClaim P net clk h body)) claims \<longleftrightarrow>
        (\<exists>base text status res out. url_Parse net (svc_url (vh_zkp h)) = Inr base \<and> Marshal P (GObj [(''type'', GStr (TrimSpace (vc_ClaimType req))), (''proof'', GObj m)]) = Some text
          \<and> http_Post net (url_Resolve net (svc_url (vh_zkp h)) (TrimRightByte CHR ''/'' base @ ''/verify'')) text = Inr (status, res)
          \<and> 200 \<le> status \<and> status < 300
          \<and> Decode (VerificationResult_fields P) (map_option fst (first_value res))
               \<lparr>zr_Valid = False, zr_Reason = [], zr_PublicClaims = None\<rparr> = Some out
          \<and> zr_Valid out \<and> claims = (case zr_PublicClaims out of None \<Rightarrow> [] | Some c \<Rightarrow> c))"
    unfolding v fst_conv confirms_payload res remoteVerify_def postJSON_def
    by (simp add: Let_def invalid_def split: sum.split option.split prod.split http_error.split) (auto split: option.splits)
  show "(\<exists>c. confirms (fst (VerifyClaim P net clk h body)) c)
      \<or> (\<exists>res. fst (VerifyClaim P net clk h body) = Done (JSON 200 (claim_payload res (vc_ClaimType req) (clk 0)))
            \<and> \<not> zr_Valid res \<and> zr_Reason res \<noteq> [])"
    using Service_Verify_result [where P = P and net = net and s = "vh_zkp h" and t = "vc_ClaimType req" and pf = "vc_Proof req"] assms(5)
    unfolding v res_def [symmetric] by auto
qed

text \<open>A remote service that confirms every claim, and one that cannot be reached.\<close>

definition demo_answer_json :: json where
  "demo_answer_json = JObject [(''valid'', JBool True), (''publicClaims'', JObject [(''over18'', JBool True)])]"

definition demo_answer :: string where
  "demo_answer = json_text demo_answer_json"

definition demo_net :: "bool \<Rightarrow> zkp_net" where
  "demo_net up = \<lparr>url_Parse = (\<lambda>u. Inr []), url_Resolve = (\<lambda>u p. u @ p),
     http_Post = (\<lambda>u b. if up then Inr (200, demo_answer) else Inl (NotSent ''refused'')),
     json_error = (\<lambda>s. ''invalid''), marshal_error = (\<lambda>v. ''unsupported'')\<rparr>"

definition demo_remote :: "(MemoryDIDStore, MemoryChallengeStore) VerifyHandler" where
  "demo_remote = NewVerifyHandler (NewClient ''r'') \<lparr>svc_url = ''http://zkp''\<rparr>"

definition demo_claim :: "json option" where
  "demo_claim = Some (JObject [(''did'', JString demo_did), (''claimType'', JString ''age''), (''proof'', JObject [])])"

lemma demo_decode_claim [simp]:
  "decode_claim demo_prims demo_claim = Some \<lparr>vc_DID = demo_did, vc_ClaimType = ''age'', vc_Proof = Some []\<rparr>"
  by (simp add: decode_claim_def demo_claim_def Decode_def decode_struct_def field_for_def go_defs)

lemma trim_age [simp]: "TrimSpace ''age'' = ''age''"
  by code_simp

lemma first_value_text: "json_ok j \<Longrightarrow> json_depth j \<le> maxNestingDepth \<Longrightarrow> first_value (json_text j) = Some (j, [])"
  using scan_json_text [of j 0 "[]" "2 * length (json_text j) + 1"] by (simp add: first_value_def ends_value_def)

lemma demo_answer_first: "first_value demo_answer = Some (demo_answer_json, [])"
  unfolding demo_answer_def by (rule first_value_text) (simp_all add: demo_answer_json_def maxNestingDepth_def)

lemma demo_is_remote: "isRemote (vh_zkp demo_remote)"
  by (simp add: isRemote_def demo_remote_def NewVerifyHandler_def NewVerifyHandlerWithChallengeStore_def HasPrefix_def)

theorem remote_verification_fails_closed_witness:
  "confirms (fst (VerifyClaim demo_prims (demo_net True) demo_clock demo_remote demo_claim)) [(''over18'', GBool True)]
   \<and> \<not> confirms (fst (VerifyClaim demo_prims (demo_net False) demo_clock demo_remote demo_claim)) [(''over18'', GBool True)]"
proof -
  have m: "marshal_error (demo_net b) v \<noteq> []" for b v by (simp add: demo_net_def)
  have d: "Decode (VerificationResult_fields demo_prims)
      (Some demo_answer_json)
      \<lparr>zr_Valid = False, zr_Reason = [], zr_PublicClaims = None\<rparr>
    = Some \<lparr>zr_Valid = True, zr_Reason = [], zr_PublicClaims = Some [(''over18'', GBool True)]\<rparr>"
    by (simp add: VerificationResult_fields_def Decode_def decode_struct_def field_for_def go_defs demo_answer_json_def)
  have t: "Marshal demo_prims (GObj [(''type'', GStr ''age''), (''proof'', GObj [])]) \<noteq> None"
    by (simp add: Marshal_def)
  show ?thesis
    using remote_verification_fails_closed [OF demo_is_remote demo_decode_claim _ _ m [of True],
        where m = "[]" and clk = demo_clock and claims = "[(''over18'', GBool True)]"]
      remote_verification_fails_closed [OF demo_is_remote demo_decode_claim _ _ m [of False],
        where m = "[]" and clk = demo_clock and claims = "[(''over18'', GBool True)]"]
      t d by (simp add: demo_net_def demo_answer_first)
qed

section \<open>The development mode\<close>

text \<open>
  C34: in the development mode a proof that \<open>Generate\<close> made verifies for the type it was made for,
  up to white space around the name.
\<close>

theorem generated_proof_verifies:
  assumes "\<not> isRemote s" "TrimSpace t \<noteq> []" "TrimSpace t' = TrimSpace t"
  shows "\<exists>m. Service_Generate P net s t params = Inr m \<and> zr_Valid (Service_Verify P net s t' (Some m))"
proof -
  obtain m where m: "Service_Generate P net s t params = Inr m" "groth16_shape (TrimSpace t) m"
    using assms(1,2) by (simp add: Service_Generate_def Let_def groth16_shape_def stringValue_def)
  then show ?thesis using assms by (auto simp: Service_Verify_local)
qed

theorem generated_proof_verifies_witness:
  "\<exists>m. Service_Generate demo_prims (demo_net True) (NewService []) ''age'' None = Inr m
     \<and> zr_Valid (Service_Verify demo_prims (demo_net True) (NewService []) ''age'' (Some m))"
proof -
  have "TrimSpace [] = []" by code_simp
  then have "\<not> isRemote (NewService [])" by (simp add: isRemote_def NewService_def HasPrefix_def)
  then show ?thesis using generated_proof_verifies [of "NewService []" "''age''" "''age''"] by simp
qed

text \<open>
  The development mode attests whatever it is told. For every type, every DID and every map of
  claims there is a proof, made up by the caller, on which \<open>VerifyClaim\<close> answers that the claim
  is valid and repeats those claims as public. The mode is chosen by the address alone, in
  production too, and the DID of the request is never looked at.
\<close>

theorem development_mode_attests_anything:
  assumes "\<not> isRemote (vh_zkp h)" "TrimSpace t \<noteq> []"
  shows "\<exists>m. \<forall>body did. decode_claim P body = Some \<lparr>vc_DID = did, vc_ClaimType = t, vc_Proof = Some m\<rparr> \<longrightarrow>
    confirms (fst (VerifyClaim P net clk h body)) claims"
proof -
  let ?m = "[(''type'', GStr (TrimSpace t)), (''protocol'', GStr ''groth16''), (''curve'', GStr ''bn128''),
     (''proof'', GObj [(''pi_a'', GNil), (''pi_b'', GNil), (''pi_c'', GNil)]), (''publicSignals'', GArr []),
     (''publicClaims'', GObj claims)]"
  have "groth16_shape (TrimSpace t) ?m" by (simp add: groth16_shape_def stringValue_def)
  then have "validateGroth16Proof (TrimSpace t) ?m = []" by (simp only: validate_shape)
  then have "Service_Verify P net (vh_zkp h) t (Some ?m) = \<lparr>zr_Valid = True, zr_Reason = [], zr_PublicClaims = Some claims\<rparr>"
    using assms by (simp add: Service_Verify_def publicClaims_def)
  then show ?thesis by (intro exI [of _ ?m]) (simp add: VerifyClaim_def)
qed

definition demo_local :: "(MemoryDIDStore, MemoryChallengeStore) VerifyHandler" where
  "demo_local = NewVerifyHandler (NewClient ''r'') \<lparr>svc_url = []\<rparr>"

theorem development_mode_attests_anything_witness:
  "\<exists>m. \<forall>body did. decode_claim demo_prims body = Some \<lparr>vc_DID = did, vc_ClaimType = ''age'', vc_Proof = Some m\<rparr> \<longrightarrow>
    confirms (fst (VerifyClaim demo_prims (demo_net True) demo_clock demo_local body)) [(''over18'', GBool True)]"
proof -
  have "\<not> isRemote (vh_zkp demo_local)"
    by (simp add: isRemote_def demo_local_def NewVerifyHandler_def NewVerifyHandlerWithChallengeStore_def HasPrefix_def)
  then show ?thesis using development_mode_attests_anything [of demo_local "''age''"] by simp
qed

end
