(* ===== verification/Floats.thy ===== *)
theory Floats
  imports GoTime
begin

text \<open>
  The three places where the gateway computes with \<open>float64\<close>: \<open>Duration.Seconds\<close>, the conversion
  of an unsigned integer and the quotient of two of them. A non-negative number is a mantissa and
  an exponent; every operation computes the exact ratio of two natural numbers and rounds it to 53
  bits, to the nearest and a tie to the even mantissa. The values here are zero or at least
  \<open>2 ^ -30\<close> and below \<open>2 ^ 65\<close>, so that no subnormal number and no overflow arises.
\<close>

type_synonym unpacked = "nat \<times> int"

fun bit_len :: "nat \<Rightarrow> nat" where
  "bit_len n = (if n = 0 then 0 else Suc (bit_len (n div 2)))"

declare bit_len.simps [simp del]

definition round_div :: "nat \<Rightarrow> nat \<Rightarrow> nat" where
  "round_div n d =
     (let q = n div d; r = n mod d
      in if 2 * r < d then q else if d < 2 * r then q + 1 else if even q then q else q + 1)"

text \<open>\<open>n / d\<close> and the scale \<open>2 ^ e\<close> as a ratio of natural numbers.\<close>

definition unscale :: "nat \<Rightarrow> nat \<Rightarrow> int \<Rightarrow> nat \<times> nat" where
  "unscale n d e = (if 0 \<le> e then (n, d * 2 ^ nat e) else (n * 2 ^ nat (- e), d))"

text \<open>
  With \<open>b\<close> the difference of the bit lengths, \<open>n / d\<close> lies between \<open>2 ^ (b - 1)\<close> and \<open>2 ^ (b + 1)\<close>:
  the exponent is \<open>b - 53\<close>, or one more when the quotient then has 54 bits.
\<close>

definition round53 :: "nat \<Rightarrow> nat \<Rightarrow> unpacked" where
  "round53 n d =
     (if n = 0 then (0, 0)
      else
      let e = int (bit_len n) - int (bit_len d) - 53;
          (n1, d1) = unscale n d e;
          e = (if 2 ^ 53 \<le> n1 div d1 then e + 1 else e);
          (n2, d2) = unscale n d e
      in (round_div n2 d2, e))"

definition float_of_nat :: "nat \<Rightarrow> unpacked" where
  "float_of_nat n = round53 n 1"

definition float_div :: "unpacked \<Rightarrow> unpacked \<Rightarrow> unpacked" where
  "float_div x y =
     (let e = snd x - snd y; (n, d) = unscale (fst x) (fst y) (- e) in round53 n d)"

definition float_add :: "unpacked \<Rightarrow> unpacked \<Rightarrow> unpacked" where
  "float_add x y =
     (let e = min (snd x) (snd y);
          s = fst x * 2 ^ nat (snd x - e) + fst y * 2 ^ nat (snd y - e);
          (n, d) = unscale s 1 (- e)
      in round53 n d)"

text \<open>Conversion to an integer truncates.\<close>

definition float_trunc :: "unpacked \<Rightarrow> nat" where
  "float_trunc x = (if 0 \<le> snd x then fst x * 2 ^ nat (snd x) else fst x div 2 ^ nat (- snd x))"

text \<open>The IEEE 754 bits of a normal number or zero.\<close>

definition float_bits :: "unpacked \<Rightarrow> float64" where
  "float_bits x =
     (if fst x = 0 then 0
      else let (m, e) = (if fst x = 2 ^ 53 then (2 ^ 52, snd x + 1) else x)
           in word_of_int ((e + 1075) * 2 ^ 52 + (int m - 2 ^ 52)))"

text \<open>\<open>int64(d.Seconds())\<close>: \<open>float64(d / second) + float64(d % second) / 1e9\<close>, truncated.\<close>

definition Seconds_int :: "duration \<Rightarrow> int" where
  "Seconds_int d =
     (let a = nat \<bar>d\<bar>; sec = a div 10 ^ 9; nsec = a mod 10 ^ 9
      in sgn d * int (float_trunc (float_add (float_of_nat sec) (float_div (float_of_nat nsec) (float_of_nat (10 ^ 9))))))"

text \<open>\<open>d.Milliseconds()\<close> truncates towards zero.\<close>

definition Milliseconds :: "duration \<Rightarrow> int" where
  "Milliseconds d = sgn d * (\<bar>d\<bar> div 10 ^ 6)"

section \<open>Whole numbers are exact\<close>

lemma bit_len_bounds: "0 < n \<Longrightarrow> 2 ^ (bit_len n - 1) \<le> n \<and> n < 2 ^ bit_len n"
proof (induction n rule: bit_len.induct)
  case (1 n)
  show ?case
  proof (cases "n = 1")
    case True
    then show ?thesis by (simp add: bit_len.simps)
  next
    case False
    then have h: "0 < n div 2" and n: "bit_len n = Suc (bit_len (n div 2))"
      using 1(2) by (auto simp: bit_len.simps [of n])
    have p: "0 < bit_len (n div 2)" using h by (simp add: bit_len.simps [of "n div 2"])
    have ih: "2 ^ (bit_len (n div 2) - 1) \<le> n div 2" "n div 2 < 2 ^ bit_len (n div 2)"
      using 1(1) [OF _ h] 1(2) by auto
    have e: "(2 :: nat) ^ bit_len (n div 2) = 2 * 2 ^ (bit_len (n div 2) - 1)"
      using p by (metis Suc_pred' power_Suc)
    show ?thesis using ih e by (simp add: n) linarith
  qed
qed

lemma bit_len_le: "n < 2 ^ k \<Longrightarrow> bit_len n \<le> k"
proof (cases "n = 0")
  case False
  assume n: "n < 2 ^ k"
  have "2 ^ (bit_len n - 1) \<le> n" using bit_len_bounds False by blast
  then have "(2 :: nat) ^ (bit_len n - 1) < 2 ^ k" using n by (rule le_less_trans)
  then have "bit_len n - 1 < k" by (simp only: power_strict_increasing_iff)
  then show ?thesis by linarith
qed (simp add: bit_len.simps)

text \<open>A whole number below \<open>2 ^ 53\<close> is represented exactly.\<close>

lemma unscale_down: "e \<le> 0 \<Longrightarrow> unscale n 1 e = (n * 2 ^ nat (- e), 1)"
  by (cases "e = 0") (simp_all add: unscale_def)

lemma round_div_1: "round_div m 1 = m"
  by (simp add: round_div_def)

lemma round53_whole:
  assumes "n \<noteq> 0" "bit_len n \<le> 53"
  shows "\<exists>e \<le> 0. round53 n 1 = (n * 2 ^ nat (- e), e)"
proof -
  define e where "e = int (bit_len n) - int (bit_len 1) - 53"
  have b1: "bit_len 1 = 1" by (simp add: bit_len.simps)
  have e: "e \<le> - 1" using assms(2) by (simp only: e_def b1)
  have "round53 n 1 = (let e = (if 2 ^ 53 \<le> n * 2 ^ nat (- e) div 1 then e + 1 else e); (n2, d2) = unscale n 1 e
      in (round_div n2 d2, e))"
    unfolding round53_def e_def [symmetric] Let_def using assms(1) e by (simp only: unscale_down if_False prod.case)
  then show ?thesis using e
    by (cases "2 ^ 53 \<le> n * 2 ^ nat (- e) div 1") (simp_all only: Let_def if_True if_False unscale_down prod.case round_div_1, auto intro: exI [of _ "e + 1"] exI [of _ e])
qed

lemma float_trunc_whole: 
  assumes "n < 2 ^ 53" shows "float_trunc (round53 n 1) = n"
proof (cases "n = 0")
  case True
  then show ?thesis by (simp add: round53_def float_trunc_def)
next
  case False
  obtain e where "e \<le> 0" "round53 n 1 = (n * 2 ^ nat (- e), e)"
    using round53_whole [OF False bit_len_le [OF assms]] by blast
  then show ?thesis by (cases "e = 0") (simp_all add: float_trunc_def)
qed

end
