(* ===== verification/Security.thy ===== *)
theory Security
  imports ApiKeys Floats JsonText
begin

text \<open>
  \<open>internal/middleware/security.go\<close>: the address of a client, the rate limiter, the security
  headers and the limit on the size of a body. A request comes with the bytes of its body; the
  handlers see the first JSON value in the bytes they may read.
\<close>

record raw_request = request +
  rq_text :: string

type_synonym 'g raw_handler = "raw_request \<Rightarrow> 'g \<Rightarrow> 'g handled"

section \<open>The address of a client\<close>

text \<open>\<open>strings.IndexByte\<close> and \<open>LastIndexByte\<close>: \<open>None\<close> stands for -1.\<close>

definition IndexByte :: "string \<Rightarrow> char \<Rightarrow> nat option" where
  "IndexByte s c = (if c \<in> set s then Some (length (takeWhile (\<lambda>x. x \<noteq> c) s)) else None)"

definition LastIndexByte :: "string \<Rightarrow> char \<Rightarrow> nat option" where
  "LastIndexByte s c = map_option (\<lambda>i. length s - 1 - i) (IndexByte (rev s) c)"

text \<open>\<open>net.SplitHostPort\<close>; only the host and the failure matter here.\<close>

definition SplitHost :: "string \<Rightarrow> string option" where
  "SplitHost hostport =
     (case LastIndexByte hostport CHR '':'' of
        None \<Rightarrow> None
      | Some i \<Rightarrow>
        let unexpected = (\<lambda>j k. IndexByte (drop j hostport) CHR ''['' \<noteq> None \<or> IndexByte (drop k hostport) CHR '']'' \<noteq> None) in
        if hd hostport = CHR ''['' then
          (case IndexByte hostport CHR '']'' of
             None \<Rightarrow> None
           | Some e \<Rightarrow>
               if e + 1 = length hostport then None
               else if e + 1 \<noteq> i then None
               else if unexpected 1 (e + 1) then None
               else Some (drop 1 (take e hostport)))
        else
          let host = take i hostport in
          if IndexByte host CHR '':'' \<noteq> None then None
          else if unexpected 0 0 then None
          else Some host)"

definition clientIP :: "raw_request \<Rightarrow> string" where
  "clientIP r =
     (let forwardedFor = Header_Get (request.truncate r) ''X-Forwarded-For'';
          first = TrimSpace (hd (SplitByte CHR '','' forwardedFor));
          direct = (case SplitHost (rq_RemoteAddr r) of
             Some host \<Rightarrow> if host \<noteq> [] then host else rq_RemoteAddr r
           | None \<Rightarrow> rq_RemoteAddr r)
      in if forwardedFor \<noteq> [] \<and> first \<noteq> [] then first else direct)"

section \<open>The rate limiter\<close>

record rateBucket =
  rb_count :: int
  rb_resetAt :: time
  rb_updatedAt :: time

record RateLimiter =
  rl_limit :: int
  rl_window :: duration
  rl_buckets :: "rateBucket gomap"
  rl_lastSweep :: time

definition NewRateLimiter :: "int \<Rightarrow> duration \<Rightarrow> RateLimiter" where
  "NewRateLimiter limit window =
     \<lparr>rl_limit = limit, rl_window = window, rl_buckets = [], rl_lastSweep = zero_time\<rparr>"

text \<open>Deleting from a Go map while ranging over it removes exactly the entries that match.\<close>

definition sweep :: "time \<Rightarrow> RateLimiter \<Rightarrow> RateLimiter" where
  "sweep now l =
     (if rl_lastSweep l = zero_time \<or> rl_window l \<le> Sub now (rl_lastSweep l)
      then l\<lparr>rl_buckets := filter (\<lambda>(_, bucket). \<not> rl_window l \<le> Sub now (rb_updatedAt bucket)) (rl_buckets l),
             rl_lastSweep := now\<rparr>
      else l)"

definition zero_bucket :: rateBucket where
  "zero_bucket = \<lparr>rb_count = 0, rb_resetAt = zero_time, rb_updatedAt = zero_time\<rparr>"

definition allow :: "time \<Rightarrow> string \<Rightarrow> RateLimiter \<Rightarrow> bool \<times> RateLimiter" where
  "allow now key l =
     (if rl_limit l \<le> 0 \<or> rl_window l \<le> 0 then (True, l)
      else
      let l = sweep now l;
          bucket = (case gm_get (rl_buckets l) key of None \<Rightarrow> zero_bucket | Some b \<Rightarrow> b) in
      if rb_resetAt bucket = zero_time \<or> \<not> now < rb_resetAt bucket then
        (True, l\<lparr>rl_buckets := gm_set key
           \<lparr>rb_count = 1, rb_resetAt = now + rl_window l, rb_updatedAt = now\<rparr> (rl_buckets l)\<rparr>)
      else if rl_limit l \<le> rb_count bucket then
        (False, l\<lparr>rl_buckets := gm_set key (bucket\<lparr>rb_updatedAt := now\<rparr>) (rl_buckets l)\<rparr>)
      else
        (True, l\<lparr>rl_buckets := gm_set key
           (bucket\<lparr>rb_count := rb_count bucket + 1, rb_updatedAt := now\<rparr>) (rl_buckets l)\<rparr>))"

definition secondsString :: "duration \<Rightarrow> string" where
  "secondsString duration =
     (let seconds = Seconds_int duration; seconds = (if seconds < 1 then 1 else seconds) in FormatInt seconds)"

definition RateLimiter_Middleware :: "time \<Rightarrow> ('g \<Rightarrow> RateLimiter) \<Rightarrow> (RateLimiter \<Rightarrow> 'g \<Rightarrow> 'g)
    \<Rightarrow> 'g raw_handler \<Rightarrow> 'g raw_handler" where
  "RateLimiter_Middleware now get put nxt r g =
     (let (ok, l) = allow now (clientIP r) (get g); g = put l g in
      if \<not> ok then
        (Done (Error StatusTooManyRequests ''rate limit exceeded''
           \<lparr>rs_headers := (''Retry-After'', secondsString (rl_window l))
              # rs_headers (Error StatusTooManyRequests ''rate limit exceeded'')\<rparr>), g)
      else nxt r g)"

section \<open>Headers and body size\<close>

definition security_headers :: "(string \<times> string) list" where
  "security_headers =
     [(''X-Content-Type-Options'', ''nosniff''), (''X-Frame-Options'', ''DENY''), (''Referrer-Policy'', ''no-referrer''),
      (''Permissions-Policy'', ''camera=(), microphone=(), geolocation=()'')]"

text \<open>The header map of the response writer, to which the handler adds its own.\<close>

definition with_headers :: "(string \<times> string) list \<Rightarrow> response outcome \<Rightarrow> response outcome" where
  "with_headers hs out =
     (case out of Panic \<Rightarrow> Panic | Done rs \<Rightarrow> Done (rs\<lparr>rs_headers := hs @ rs_headers rs\<rparr>))"

definition SecurityHeaders :: "'g raw_handler \<Rightarrow> 'g raw_handler" where
  "SecurityHeaders nxt r g = (let (out, g) = nxt r g in (with_headers security_headers out, g))"

text \<open>
  \<open>http.MaxBytesReader\<close> delivers the first \<open>maxBytes\<close> bytes and then an error, which the decoder
  reports unless it has already read a whole value.
\<close>

definition LimitRequestBody :: "int \<Rightarrow> 'g raw_handler \<Rightarrow> 'g raw_handler" where
  "LimitRequestBody maxBytes nxt r g =
     nxt (if 0 < maxBytes then r\<lparr>rq_text := take (nat maxBytes) (rq_text r)\<rparr> else r) g"

text \<open>What a handler sees: the first JSON value of the bytes it may read.\<close>

definition decoded_request :: "raw_request \<Rightarrow> request" where
  "decoded_request r = request.truncate (r\<lparr>rq_body := map_option fst (first_value (rq_text r))\<rparr>)"

section \<open>Fixed windows, the reference\<close>

text \<open>
  The first request opens a window; the requests before its end belong to it, and the next one
  opens another. In every window the first \<open>L\<close> requests are admitted.
\<close>

function windows :: "duration \<Rightarrow> time list \<Rightarrow> time list list" where
  "windows W [] = []"
| "windows W (t # ts) = (t # takeWhile (\<lambda>u. u < t + W) ts) # windows W (dropWhile (\<lambda>u. u < t + W) ts)"
  by pat_completeness auto
termination
  by (relation "measure (length \<circ> snd)") (auto simp: le_imp_less_Suc length_dropWhile_le)

definition judge_window :: "int \<Rightarrow> time list \<Rightarrow> (time \<times> bool) list" where
  "judge_window L w = zip w (map (\<lambda>i. int i < L) [0..<length w])"

definition fixed_windows :: "int \<Rightarrow> duration \<Rightarrow> time list \<Rightarrow> (time \<times> bool) list" where
  "fixed_windows L W ts = concat (map (judge_window L) (windows W ts))"

text \<open>The limiter on a sequence of requests, each with its time and its key.\<close>

fun limiter_run :: "RateLimiter \<Rightarrow> (time \<times> string) list \<Rightarrow> (time \<times> string \<times> bool) list" where
  "limiter_run l [] = []"
| "limiter_run l ((t, k) # evs) = (let (ok, l') = allow t k l in (t, k, ok) # limiter_run l' evs)"

text \<open>The same reference with a state: the end of the open window and the requests it admitted.\<close>

type_synonym window_state = "(time \<times> int) option"

definition live_at :: "time \<Rightarrow> window_state \<Rightarrow> window_state" where
  "live_at t s = (case s of None \<Rightarrow> None | Some (e, n) \<Rightarrow> if t < e then s else None)"

definition window_step :: "int \<Rightarrow> duration \<Rightarrow> time \<Rightarrow> window_state \<Rightarrow> bool \<times> window_state" where
  "window_step L W t s =
     (case live_at t s of
        None \<Rightarrow> (True, Some (t + W, 1))
      | Some (e, n) \<Rightarrow> if n < L then (True, Some (e, n + 1)) else (False, Some (e, n)))"

fun window_run :: "int \<Rightarrow> duration \<Rightarrow> window_state \<Rightarrow> time list \<Rightarrow> (time \<times> bool) list" where
  "window_run L W s [] = []"
| "window_run L W s (t # ts) = (let (ok, s') = window_step L W t s in (t, ok) # window_run L W s' ts)"

lemma window_run_closed:
  "live_at t s = None \<Longrightarrow> window_run L W s (t # ts) = (t, True) # window_run L W (Some (t + W, 1)) ts"
  by (simp add: window_step_def)

text \<open>Inside a window the state counts what was admitted, at most \<open>L\<close>.\<close>

lemma window_run_inside:
  assumes "\<forall>u \<in> set us. u < e" "n = min (int m) L"
  shows "window_run L W (Some (e, n)) (us @ ts) =
     zip us (map (\<lambda>i. int i < L) [m..<m + length us]) @ window_run L W (Some (e, min (int (m + length us)) L)) ts"
  using assms
proof (induction us arbitrary: n m)
  case (Cons u us)
  have up: "[m..<m + length (u # us)] = m # [Suc m..<Suc m + length us]"
    by (simp add: upt_rec)
  have step: "window_step L W u (Some (e, n)) = (int m < L, Some (e, min (int (Suc m)) L))"
    using Cons.prems by (auto simp: window_step_def live_at_def)
  show ?case
    using Cons.IH [of "min (int (Suc m)) L" "Suc m"] Cons.prems(1) unfolding up by (simp add: step)
qed simp

lemma window_run_fixed:
  assumes "0 < L" "case ts of [] \<Rightarrow> True | t # _ \<Rightarrow> live_at t s = None"
  shows "window_run L W s ts = fixed_windows L W ts"
  using assms
proof (induction W ts arbitrary: s rule: windows.induct)
  case (2 W t ts)
  let ?in = "takeWhile (\<lambda>u. u < t + W) ts" and ?out = "dropWhile (\<lambda>u. u < t + W) ts"
  let ?s = "Some (t + W, min (int (1 + length ?in)) L)"
  have ts: "ts = ?in @ ?out" by simp
  have up: "[0..<Suc n] = 0 # [1..<1 + n]" for n by (simp add: upt_rec)
  have "window_run L W s (t # ts) = (t, True) # window_run L W (Some (t + W, 1)) (?in @ ?out)"
    using 2(3) window_run_closed by simp
  also have "\<dots> = (t, True) # zip ?in (map (\<lambda>i. int i < L) [1..<1 + length ?in]) @ window_run L W ?s ?out"
    by (subst window_run_inside [where m = 1]) (use 2(2) in \<open>auto dest: set_takeWhileD\<close>)
  also have "window_run L W ?s ?out = fixed_windows L W ?out"
  proof (rule 2(1) [OF 2(2)])
    show "case ?out of [] \<Rightarrow> True | u # _ \<Rightarrow> live_at u ?s = None"
      by (auto split: list.split simp: live_at_def dest: dropWhile_eq_Cons_conv [THEN iffD1])
  qed
  also have "(t, True) # zip ?in (map (\<lambda>i. int i < L) [1..<1 + length ?in]) @ fixed_windows L W ?out
      = fixed_windows L W (t # ts)"
    using 2(2) unfolding fixed_windows_def judge_window_def by (simp add: up del: upt_Suc)
  finally show ?case .
qed (simp add: fixed_windows_def)

section \<open>The limiter implements the reference\<close>

text \<open>
  What a key's bucket stands for, and what the limiter keeps true: a bucket never outlives its
  last update by more than a window, so sweeping only removes buckets whose window has ended.
\<close>

definition bucket_window :: "RateLimiter \<Rightarrow> string \<Rightarrow> window_state" where
  "bucket_window l k = map_option (\<lambda>b. (rb_resetAt b, rb_count b)) (gm_get (rl_buckets l) k)"

definition limiter_ok :: "time \<Rightarrow> RateLimiter \<Rightarrow> bool" where
  "limiter_ok now l \<longleftrightarrow> gm_wf (rl_buckets l) \<and> 0 < rl_limit l \<and> 0 < rl_window l \<and> rl_window l < 2 ^ 63
     \<and> (\<forall>k b. gm_get (rl_buckets l) k = Some b \<longrightarrow>
          rb_resetAt b \<noteq> zero_time \<and> rb_resetAt b \<le> rb_updatedAt b + rl_window l \<and> rb_updatedAt b \<le> now)"

lemma limiter_ok_new: "0 < L \<Longrightarrow> 0 < W \<Longrightarrow> W < 2 ^ 63 \<Longrightarrow> limiter_ok now (NewRateLimiter L W)"
  by (simp add: limiter_ok_def NewRateLimiter_def)

lemma window_passed: "0 < W \<Longrightarrow> W < 2 ^ 63 \<Longrightarrow> W \<le> Sub t u \<longleftrightarrow> W \<le> t - u"
  by (auto simp: Sub_def)

lemma sweep_fields [simp]: "rl_limit (sweep t l) = rl_limit l" "rl_window (sweep t l) = rl_window l"
  by (simp_all add: sweep_def)

lemma sweep_get:
  assumes "limiter_ok now l"
  shows "gm_get (rl_buckets (sweep t l)) k = gm_get (rl_buckets l) k
    \<or> gm_get (rl_buckets (sweep t l)) k = None \<and> (\<exists>b. gm_get (rl_buckets l) k = Some b \<and> rb_resetAt b \<le> t)"
  using assms
  by (auto simp: sweep_def limiter_ok_def gm_get_filter window_passed split: option.split) fastforce+

lemma sweep_ok: "limiter_ok now l \<Longrightarrow> limiter_ok now (sweep t l)"
proof -
  assume ok: "limiter_ok now l"
  have "gm_wf (rl_buckets (sweep t l))" using ok by (simp add: limiter_ok_def sweep_def)
  moreover have "gm_get (rl_buckets l) k = Some b" if "gm_get (rl_buckets (sweep t l)) k = Some b" for k b
    using sweep_get [OF ok, of t k] that by auto
  ultimately show ?thesis using ok unfolding limiter_ok_def by (metis sweep_fields)
qed

text \<open>Sweeping is invisible from its time on.\<close>

lemma sweep_live:
  assumes "limiter_ok now l" "t \<le> u"
  shows "live_at u (bucket_window (sweep t l) k) = live_at u (bucket_window l k)"
  using sweep_get [OF assms(1), of t k] assms(2)
  by (cases "gm_get (rl_buckets l) k") (auto simp: bucket_window_def live_at_def)

lemma touch_bucket:
  "b\<lparr>rb_updatedAt := t\<rparr> = \<lparr>rb_count = rb_count b, rb_resetAt = rb_resetAt b, rb_updatedAt = t\<rparr>"
  "b\<lparr>rb_count := n, rb_updatedAt := t\<rparr> = \<lparr>rb_count = n, rb_resetAt = rb_resetAt b, rb_updatedAt = t\<rparr>"
  by (cases b; simp)+

lemma allow_law:
  assumes ok: "limiter_ok now l" and t: "zero_time < t" "now \<le> t" and al: "allow t k l = (b, l')"
  shows "limiter_ok t l'" "rl_limit l' = rl_limit l" "rl_window l' = rl_window l"
    and "window_step (rl_limit l) (rl_window l) t (bucket_window l k) = (b, s') \<Longrightarrow>
      t \<le> u \<Longrightarrow> live_at u (bucket_window l' k) = live_at u s'"
    and "b = fst (window_step (rl_limit l) (rl_window l) t (bucket_window l k))"
    and "k' \<noteq> k \<Longrightarrow> t \<le> u \<Longrightarrow> live_at u (bucket_window l' k') = live_at u (bucket_window l k')"
proof -
  define m where "m = sweep t l"
  have m: "limiter_ok now m" "rl_limit m = rl_limit l" "rl_window m = rl_window l"
    using ok by (simp_all add: m_def sweep_ok)
  have live: "live_at u (bucket_window m k) = live_at u (bucket_window l k)" if "t \<le> u" for u k
    using sweep_live [OF ok that] by (simp add: m_def)
  have pos: "0 < rl_limit l" "0 < rl_window l" using ok by (simp_all add: limiter_ok_def)
  have nz: "t + rl_window l \<noteq> zero_time" using t pos by simp
  have mono: "rb_updatedAt b \<le> t" "rb_resetAt b \<le> t + rl_window l" if "gm_get (rl_buckets m) i = Some b" for i b
    using m that t(2) by (force simp: limiter_ok_def)+
  have step: "allow t k l =
      (case live_at t (bucket_window m k) of
         None \<Rightarrow> (True, m\<lparr>rl_buckets := gm_set k
           \<lparr>rb_count = 1, rb_resetAt = t + rl_window l, rb_updatedAt = t\<rparr> (rl_buckets m)\<rparr>)
       | Some (e, n) \<Rightarrow>
         (n < rl_limit l, m\<lparr>rl_buckets := gm_set k
           \<lparr>rb_count = (if n < rl_limit l then n + 1 else n), rb_resetAt = e, rb_updatedAt = t\<rparr> (rl_buckets m)\<rparr>))"
    using m(1) pos
    by (cases "gm_get (rl_buckets m) k")
      (auto simp: allow_def m_def [symmetric] m(2,3) Let_def bucket_window_def live_at_def zero_bucket_def
        limiter_ok_def touch_bucket)
  obtain v where l': "l' = m\<lparr>rl_buckets := gm_set k v (rl_buckets m)\<rparr>"
    and v: "rb_updatedAt v = t" "rb_resetAt v \<noteq> zero_time" "rb_resetAt v \<le> t + rl_window l"
  proof (cases "live_at t (bucket_window m k)")
    case None
    with al nz that show ?thesis unfolding step by auto
  next
    case (Some s)
    then obtain b0 where b0: "gm_get (rl_buckets m) k = Some b0" "s = (rb_resetAt b0, rb_count b0)"
      by (auto simp: live_at_def bucket_window_def split: option.splits if_splits)
    have "rb_resetAt b0 \<noteq> zero_time" using m(1) b0(1) by (auto simp: limiter_ok_def)
    then show ?thesis using al Some b0 mono(2) [OF b0(1)] that unfolding step by auto
  qed
  show "limiter_ok t l'" "rl_limit l' = rl_limit l" "rl_window l' = rl_window l"
    using m mono(1) v unfolding l' by (auto simp: limiter_ok_def)
  show "b = fst (window_step (rl_limit l) (rl_window l) t (bucket_window l k))"
    using al live [of t k] unfolding step by (auto simp: window_step_def split: option.splits)
  show "live_at u (bucket_window l' k) = live_at u s'"
    if "window_step (rl_limit l) (rl_window l) t (bucket_window l k) = (b, s')" "t \<le> u"
    using al that live [of t k] unfolding step
    by (auto simp: window_step_def bucket_window_def split: option.splits if_splits)
  show "live_at u (bucket_window l' k') = live_at u (bucket_window l k')" if "k' \<noteq> k" "t \<le> u"
    using al that live [of u k'] unfolding step
    by (auto simp: bucket_window_def split: option.splits if_splits)
qed

lemma window_run_cong:
  assumes "\<forall>t \<in> set ts. t0 \<le> t" "\<And>u. t0 \<le> u \<Longrightarrow> live_at u s = live_at u s'"
  shows "window_run L W s ts = window_run L W s' ts"
proof (cases ts)
  case (Cons t us)
  have "live_at t s = live_at t s'" using assms Cons by simp
  then have "window_step L W t s = window_step L W t s'" by (simp add: window_step_def)
  then show ?thesis by (simp add: Cons)
qed simp

abbreviation key_times :: "string \<Rightarrow> (time \<times> string) list \<Rightarrow> time list" where
  "key_times k evs \<equiv> map fst (filter (\<lambda>e. snd e = k) evs)"

definition key_answers :: "string \<Rightarrow> (time \<times> string \<times> bool) list \<Rightarrow> (time \<times> bool) list" where
  "key_answers k outs = map (\<lambda>(t, _, ok). (t, ok)) (filter (\<lambda>(_, k', _). k' = k) outs)"

lemma limiter_run_refines:
  assumes "limiter_ok now l" "sorted (map fst evs)" "\<forall>e \<in> set evs. zero_time < fst e \<and> now \<le> fst e"
  shows "key_answers k (limiter_run l evs) = window_run (rl_limit l) (rl_window l) (bucket_window l k) (key_times k evs)"
  using assms
proof (induction evs arbitrary: l now)
  case (Cons e evs)
  obtain t k' where e: "e = (t, k')" by (cases e)
  obtain b l' where al: "allow t k' l = (b, l')" by (cases "allow t k' l")
  have t: "zero_time < t" "now \<le> t" using Cons.prems e by simp_all
  note law = allow_law [OF Cons.prems(1) t al]
  have later: "\<forall>u \<in> set (key_times k evs). t \<le> u" using Cons.prems(2) by (auto simp: e)
  have ih: "key_answers k (limiter_run l' evs)
      = window_run (rl_limit l) (rl_window l) (bucket_window l' k) (key_times k evs)"
    using Cons.IH [of t l'] law(1,2,3) Cons.prems by (simp add: e)
  show ?case
  proof (cases "k' = k")
    case True
    obtain s' where ws: "window_step (rl_limit l) (rl_window l) t (bucket_window l k) = (b, s')"
      using law(5) True by (cases "window_step (rl_limit l) (rl_window l) t (bucket_window l k)") simp
    have "window_run (rl_limit l) (rl_window l) (bucket_window l' k) (key_times k evs)
        = window_run (rl_limit l) (rl_window l) s' (key_times k evs)"
      by (rule window_run_cong [OF later]) (use law(4) ws True in blast)
    then show ?thesis using ih ws al True by (simp add: e key_answers_def)
  next
    case False
    have "window_run (rl_limit l) (rl_window l) (bucket_window l' k) (key_times k evs)
        = window_run (rl_limit l) (rl_window l) (bucket_window l k) (key_times k evs)"
      by (rule window_run_cong [OF later]) (use law(6) False in auto)
    then show ?thesis using ih False by (simp add: e al key_answers_def)
  qed
qed (simp add: key_answers_def)

end
