(* ===== verification/SecurityProperties.thy ===== *)
theory SecurityProperties
  imports Security
begin

text \<open>
  What the rate limiter guarantees, for requests whose times do not go back: every key has its own
  windows, sweeping changes nothing, and no interval of the length of a window sees more than twice
  the limit; and what it does not guarantee, since the caller chooses its key.
\<close>

section \<open>How much a window admits\<close>

definition admitted_in :: "time \<Rightarrow> duration \<Rightarrow> (time \<times> bool) list \<Rightarrow> nat" where
  "admitted_in a W outs = length (filter (\<lambda>(t, ok). ok \<and> a \<le> t \<and> t < a + W) outs)"

lemma admitted_in_append [simp]: "admitted_in a W (xs @ ys) = admitted_in a W xs + admitted_in a W ys"
  by (simp add: admitted_in_def)

lemma admitted_in_none: "\<forall>x \<in> set xs. \<not> (a \<le> fst x \<and> fst x < a + W) \<Longrightarrow> admitted_in a W xs = 0"
  by (auto simp: admitted_in_def filter_empty_conv)

lemma length_filter_upt: "length (filter (\<lambda>i. int i < L) [0..<n]) \<le> nat L"
proof -
  have "set (filter (\<lambda>i. int i < L) [0..<n]) \<subseteq> {0..<nat L}" by auto
  then have "card (set (filter (\<lambda>i. int i < L) [0..<n])) \<le> card {0..<nat L}" by (intro card_mono) auto
  then show ?thesis by (simp add: distinct_card del: set_filter)
qed

lemma judge_window_admits: "admitted_in a W (judge_window L w) \<le> nat L"
proof -
  have "admitted_in a W (judge_window L w) \<le> length (filter snd (judge_window L w))"
  proof -
    have "length (filter (\<lambda>(t, ok). ok \<and> a \<le> t \<and> t < a + W) xs) \<le> length (filter snd xs)" for xs :: "(time \<times> bool) list"
      by (induction xs) auto
    then show ?thesis by (simp add: admitted_in_def)
  qed
  also have "\<dots> = length (filter id (map snd (judge_window L w)))"
    by (simp add: filter_map comp_def)
  also have "\<dots> = length (filter (\<lambda>i. int i < L) [0..<length w])"
    by (simp add: judge_window_def filter_map comp_def)
  finally show ?thesis using length_filter_upt [of L "length w"] by simp
qed

lemma fixed_windows_Cons:
  "fixed_windows L W (t # ts) =
     judge_window L (t # takeWhile (\<lambda>u. u < t + W) ts) @ fixed_windows L W (dropWhile (\<lambda>u. u < t + W) ts)"
  by (simp add: fixed_windows_def)

lemma set_judge_window: "x \<in> set (judge_window L w) \<Longrightarrow> fst x \<in> set w"
  by (cases x) (auto simp: judge_window_def dest: set_zip_leftD)

lemma set_fixed_windows: "x \<in> set (fixed_windows L W ts) \<Longrightarrow> fst x \<in> set ts"
proof (induction W ts rule: windows.induct)
  case (2 W t ts)
  then consider "x \<in> set (judge_window L (t # takeWhile (\<lambda>u. u < t + W) ts))"
    | "x \<in> set (fixed_windows L W (dropWhile (\<lambda>u. u < t + W) ts))"
    unfolding fixed_windows_Cons by auto
  then show ?case
  proof cases
    case 1
    then show ?thesis using set_judge_window [OF 1] by (auto dest: set_takeWhileD)
  next
    case 2
    then show ?thesis using "2.IH" by (auto dest: set_dropWhileD)
  qed
qed (simp add: fixed_windows_def)

lemma dropWhile_from: "sorted ts \<Longrightarrow> u \<in> set (dropWhile (\<lambda>u. u < e) ts) \<Longrightarrow> e \<le> (u :: int)"
  by (induction ts) (auto split: if_splits)

lemma sorted_dropWhile_list: "sorted ts \<Longrightarrow> sorted (dropWhile P ts)"
  by (metis dropWhile_eq_drop sorted_wrt_drop)

text \<open>An interval that ends before the second window begins sees at most one window.\<close>

lemma fixed_windows_one:
  assumes "sorted ts" "\<forall>u \<in> set ts. a \<le> u"
  shows "admitted_in a W (fixed_windows L W ts) \<le> nat L"
proof (cases ts)
  case (Cons t us)
  have "\<forall>x \<in> set (fixed_windows L W (dropWhile (\<lambda>u. u < t + W) us)). \<not> (a \<le> fst x \<and> fst x < a + W)"
  proof
    fix x assume "x \<in> set (fixed_windows L W (dropWhile (\<lambda>u. u < t + W) us))"
    then have "t + W \<le> fst x" using dropWhile_from [of us] set_fixed_windows assms(1) Cons by fastforce
    then show "\<not> (a \<le> fst x \<and> fst x < a + W)" using assms(2) Cons by auto
  qed
  then show ?thesis
    using judge_window_admits [of a W L] by (simp add: Cons fixed_windows_Cons admitted_in_none)
qed (simp add: fixed_windows_def admitted_in_def)

lemma fixed_windows_two:
  assumes "sorted ts" "0 < W"
  shows "admitted_in a W (fixed_windows L W ts) \<le> 2 * nat L"
  using assms
proof (induction W ts rule: windows.induct)
  case (2 W t ts)
  let ?in = "t # takeWhile (\<lambda>u. u < t + W) ts" and ?out = "dropWhile (\<lambda>u. u < t + W) ts"
  have out: "sorted ?out" "\<forall>u \<in> set ?out. t + W \<le> u"
    using 2(2) dropWhile_from [of ts] by (auto intro: sorted_dropWhile_list)
  show ?case
  proof (cases "\<exists>u \<in> set ?in. a \<le> u")
    case True
    then have "a \<le> t + W" using 2(3) by (auto dest: set_takeWhileD)
    then have "admitted_in a W (fixed_windows L W ?out) \<le> nat L"
      using out by (intro fixed_windows_one) auto
    then show ?thesis using judge_window_admits [of a W L ?in] by (simp add: fixed_windows_Cons)
  next
    case False
    then have "admitted_in a W (judge_window L ?in) = 0"
      using set_judge_window [of _ L ?in] by (intro admitted_in_none) fastforce
    then show ?thesis using 2(1) [OF out(1) 2(3)] by (simp add: fixed_windows_Cons)
  qed
qed (simp add: fixed_windows_def admitted_in_def)

text \<open>
  C9: the limiter is one of fixed windows per key. For requests whose times do not go back, the
  answers a key gets are those of the reference, in which the key's first request opens a window
  of the configured length, the first \<open>limit\<close> requests of the window are admitted and the others
  refused, and the first request after its end opens the next one: the requests of other keys and
  the sweeping of old buckets change nothing. No interval of that length sees more than twice the
  limit admitted for a key.
\<close>

theorem limiter_is_fixed_window:
  assumes "0 < limit" "0 < window" "window < 2 ^ 63"
    and "sorted (map fst evs)" "\<forall>e \<in> set evs. zero_time < fst e"
  shows "key_answers k (limiter_run (NewRateLimiter limit window) evs) = fixed_windows limit window (key_times k evs)
    \<and> admitted_in a window (key_answers k (limiter_run (NewRateLimiter limit window) evs)) \<le> 2 * nat limit"
proof -
  have ok: "limiter_ok (zero_time + 1) (NewRateLimiter limit window)" using assms(1,2,3) by (rule limiter_ok_new)
  have "key_answers k (limiter_run (NewRateLimiter limit window) evs) =
      window_run limit window (bucket_window (NewRateLimiter limit window) k) (key_times k evs)"
    using limiter_run_refines [OF ok assms(4), of k] assms(5) by (simp add: NewRateLimiter_def zless_imp_add1_zle)
  also have "\<dots> = fixed_windows limit window (key_times k evs)"
    using assms(1) by (intro window_run_fixed) (auto simp: bucket_window_def NewRateLimiter_def live_at_def split: list.split)
  finally have eq: "key_answers k (limiter_run (NewRateLimiter limit window) evs) = fixed_windows limit window (key_times k evs)" .
  have "sorted (key_times k evs)"
    using assms(4) by (induction evs) auto
  then show ?thesis using fixed_windows_two assms(2) unfolding eq by blast
qed

definition limiter_trace :: "(time \<times> string) list" where
  "limiter_trace = [(10, ''a''), (11, ''b''), (12, ''a''), (15, ''a''), (20, ''a''), (20, ''b'')]"

text \<open>Two requests in ten nanoseconds: the third of \<open>a\<close> is refused, the fourth opens a window.\<close>

theorem limiter_is_fixed_window_witness:
  "key_answers ''a'' (limiter_run (NewRateLimiter 2 10) limiter_trace) = [(10, True), (12, True), (15, False), (20, True)]
   \<and> admitted_in 12 10 (key_answers ''a'' (limiter_run (NewRateLimiter 2 10) limiter_trace)) \<le> 4"
proof -
  have run: "fixed_windows 2 10 (key_times ''a'' limiter_trace) = [(10, True), (12, True), (15, False), (20, True)]"
    by (simp add: limiter_trace_def fixed_windows_def judge_window_def)
  have trace: "sorted (map fst limiter_trace)" "\<forall>e \<in> set limiter_trace. zero_time < fst e"
    by (simp_all add: limiter_trace_def zero_time_def second_def)
  show ?thesis
    using limiter_is_fixed_window [of 2 10 limiter_trace "''a''" , OF _ _ _ trace] unfolding run by (auto simp: admitted_in_def)
qed

section \<open>The key is the caller's choice\<close>

lemma strip_ones: "strip_all ps (replicate n CHR ''1'') = replicate n CHR ''1''"
  if "ps = space_seqs \<or> ps = map rev space_seqs"
proof (cases n)
  case (Suc m)
  have "\<forall>p \<in> set space_seqs. p \<noteq> [] \<and> hd p \<noteq> CHR ''1'' \<and> hd (rev p) \<noteq> CHR ''1''" by code_simp
  then have "\<forall>p \<in> set ps. p \<noteq> [] \<and> hd p \<noteq> CHR ''1''" using that by auto
  then have "strip_one ps (CHR ''1'' # s) = None" for s
    by (auto simp: strip_one_def HasPrefix_iff find_None_iff append_eq_Cons_conv split: option.split)
      (metis Cons_eq_append_conv list.sel(1))+
  then show ?thesis by (simp add: Suc strip_all_def)
qed (simp add: strip_all_def)

lemma TrimSpace_ones [simp]: "TrimSpace (replicate n CHR ''1'') = replicate n CHR ''1''"
  by (simp add: TrimSpace_def strip_ones)

lemma SplitByte_ones [simp]: "SplitByte CHR '','' (replicate n CHR ''1'') = [replicate n CHR ''1'']"
  by (induction n) auto

lemma clientIP_forwarded:
  assumes "0 < n"
  shows "clientIP (r\<lparr>rq_headers := (''X-Forwarded-For'', replicate n CHR ''1'') # hs\<rparr>) = replicate n CHR ''1''"
  using assms
  by (simp add: clientIP_def Header_Get_def request.truncate_def upper_char_def)

text \<open>
  A caller can always evade the limiter. Whatever buckets it holds, for every request there is
  a value of the header \<open>X-Forwarded-For\<close> with which the request is passed on to the handler, as
  the key of a request is taken from that header before the address of the connection.
\<close>

theorem forwarded_for_evades_limiter:
  "\<exists>v l. RateLimiter_Middleware now get put nxt (r\<lparr>rq_headers := (''X-Forwarded-For'', v) # rq_headers r\<rparr>) g
     = nxt (r\<lparr>rq_headers := (''X-Forwarded-For'', v) # rq_headers r\<rparr>) (put l g)"
proof -
  let ?keys = "dom (gm_get (rl_buckets (sweep now (get g))))"
  obtain n where n: "0 < n" "replicate n CHR ''1'' \<notin> ?keys"
  proof -
    have "inj_on (\<lambda>n. replicate n CHR ''1'') {1..}" by (auto intro!: inj_onI)
    then have "infinite ((\<lambda>n. replicate n CHR ''1'') ` {1..})"
      using finite_imageD infinite_Ici by blast
    then have "\<not> (\<lambda>n. replicate n CHR ''1'') ` {1..} \<subseteq> ?keys"
      using finite_subset finite_dom_map_of by blast
    then obtain n where "1 \<le> n" "replicate n CHR ''1'' \<notin> ?keys" by blast
    then show ?thesis using that [of n] by linarith
  qed
  define k where "k = replicate n CHR ''1''"
  have ip: "clientIP (r\<lparr>rq_headers := (''X-Forwarded-For'', k) # rq_headers r\<rparr>) = k"
    unfolding k_def using n(1) by (rule clientIP_forwarded)
  have "gm_get (rl_buckets (sweep now (get g))) k = None" using n(2) by (auto simp: k_def)
  then have "fst (allow now k (get g))"
    by (simp add: allow_def Let_def zero_bucket_def)
  then obtain l where "allow now k (get g) = (True, l)" by (cases "allow now k (get g)") simp
  then show ?thesis using ip by (intro exI [of _ k] exI [of _ l]) (simp add: RateLimiter_Middleware_def)
qed

end
