(* ===== verification/Observability.thy ===== *)
theory Observability
  imports Security
begin

text \<open>
  \<open>internal/middleware/observability.go\<close>: the counters of the gateway, the middleware that keeps them
  and the endpoint that reports them. The counters are atomic 64-bit words, so requests may
  interleave between any two additions: the additions are separate definitions, from which both the
  middleware of one request and the step relation for many requests at once are composed.
\<close>

type_synonym word64 = "64 word"

record Metrics =
  mt_startedAt :: time
  mt_requestsTotal :: word64
  mt_responsesTotal :: word64
  mt_errorsTotal :: word64
  mt_inFlightRequests :: word64
  mt_latencyTotalMS :: word64

definition NewMetrics :: "time \<Rightarrow> Metrics" where
  "NewMetrics now =
     \<lparr>mt_startedAt = now, mt_requestsTotal = 0, mt_responsesTotal = 0, mt_errorsTotal = 0,
      mt_inFlightRequests = 0, mt_latencyTotalMS = 0\<rparr>"

section \<open>The additions\<close>

definition count_request :: "Metrics \<Rightarrow> Metrics" where
  "count_request m = m\<lparr>mt_requestsTotal := mt_requestsTotal m + 1\<rparr>"

definition enter_flight :: "Metrics \<Rightarrow> Metrics" where
  "enter_flight m = m\<lparr>mt_inFlightRequests := mt_inFlightRequests m + 1\<rparr>"

definition leave_flight :: "Metrics \<Rightarrow> Metrics" where
  "leave_flight m = m\<lparr>mt_inFlightRequests := mt_inFlightRequests m + word_of_int (- 1)\<rparr>"

definition count_response :: "Metrics \<Rightarrow> Metrics" where
  "count_response m = m\<lparr>mt_responsesTotal := mt_responsesTotal m + 1\<rparr>"

definition add_latency :: "duration \<Rightarrow> Metrics \<Rightarrow> Metrics" where
  "add_latency d m = m\<lparr>mt_latencyTotalMS := mt_latencyTotalMS m + word_of_int (Milliseconds d)\<rparr>"

definition count_error :: "nat \<Rightarrow> Metrics \<Rightarrow> Metrics" where
  "count_error status m = (if 500 \<le> status then m\<lparr>mt_errorsTotal := mt_errorsTotal m + 1\<rparr> else m)"

lemmas metric_defs = count_request_def enter_flight_def leave_flight_def count_response_def add_latency_def count_error_def

section \<open>The middleware\<close>

text \<open>
  \<open>statusRecorder\<close>: the status is 200 until \<open>WriteHeader\<close> sets it. The handlers write the header of
  their answer once, so the recorder ends with the status of the answer.
\<close>

record statusRecorder =
  sr_status :: nat

definition WriteHeader :: "nat \<Rightarrow> statusRecorder \<Rightarrow> statusRecorder" where
  "WriteHeader status r = r\<lparr>sr_status := status\<rparr>"

definition recorded :: "response \<Rightarrow> statusRecorder" where
  "recorded rs = WriteHeader (rs_status rs) \<lparr>sr_status = StatusOK\<rparr>"

text \<open>The request's identifier in the log; \<open>reqID\<close> is what chi's \<open>GetReqID\<close> finds in the context.\<close>

definition requestID :: "string \<Rightarrow> time \<Rightarrow> request \<Rightarrow> string" where
  "requestID reqID now r =
     (if reqID \<noteq> [] then reqID
      else if Header_Get r ''X-Request-ID'' \<noteq> [] then Header_Get r ''X-Request-ID''
      else if Header_Get r ''X-Correlation-ID'' \<noteq> [] then Header_Get r ''X-Correlation-ID''
      else FormatInt now)"

text \<open>A line of the log of \<open>log/slog\<close>: its level, its message and its attributes in their order.\<close>

datatype log_level = LevelInfo | LevelWarn | LevelError

record log_line =
  lg_level :: log_level
  lg_msg :: string
  lg_attrs :: "(string \<times> gval) list"

definition http_request :: "string \<Rightarrow> time \<Rightarrow> request \<Rightarrow> statusRecorder \<Rightarrow> duration \<Rightarrow> log_line" where
  "http_request reqID now r recorder duration =
     \<lparr>lg_level = LevelInfo, lg_msg = ''http_request'', lg_attrs =
       [(''method'', GStr (rq_method r)),
        (''path'', GStr (concat (rq_path r))),
        (''status'', GInt (int (sr_status recorder))),
        (''duration_ms'', GInt (Milliseconds duration)),
        (''remote_addr'', GStr (rq_RemoteAddr r)),
        (''request_id'', GStr (requestID reqID now r)),
        (''user_agent'', GStr (Header_Get r ''User-Agent''))]\<rparr>"

text \<open>
  The deferred decrement runs when the handler panics, too; what follows the handler does not, the
  line of the log included. The readings of the clock are \<open>start\<close>, \<open>stop\<close> and, for the identifier,
  \<open>now\<close>; \<open>logs\<close> hands a line to the logger.
\<close>

definition Metrics_Middleware :: "time \<Rightarrow> time \<Rightarrow> time \<Rightarrow> string \<Rightarrow> ('g \<Rightarrow> Metrics) \<Rightarrow> (Metrics \<Rightarrow> 'g \<Rightarrow> 'g)
    \<Rightarrow> (log_line \<Rightarrow> 'g \<Rightarrow> 'g) \<Rightarrow> 'g raw_handler \<Rightarrow> 'g raw_handler" where
  "Metrics_Middleware start stop now reqID get put logs nxt r g =
     (let g = put (enter_flight (count_request (get g))) g;
          (out, g) = nxt r g in
      case out of
        Panic \<Rightarrow> (Panic, put (leave_flight (get g)) g)
      | Done rs \<Rightarrow>
          let recorder = recorded rs; duration = Sub stop start;
              g = put (count_error (sr_status recorder) (add_latency duration (count_response (get g)))) g;
              g = logs (http_request reqID now (request.truncate r) recorder duration) g
          in (Done rs, put (leave_flight (get g)) g))"

section \<open>The report\<close>

definition averageLatency :: "word64 \<Rightarrow> word64 \<Rightarrow> float64" where
  "averageLatency latencyTotal responsesTotal =
     (if 0 < responsesTotal
      then float_bits (float_div (float_of_nat (unat latencyTotal)) (float_of_nat (unat responsesTotal))) else 0)"

definition Metrics_Handler :: "time \<Rightarrow> Metrics \<Rightarrow> response" where
  "Metrics_Handler now m =
     (let latencyTotal = mt_latencyTotalMS m; responsesTotal = mt_responsesTotal m in
      JSON StatusOK (GObj
        [(''startedAt'', GStr (FormatRFC3339 (mt_startedAt m))),
         (''uptimeSeconds'', GInt (Seconds_int (Sub now (mt_startedAt m)))),
         (''requestsTotal'', GInt (uint (mt_requestsTotal m))),
         (''responsesTotal'', GInt (uint responsesTotal)),
         (''errorsTotal'', GInt (uint (mt_errorsTotal m))),
         (''inFlightRequests'', GInt (sint (mt_inFlightRequests m))),
         (''latencyTotalMs'', GInt (uint latencyTotal)),
         (''latencyAverageMs'', GFloat (averageLatency latencyTotal responsesTotal)),
         (''metricsContentType'', GStr ''application/json'')]))"

section \<open>Interleavings\<close>

text \<open>
  Where a request stands in the middleware. \<open>Leaving\<close> and \<open>Left\<close> carry the status and the duration
  of a request that was answered, and nothing for one whose handler panicked.
\<close>

datatype stage =
    Entered
  | Counted
  | Serving
  | Served nat duration
  | Responded nat duration
  | Timed nat duration
  | Leaving "(nat \<times> duration) option"
  | Left "(nat \<times> duration) option"

inductive metric_step :: "Metrics \<times> stage list \<Rightarrow> Metrics \<times> stage list \<Rightarrow> bool" where
  arrive: "metric_step (m, ss) (m, ss @ [Entered])"
| count: "i < length ss \<Longrightarrow> ss ! i = Entered \<Longrightarrow> metric_step (m, ss) (count_request m, ss[i := Counted])"
| fly: "i < length ss \<Longrightarrow> ss ! i = Counted \<Longrightarrow> metric_step (m, ss) (enter_flight m, ss[i := Serving])"
| serve: "i < length ss \<Longrightarrow> ss ! i = Serving \<Longrightarrow> metric_step (m, ss) (m, ss[i := Served st d])"
| panic: "i < length ss \<Longrightarrow> ss ! i = Serving \<Longrightarrow> metric_step (m, ss) (m, ss[i := Leaving None])"
| respond: "i < length ss \<Longrightarrow> ss ! i = Served st d \<Longrightarrow> metric_step (m, ss) (count_response m, ss[i := Responded st d])"
| measure: "i < length ss \<Longrightarrow> ss ! i = Responded st d \<Longrightarrow> metric_step (m, ss) (add_latency d m, ss[i := Timed st d])"
| judge: "i < length ss \<Longrightarrow> ss ! i = Timed st d \<Longrightarrow> metric_step (m, ss) (count_error st m, ss[i := Leaving (Some (st, d))])"
| leave: "i < length ss \<Longrightarrow> ss ! i = Leaving x \<Longrightarrow> metric_step (m, ss) (leave_flight m, ss[i := Left x])"

abbreviation metric_steps :: "Metrics \<times> stage list \<Rightarrow> Metrics \<times> stage list \<Rightarrow> bool" where
  "metric_steps \<equiv> metric_step\<^sup>*\<^sup>*"

section \<open>What the counters count\<close>

definition tally :: "('a \<Rightarrow> word64) \<Rightarrow> 'a list \<Rightarrow> word64" where
  "tally f xs = sum_list (map f xs)"

lemma tally_append [simp]: "tally f (xs @ ys) = tally f xs + tally f ys" "tally f [] = 0" "tally f [x] = f x"
  by (simp_all add: tally_def)

lemma tally_update: "i < length xs \<Longrightarrow> tally f (xs[i := y]) = tally f xs - f (xs ! i) + f y"
proof (induction xs arbitrary: i)
  case (Cons x xs)
  then show ?case by (cases i) (auto simp: tally_def)
qed simp

definition was_counted :: "stage \<Rightarrow> word64" where
  "was_counted s = (if s = Entered then 0 else 1)"

definition in_flight :: "stage \<Rightarrow> word64" where
  "in_flight s = (case s of Entered \<Rightarrow> 0 | Counted \<Rightarrow> 0 | Left _ \<Rightarrow> 0 | _ \<Rightarrow> 1)"

definition was_answered :: "stage \<Rightarrow> word64" where
  "was_answered s =
     (case s of Responded _ _ \<Rightarrow> 1 | Timed _ _ \<Rightarrow> 1 | Leaving (Some _) \<Rightarrow> 1 | Left (Some _) \<Rightarrow> 1 | _ \<Rightarrow> 0)"

definition was_error :: "stage \<Rightarrow> word64" where
  "was_error s =
     (case s of Leaving (Some (st, _)) \<Rightarrow> if 500 \<le> st then 1 else 0 | Left (Some (st, _)) \<Rightarrow> if 500 \<le> st then 1 else 0 | _ \<Rightarrow> 0)"

definition took :: "stage \<Rightarrow> word64" where
  "took s =
     (case s of Timed _ d \<Rightarrow> word_of_int (Milliseconds d) | Leaving (Some (_, d)) \<Rightarrow> word_of_int (Milliseconds d)
      | Left (Some (_, d)) \<Rightarrow> word_of_int (Milliseconds d) | _ \<Rightarrow> 0)"

lemmas stage_defs = was_counted_def in_flight_def was_answered_def was_error_def took_def

definition counts :: "Metrics \<Rightarrow> stage list \<Rightarrow> bool" where
  "counts m ss \<longleftrightarrow>
     mt_requestsTotal m = tally was_counted ss \<and> mt_inFlightRequests m = tally in_flight ss
     \<and> mt_responsesTotal m = tally was_answered ss \<and> mt_errorsTotal m = tally was_error ss
     \<and> mt_latencyTotalMS m = tally took ss"

lemma counts_new: "counts (NewMetrics now) []"
  by (simp add: counts_def NewMetrics_def)

lemma counts_step: "metric_step (m, ss) (m', ss') \<Longrightarrow> counts m ss \<Longrightarrow> counts m' ss'"
  by (cases rule: metric_step.cases, assumption)
    (auto simp: counts_def tally_update stage_defs metric_defs)

lemma counts_steps: "metric_steps (m, ss) (m', ss') \<Longrightarrow> counts m ss \<Longrightarrow> counts m' ss'"
  by (induction rule: rtranclp_induct2) (blast intro: counts_step)+

text \<open>The middleware of one request goes through the stages one after the other.\<close>

lemma last_step:
  assumes "metric_steps c (m, ss @ [s])" "metric_step (m, ss @ [s]) (m', (ss @ [s])[length ss := s'])"
  shows "metric_steps c (m', ss @ [s'])"
  using rtranclp.rtrancl_into_rtrancl [OF assms] by simp

lemma serving_steps: "metric_steps (m, ss) (enter_flight (count_request m), ss @ [Serving])"
proof -
  have "metric_steps (m, ss) (m, ss @ [Entered])" by (blast intro: metric_step.arrive)
  then have "metric_steps (m, ss) (count_request m, ss @ [Counted])"
    by (rule last_step) (rule metric_step.count; simp)
  then show ?thesis by (rule last_step) (rule metric_step.fly; simp)
qed

lemma one_request_steps:
  "metric_steps (m, ss)
     (leave_flight (count_error st (add_latency d (count_response (enter_flight (count_request m))))),
      ss @ [Left (Some (st, d))])"
proof -
  let ?m = "enter_flight (count_request m)"
  have "metric_steps (m, ss) (?m, ss @ [Served st d])"
    by (rule last_step [OF serving_steps]) (rule metric_step.serve; simp)
  then have "metric_steps (m, ss) (count_response ?m, ss @ [Responded st d])"
    by (rule last_step) (rule metric_step.respond; simp)
  then have "metric_steps (m, ss) (add_latency d (count_response ?m), ss @ [Timed st d])"
    by (rule last_step) (rule metric_step.measure; simp)
  then have "metric_steps (m, ss) (count_error st (add_latency d (count_response ?m)), ss @ [Leaving (Some (st, d))])"
    by (rule last_step) (rule metric_step.judge; simp)
  then show ?thesis by (rule last_step) (rule metric_step.leave; simp)
qed

lemma one_panic_steps:
  "metric_steps (m, ss) (leave_flight (enter_flight (count_request m)), ss @ [Left None])"
proof -
  have "metric_steps (m, ss) (enter_flight (count_request m), ss @ [Leaving None])"
    by (rule last_step [OF serving_steps]) (rule metric_step.panic; simp)
  then show ?thesis by (rule last_step) (rule metric_step.leave; simp)
qed

lemma Middleware_steps:
  assumes lens: "\<And>m g. get (put m g) = m" "\<And>l g. get (logs l g) = get g" and nxt: "\<And>r g. get (snd (nxt r g)) = get g"
    and run: "Metrics_Middleware start stop now reqID get put logs nxt r g = (out, g')"
  shows "metric_steps (get g, ss) (get g', ss @ [Left (case out of Panic \<Rightarrow> None | Done rs \<Rightarrow> Some (rs_status rs, Sub stop start))])"
proof -
  let ?g = "put (enter_flight (count_request (get g))) g"
  obtain o2 g2 where n: "nxt r ?g = (o2, g2)" by fastforce
  have g2: "get g2 = enter_flight (count_request (get g))"
    using nxt [of r ?g] n lens by simp
  show ?thesis
  proof (cases o2)
    case Panic
    then have "out = Panic" "get g' = leave_flight (enter_flight (count_request (get g)))"
      using run n g2 lens by (auto simp: Metrics_Middleware_def Let_def)
    then show ?thesis using one_panic_steps by simp
  next
    case (Done rs)
    then have "out = Done rs" "get g' = leave_flight (count_error (rs_status rs) (add_latency (Sub stop start)
        (count_response (enter_flight (count_request (get g))))))"
      using run n g2 lens by (auto simp: Metrics_Middleware_def Let_def recorded_def WriteHeader_def)
    then show ?thesis using one_request_steps by simp
  qed
qed

text \<open>Tallies of zeros and ones are numbers of requests.\<close>

lemma tally_filter: "(\<And>s. f s = (if Q s then 1 else 0)) \<Longrightarrow> tally f ss = of_nat (length (filter Q ss))"
  by (induction ss) (auto simp: tally_def)

definition answered :: "stage \<Rightarrow> bool" where
  "answered s \<longleftrightarrow> was_answered s = 1"

definition open_request :: "stage \<Rightarrow> bool" where
  "open_request s \<longleftrightarrow> in_flight s = 1"

definition failed_request :: "stage \<Rightarrow> bool" where
  "failed_request s \<longleftrightarrow> was_error s = 1"

lemma stage_tallies:
  "tally was_counted ss = of_nat (length (filter (\<lambda>s. s \<noteq> Entered) ss))"
  "tally in_flight ss = of_nat (length (filter open_request ss))"
  "tally was_answered ss = of_nat (length (filter answered ss))"
  "tally was_error ss = of_nat (length (filter failed_request ss))"
  by (rule tally_filter; simp add: answered_def open_request_def failed_request_def stage_defs split: stage.split option.split)+

end
