(* ===== verification/ObservabilityProperties.thy ===== *)
theory ObservabilityProperties
  imports Observability
begin

text \<open>What the counters of the gateway count, when requests interleave and handlers panic.\<close>

lemma filter_all_left:
  assumes "\<forall>s \<in> set ss. \<exists>x. s = Left x"
  shows "filter open_request ss = []" "filter (\<lambda>s. s \<noteq> Entered) ss = ss"
    and "length ss = length (filter answered ss) + length (filter (\<lambda>s. s = Left None) ss)"
proof -
  show "filter open_request ss = []" "filter (\<lambda>s. s \<noteq> Entered) ss = ss"
    using assms by (auto simp: filter_empty_conv filter_id_conv open_request_def in_flight_def)
  show "length ss = length (filter answered ss) + length (filter (\<lambda>s. s = Left None) ss)"
    using assms by (induction ss) (auto simp: answered_def was_answered_def split: option.splits)
qed

text \<open>
  C25: the counters balance. However requests interleave, from the start on the total is the number
  of requests counted so far, the requests in flight are those that entered and have not left, the
  responses are the answered requests and the errors the answers with a status of 500 or more, all
  modulo \<open>2 ^ 64\<close>. When every request has left, none is in flight, also when handlers panicked, and
  the total exceeds the responses by the number of panics. Serving one more request with the
  middleware keeps all of this true.
\<close>

theorem metrics_balance:
  assumes reach: "metric_steps (NewMetrics started, []) (m, ss)"
    and lens: "\<And>m g. get (put m g) = m" "\<And>l g. get (logs l g) = get g" and nxt: "\<And>r g. get (snd (nxt r g)) = get g"
    and run: "get g = m" "Metrics_Middleware start stop now reqID get put logs nxt r g = (out, g')"
  shows "mt_requestsTotal m = of_nat (length (filter (\<lambda>s. s \<noteq> Entered) ss))
    \<and> mt_inFlightRequests m = of_nat (length (filter open_request ss))
    \<and> mt_responsesTotal m = of_nat (length (filter answered ss))
    \<and> mt_errorsTotal m = of_nat (length (filter failed_request ss))
    \<and> ((\<forall>s \<in> set ss. \<exists>x. s = Left x) \<longrightarrow>
        mt_inFlightRequests m = 0
        \<and> mt_requestsTotal m = mt_responsesTotal m + of_nat (length (filter (\<lambda>s. s = Left None) ss)))
    \<and> metric_steps (NewMetrics started, [])
        (get g', ss @ [Left (case out of Panic \<Rightarrow> None | Done rs \<Rightarrow> Some (rs_status rs, Sub stop start))])"
proof -
  note c = counts_steps [OF reach counts_new, unfolded counts_def stage_tallies]
  have "metric_steps (m, ss)
      (get g', ss @ [Left (case out of Panic \<Rightarrow> None | Done rs \<Rightarrow> Some (rs_status rs, Sub stop start))])"
    using Middleware_steps [where get = get and put = put and logs = logs and nxt = nxt, OF lens nxt run(2)] run(1) by simp
  then show ?thesis using reach c filter_all_left [of ss] by (auto simp flip: of_nat_add)
qed

text \<open>A handler that panics: the request is counted, and nothing is in flight afterwards.\<close>

theorem metrics_balance_witness:
  "metric_steps (NewMetrics 0, []) (NewMetrics 0, [])
   \<and> (\<forall>r. \<exists>m. Metrics_Middleware 0 0 0 [] id (\<lambda>m _. m) (\<lambda>_ g. g) (\<lambda>_ g. (Panic, g)) r (NewMetrics 0) = (Panic, m)
      \<and> mt_requestsTotal m = 1 \<and> mt_inFlightRequests m = 0
      \<and> metric_steps (NewMetrics 0, []) (m, [Left None]))"
  using metrics_balance [where get = id and put = "\<lambda>m _. m" and logs = "\<lambda>_ g. g" and nxt = "\<lambda>_ g. (Panic, g)" and g = "NewMetrics 0"
      and started = 0 and m = "NewMetrics 0" and ss = "[]" and start = 0 and stop = 0 and now = 0 and reqID = "[]"]
  by (auto simp: Metrics_Middleware_def Let_def metric_defs NewMetrics_def)

end
