(* ===== verification/Interference.thy ===== *)
theory Interference
  imports DidRuns AuthRuns CredentialRuns ApiKeyProperties
begin

text \<open>
  Requests that overlap. Every request runs on a goroutine of its own; what is atomic is one call of a
  store, by the mutex of the memory stores and as one statement of the database or one command of
  Redis. A handler on its way is therefore the handler on a shared store: before each of its calls
  the other requests may have done anything to the state. The handlers are the same definitions as
  everywhere; only the store they are given is another one.
\<close>

section \<open>Shared stores\<close>

text \<open>\<open>others\<close> is what the other requests do, before the first call, before the second, and so on.\<close>

type_synonym 's shared = "'s \<times> ('s \<Rightarrow> 's) list"

fun meanwhile :: "'s shared \<Rightarrow> 's shared" where
  "meanwhile (s, []) = (s, [])"
| "meanwhile (s, f # others) = (f s, others)"

definition shared_call :: "('s \<Rightarrow> 'r \<times> 's) \<Rightarrow> 's shared \<Rightarrow> 'r \<times> 's shared" where
  "shared_call op s = (let (s, others) = meanwhile s; (r, s) = op s in (r, (s, others)))"

lemma shared_call_simps [simp]:
  "shared_call op (s, []) = (fst (op s), (snd (op s), []))"
  "shared_call op (s, f # others) = (fst (op (f s)), (snd (op (f s)), others))"
  by (simp_all add: shared_call_def split: prod.split)

definition shared_did_store :: "'s DIDStore \<Rightarrow> 's shared DIDStore" where
  "shared_did_store ops =
     \<lparr>ds_Exists = \<lambda>s d. shared_call (\<lambda>s. ds_Exists ops s d) s,
      ds_Create = \<lambda>s doc. shared_call (\<lambda>s. ds_Create ops s doc) s,
      ds_Resolve = \<lambda>s d. shared_call (\<lambda>s. ds_Resolve ops s d) s,
      ds_Update = \<lambda>now s doc. shared_call (\<lambda>s. ds_Update ops now s doc) s,
      ds_Stats = \<lambda>s. shared_call (ds_Stats ops) s\<rparr>"

definition shared_challenge_store :: "'c ChallengeStore \<Rightarrow> 'c shared ChallengeStore" where
  "shared_challenge_store ops =
     \<lparr>cs_Save = \<lambda>now s ch. shared_call (\<lambda>s. cs_Save ops now s ch) s,
      cs_Get = \<lambda>now s i. shared_call (\<lambda>s. cs_Get ops now s i) s,
      cs_Delete = \<lambda>s i. shared_call (\<lambda>s. cs_Delete ops s i) s\<rparr>"

lemma shared_did_simps [simp]:
  "ds_Exists (shared_did_store ops) s d = shared_call (\<lambda>s. ds_Exists ops s d) s"
  "ds_Create (shared_did_store ops) s doc = shared_call (\<lambda>s. ds_Create ops s doc) s"
  "ds_Resolve (shared_did_store ops) s d = shared_call (\<lambda>s. ds_Resolve ops s d) s"
  "ds_Update (shared_did_store ops) now s doc = shared_call (\<lambda>s. ds_Update ops now s doc) s"
  "ds_Stats (shared_did_store ops) s = shared_call (ds_Stats ops) s"
  by (simp_all add: shared_did_store_def)

lemma shared_challenge_simps [simp]:
  "cs_Save (shared_challenge_store ops') now t ch = shared_call (\<lambda>s. cs_Save ops' now s ch) t"
  "cs_Get (shared_challenge_store ops') now t i = shared_call (\<lambda>s. cs_Get ops' now s i) t"
  "cs_Delete (shared_challenge_store ops') t i = shared_call (\<lambda>s. cs_Delete ops' s i) t"
  by (simp_all add: shared_challenge_store_def)

text \<open>A client of the shared store, with the requests that overlap with it.\<close>

definition among :: "('s \<Rightarrow> 's) list \<Rightarrow> 's Client \<Rightarrow> 's shared Client" where
  "among others c = \<lparr>cl_rpc = cl_rpc c, cl_store = (cl_store c, others)\<rparr>"

lemma among_fields [simp]:
  "cl_rpc (among others c) = cl_rpc c" "cl_store (among others c) = (cl_store c, others)"
  "among others c\<lparr>cl_store := (s, others')\<rparr> = among others' (c\<lparr>cl_store := s\<rparr>)"
  by (simp_all add: among_def)

section \<open>Alone, a request does what it does\<close>

lemma alone_client:
  "Client_DIDExists (shared_did_store ops) (among [] c) d = apsnd (among []) (Client_DIDExists ops c d)"
  "Client_ResolveDID (shared_did_store ops) (among [] c) d = apsnd (among []) (Client_ResolveDID ops c d)"
  "Client_RegisterDID P (shared_did_store ops) t (among [] c) rp = apsnd (among []) (Client_RegisterDID P ops t c rp)"
  "Client_RevokeDID (shared_did_store ops) t (among [] c) d = apsnd (among []) (Client_RevokeDID ops t c d)"
  "Client_UpdateDID P (shared_did_store ops) t t' (among [] c) up = apsnd (among []) (Client_UpdateDID P ops t t' c up)"
  "Client_RegistryStats (shared_did_store ops) (among [] c) = apsnd (among []) (Client_RegistryStats ops c)"
  by (simp_all add: Client_DIDExists_def Client_ResolveDID_def Client_RegisterDID_def Client_RevokeDID_def Client_UpdateDID_def
      Client_RegistryStats_def registryBackend_def split: prod.split sum.split)

lemma case_apsnd: "(case apsnd f p of (a, b) \<Rightarrow> g a b) = (case p of (a, b) \<Rightarrow> g a (f b))"
  by (cases p) simp

lemmas apsnd_distribs = case_apsnd if_distrib [of "apsnd f" for f] prod.case_distrib [of "apsnd f" for f]
  sum.case_distrib [of "apsnd f" for f] option.case_distrib [of "apsnd f" for f] bool.case_distrib [of "apsnd f" for f]
  outcome.case_distrib [of "apsnd f" for f]

lemma alone:
  "did_serve P (shared_did_store ops) clk op (among [] c) = apsnd (among []) (did_serve P ops clk op c)"
  by (cases op)
    (simp_all add: did_serve_def DIDHandler_Register_def DIDHandler_Resolve_def DIDHandler_Revoke_def DIDHandler_Update_def
      RegistryHandler_Stats_def alone_client apsnd_distribs Let_def cong: if_cong option.case_cong sum.case_cong prod.case_cong bool.case_cong outcome.case_cong)

text \<open>A request that runs as a whole while another one is on its way.\<close>

definition whole_request :: "prims \<Rightarrow> 's DIDStore \<Rightarrow> string \<Rightarrow> clock \<Rightarrow> did_op \<Rightarrow> 's \<Rightarrow> 's" where
  "whole_request P ops rpc clk op s = cl_store (snd (did_serve P ops clk op \<lparr>cl_rpc = rpc, cl_store = s\<rparr>))"

section \<open>An update that overlaps with a revocation\<close>

context reliable_did_store
begin

lemma overlapping_update:
  assumes inv: "cinv c" and ok: "registry_ok (cview c)"
    and upd: "update_valid P (cview c) did body req doc newkey"
    and rev: "revoke_valid P (cview c) body2 req2 doc" "rev_DID req2 = did"
    and run: "DIDHandler_Update P (shared_did_store ops) clk
      (among [id, id, whole_request P ops (cl_rpc c) clk2 (OpRevoke body2)] c) did body = (out, c')"
  shows "\<exists>rs. out = Done rs \<and> rs_status rs = 200"
    and "\<exists>doc'. view (fst (cl_store c')) did = Some doc' \<and> \<not> doc_Deactivated doc' \<and> doc_PublicKeyBase64 doc' = StdEncode newkey"
proof -
  let ?p = "\<lparr>up_DID = did, up_PublicKey = newkey, up_Context = upd_Context req\<rparr>"
  from upd obtain key sg where v: "decode_update body = Some req" "upd_DID req = did \<or> upd_DID req = []"
      "isValidDID did" "cview c did = Some doc" "\<not> doc_Deactivated doc"
      "StdDecode (upd_PublicKeyBase64 req) = Some newkey" "length newkey = PublicKeySize"
      "StdDecode (doc_PublicKeyBase64 doc) = Some key" "StdDecode (upd_SignatureBase64 req) = Some sg"
      "sig_ok P key (update_message did (upd_PublicKeyBase64 req) (upd_Timestamp req)) sg"
      by (auto simp: update_valid_def)
  have len: "length key = PublicKeySize" using registry_ok_keylen [OF ok v(4,8)] .
  have id: "doc_ID doc = did" using view_ID inv v(4) by blast
  obtain r1 s1 where 1: "ds_Resolve ops (cl_store c) did = (r1, s1)" by fastforce
  have r1: "r1 = Inr doc" "inv s1" "view s1 = cview c"
    using Resolve_ok [OF inv 1] Resolve_law [OF inv 1] v(4) by simp_all
  obtain r2 s2 where 2: "ds_Resolve ops s1 did = (r2, s2)" by fastforce
  have r2: "r2 = Inr doc" "inv s2" "view s2 = cview c"
    using Resolve_ok [OF r1(2) 2] Resolve_law [OF r1(2) 2] r1(3) v(4) by simp_all
  let ?c2 = "\<lparr>cl_rpc = cl_rpc c, cl_store = s2\<rparr>"
  obtain out2 c3 where 3: "DIDHandler_Revoke P ops clk2 ?c2 body2 = (out2, c3)" by fastforce
  have inv2: "cinv ?c2" "registry_ok (cview ?c2)" "revoke_valid P (cview ?c2) body2 req2 doc" using r2 ok rev by simp_all
  have "writes (cview ?c2) (doc\<lparr>doc_Deactivated := True\<rparr>) (cview c3)" by (rule Revoke_iff(2) [OF inv2(1,2) 3 inv2(3)])
  then have s3: "view (cl_store c3) did \<noteq> None" using id by (auto simp: writes_def)
  have inv3: "inv (cl_store c3)"
    using serve_authorised(1) [OF inv2(1,2), of P clk2 "OpRevoke body2"] 3 by (simp add: did_serve_def)
  have w: "whole_request P ops (cl_rpc c) clk2 (OpRevoke body2) s2 = cl_store c3"
    by (simp add: whole_request_def did_serve_def 3)
  let ?d = "updated_doc (clk 0) ?p doc"
  have d: "doc_ID ?d = did" "\<not> doc_Deactivated ?d" "doc_PublicKeyBase64 ?d = StdEncode newkey"
    using id v(5) by (simp_all add: updated_doc_def Let_def)
  obtain r4 s4 where 4: "ds_Update ops (clk 1) (cl_store c3) ?d = (r4, s4)" by fastforce
  have r4: "r4 = Inr ()" using Update_ok [OF inv3 _ 4] s3 d(1) by simp
  then obtain u where view4: "view s4 = (view (cl_store c3))(did \<mapsto> ?d\<lparr>doc_Updated := u\<rparr>)"
    using Update_law [OF inv3 4] d(1) by auto
  have "(\<exists>rs. out = Done rs \<and> rs_status rs = 200) \<and> fst (cl_store c') = s4"
    using run v len 1 r1 2 r2 w 4 r4
    by (cases "upd_DID req = []")
      (auto simp: DIDHandler_Update_def Client_ResolveDID_def Client_UpdateDID_def Let_def)
  then show "\<exists>rs. out = Done rs \<and> rs_status rs = 200"
    and "\<exists>doc'. view (fst (cl_store c')) did = Some doc' \<and> \<not> doc_Deactivated doc' \<and> doc_PublicKeyBase64 doc' = StdEncode newkey"
    using view4 d by auto
qed

end

section \<open>Two registrations of one DID\<close>

lemma memory_overlapping_register:
  assumes inv: "mem.cinv c" and v: "register_valid P (mview c) body req key"
    and v2: "register_valid P (mview c) body2 req2 key2" "reg_DID req2 = reg_DID req"
    and run: "DIDHandler_Register P (shared_did_store memory_did_store) clk
      (among [id, whole_request P memory_did_store (cl_rpc c) clk2 (OpRegister body2)] c) body = (out, c')"
  shows "\<exists>rs. out = Done rs \<and> rs_status rs = 201"
    and "\<exists>doc. mem_view (fst (cl_store c')) (reg_DID req) = Some doc \<and> doc_PublicKeyBase64 doc = StdEncode key"
  using run v
  by (auto simp: DIDHandler_Register_def register_valid_def Client_DIDExists_def Client_RegisterDID_def memory_did_defs
      mem_view_def registered_doc_def Let_def split: option.splits)

lemma postgres_overlapping_register:
  assumes inv: "pgq.cinv c" and ok: "registry_ok (pview c)" and v: "register_valid P (pview c) body req key"
    and v2: "register_valid P (pview c) body2 req2 key2" "reg_DID req2 = reg_DID req"
    and run: "DIDHandler_Register P (shared_did_store postgres_did_store) clk
      (among [id, whole_request P postgres_did_store (cl_rpc c) clk2 (OpRegister body2)] c) body = (out, c')"
  shows "\<exists>rs. out = Done rs \<and> rs_status rs = 500"
    and "\<exists>doc. pg_view (fst (cl_store c')) (reg_DID req) = Some doc \<and> doc_PublicKeyBase64 doc = StdEncode key2"
proof -
  obtain r s where e: "ds_Exists postgres_did_store (cl_store c) (reg_DID req) = (r, s)" by fastforce
  have e': "r = Inr False" "pg_quiet s" "pg_view s = pview c"
    using pgq.Exists_ok [OF inv e] pgq.Exists_law [OF inv e] v by (simp_all add: register_valid_def)
  let ?c = "\<lparr>cl_rpc = cl_rpc c, cl_store = s\<rparr>"
  obtain out2 c2 where 2: "DIDHandler_Register P postgres_did_store clk2 ?c body2 = (out2, c2)" by fastforce
  have inv2: "pgq.cinv ?c" "register_valid P (pview ?c) body2 req2 key2" using e' v2 by simp_all
  have view2: "pview c2 = (pview ?c)(reg_DID req \<mapsto> registered_doc (clk2 0) \<lparr>rp_DID = reg_DID req, rp_PublicKey = key2\<rparr>)"
    using pgq.Register_iff(2) [OF inv2(1) 2 inv2(2)] v2(2) by simp
  have w: "whole_request P postgres_did_store (cl_rpc c) clk2 (OpRegister body2) s = cl_store c2"
    by (simp add: whole_request_def did_serve_def 2)
  have q2: "pg_quiet (cl_store c2)"
    using pgq.serve_authorised(1) [OF inv2(1), of P clk2 "OpRegister body2"] 2 ok e'(3) by (simp add: did_serve_def)
  let ?d = "registered_doc (clk 0) \<lparr>rp_DID = reg_DID req, rp_PublicKey = key\<rparr>"
  have "pview c2 (reg_DID req) \<noteq> None" using view2 by simp
  then have "gm_get (sql_rows (cl_store c2)) (reg_DID req) \<noteq> None" by (cases "gm_get (sql_rows (cl_store c2)) (reg_DID req)") (auto simp: pg_view_def)
  then have cr: "\<exists>e. ds_Create postgres_did_store (cl_store c2) ?d = (Inl e, cl_store c2)"
    using q2 by (auto simp: postgres_did_defs pg_quiet_def db_exec_ok sql_insert_def registered_doc_def Let_def)
  have "(\<exists>rs. out = Done rs \<and> rs_status rs = 500) \<and> fst (cl_store c') = cl_store c2"
    using run v e e'(1) w cr
    by (auto simp: DIDHandler_Register_def register_valid_def Client_DIDExists_def Client_RegisterDID_def)
  then show "\<exists>rs. out = Done rs \<and> rs_status rs = 500"
    and "\<exists>doc. pg_view (fst (cl_store c')) (reg_DID req) = Some doc \<and> doc_PublicKeyBase64 doc = StdEncode key2"
    using view2 by (auto simp: registered_doc_def Let_def)
qed

section \<open>Two redemptions of one challenge\<close>

definition among_auth :: "('c \<Rightarrow> 'c) list \<Rightarrow> ('s, 'c) VerifyHandler \<Rightarrow> ('s, 'c shared) VerifyHandler" where
  "among_auth others h = \<lparr>vh_chain = vh_chain h, vh_zkp = vh_zkp h, vh_challengeStore = (vh_challengeStore h, others)\<rparr>"

text \<open>What \<open>VerifyAuth\<close> answers is settled by its first call: the deletion that follows may find anything.\<close>

lemma overlapping_redemption:
  "fst (VerifyAuth P dops (shared_challenge_store cops) clk (among_auth [id, f] h) body) = fst (VerifyAuth P dops cops clk h body)"
  by (simp add: VerifyAuth_def among_auth_def Let_def case_prod_unfold if_distrib [of fst] option.case_distrib [of fst]
      sum.case_distrib [of fst] outcome.case_distrib [of fst] bool.case_distrib [of fst]
      cong: option.case_cong sum.case_cong outcome.case_cong bool.case_cong if_cong)

section \<open>An authentication among other requests\<close>

definition among_both :: "('s \<Rightarrow> 's) list \<Rightarrow> ('c \<Rightarrow> 'c) list \<Rightarrow> ('s, 'c) VerifyHandler \<Rightarrow> ('s shared, 'c shared) VerifyHandler" where
  "among_both ds cs h = \<lparr>vh_chain = among ds (vh_chain h), vh_zkp = vh_zkp h, vh_challengeStore = (vh_challengeStore h, cs)\<rparr>"

text \<open>
  What \<open>VerifyAuth\<close> answers is what it would answer alone, on the challenges as they are when it reads
  the challenge and the registry as it is when it resolves the DID: the deletion may find anything.
\<close>

lemma resolve_shared:
  "fst (Client_ResolveDID (shared_did_store dops) (among (k # ks) c) d) = fst (Client_ResolveDID dops (c\<lparr>cl_store := k (cl_store c)\<rparr>) d)"
  by (simp add: Client_ResolveDID_def case_prod_unfold Let_def)

lemma overlapping_answer:
  "fst (VerifyAuth P (shared_did_store dops) (shared_challenge_store cops) clk (among_both (k # ks) (f # fs) h) body)
   = fst (VerifyAuth P dops cops clk \<lparr>vh_chain = (vh_chain h)\<lparr>cl_store := k (cl_store (vh_chain h))\<rparr>, vh_zkp = vh_zkp h,
       vh_challengeStore = f (vh_challengeStore h)\<rparr> body)"
  by (simp add: VerifyAuth_def among_both_def Let_def case_prod_unfold if_distrib [of fst] option.case_distrib [of fst]
      sum.case_distrib [of fst] outcome.case_distrib [of fst] bool.case_distrib [of fst] resolve_shared
      cong: option.case_cong sum.case_cong outcome.case_cong bool.case_cong if_cong)

context auth_protocol
begin

lemma overlapping_authentication:
  assumes inv: "chinv (f (vh_challengeStore h))" "dinv (k (cl_store (vh_chain h)))"
    and ok: "authenticates (fst (VerifyAuth P (shared_did_store dops) (shared_challenge_store cops) clk (among_both (k # ks) (f # fs) h) body)) d"
  shows "\<exists>req ch pres. decode_auth body = Some req \<and> chview (f (vh_challengeStore h)) (va_ChallengeID req) = Some ch
    \<and> auth_valid P (dview (k (cl_store (vh_chain h)))) clk ch req pres \<and> pr_DID pres = d"
  using VerifyAuth_law(3) [OF _ _ prod.collapse [symmetric] ok [unfolded overlapping_answer]] inv by simp

end

section \<open>What a store keeps\<close>

text \<open>\<open>carried R\<close>: what was there is still there, up to \<open>R\<close>. For a key that is its hash, and all of it once revoked.\<close>

definition carried :: "('b \<Rightarrow> 'b \<Rightarrow> bool) \<Rightarrow> ('a \<Rightarrow> 'b option) \<Rightarrow> ('a \<Rightarrow> 'b option) \<Rightarrow> bool" where
  "carried R v v' \<longleftrightarrow> (\<forall>i a. v i = Some a \<longrightarrow> (\<exists>b. v' i = Some b \<and> R a b))"

lemma carried_refl: "(\<And>a. R a a) \<Longrightarrow> carried R v v"
  by (simp add: carried_def)

lemma carried_trans: "(\<And>a b c. R a b \<Longrightarrow> R b c \<Longrightarrow> R a c) \<Longrightarrow> carried R v v1 \<Longrightarrow> carried R v1 v2 \<Longrightarrow> carried R v v2"
  unfolding carried_def by metis

definition key_kept :: "APIKeyRecord \<times> string \<Rightarrow> APIKeyRecord \<times> string \<Rightarrow> bool" where
  "key_kept a b \<longleftrightarrow> snd b = snd a \<and> (ak_RevokedAt (fst a) \<noteq> [] \<longrightarrow> b = a)"

lemma key_kept_trans: "key_kept a b \<Longrightarrow> key_kept b c \<Longrightarrow> key_kept a c"
  by (auto simp: key_kept_def)

lemma key_kept_refl [simp]: "key_kept a a"
  by (simp add: key_kept_def)

section \<open>Any calls of a store, in any order\<close>

text \<open>
  However requests overlap, a store goes through a sequence of calls of its operations. The
  operations of the credential and key stores check and write in one call, so what is revoked stays so.
\<close>

inductive credential_calls :: "'k CredentialStore \<Rightarrow> 'k \<Rightarrow> 'k \<Rightarrow> bool" for ops :: "'k CredentialStore" and s0 :: 'k where
  none: "credential_calls ops s0 s0"
| create: "credential_calls ops s0 s \<Longrightarrow> crs_Create ops s rec = (ru, s') \<Longrightarrow> credential_calls ops s0 s'"
| get: "credential_calls ops s0 s \<Longrightarrow> crs_Get ops s i = (rg, s') \<Longrightarrow> credential_calls ops s0 s'"
| list: "credential_calls ops s0 s \<Longrightarrow> crs_ListBySubject ops s d = (rl, s') \<Longrightarrow> credential_calls ops s0 s'"
| revoke: "credential_calls ops s0 s \<Longrightarrow> crs_Revoke ops now s i why = (rr, s') \<Longrightarrow> credential_calls ops s0 s'"

inductive key_calls :: "'a APIKeyStore \<Rightarrow> 'a \<Rightarrow> 'a \<Rightarrow> bool" for ops :: "'a APIKeyStore" and s0 :: 'a where
  none: "key_calls ops s0 s0"
| create: "key_calls ops s0 s \<Longrightarrow> aks_Create ops now s i n k = (rc, s') \<Longrightarrow> key_calls ops s0 s'"
| validate: "key_calls ops s0 s \<Longrightarrow> aks_Validate ops s i k = (rv, s') \<Longrightarrow> key_calls ops s0 s'"
| list: "key_calls ops s0 s \<Longrightarrow> aks_List ops s = (rl, s') \<Longrightarrow> key_calls ops s0 s'"
| revoke: "key_calls ops s0 s \<Longrightarrow> aks_Revoke ops now s i = (rr, s') \<Longrightarrow> key_calls ops s0 s'"

lemma carried_upd: "carried R v (v(i := b)) \<longleftrightarrow> (\<forall>a. v i = Some a \<longrightarrow> (\<exists>b'. b = Some b' \<and> R a b'))" if "\<And>a. R a a"
  using that by (auto simp: carried_def)

lemma carried_rec_trans: "carried rec_succ a b \<Longrightarrow> carried rec_succ b c \<Longrightarrow> carried rec_succ a c"
  by (rule carried_trans, rule rec_succ_trans)

lemma carried_key_trans: "carried key_kept a b \<Longrightarrow> carried key_kept b c \<Longrightarrow> carried key_kept a c"
  by (rule carried_trans, rule key_kept_trans)

context credential_store
begin

lemma call_kept:
  assumes "inv s"
  shows "crs_Create ops s rec = (ru, s') \<Longrightarrow> inv s' \<and> carried rec_succ (view s) (view s')"
    and "crs_Get ops s i = (rg, s') \<Longrightarrow> inv s' \<and> carried rec_succ (view s) (view s')"
    and "crs_ListBySubject ops s d = (rl, s') \<Longrightarrow> inv s' \<and> carried rec_succ (view s) (view s')"
    and "crs_Revoke ops now s i why = (rr, s') \<Longrightarrow> inv s' \<and> carried rec_succ (view s) (view s')"
proof -
  show "crs_Create ops s rec = (ru, s') \<Longrightarrow> inv s' \<and> carried rec_succ (view s) (view s')"
    using Create_law [OF assms] by (force simp: carried_upd carried_refl)
  show "crs_Get ops s i = (rg, s') \<Longrightarrow> inv s' \<and> carried rec_succ (view s) (view s')"
    using Get_law [OF assms] by (simp add: carried_refl)
  show "crs_ListBySubject ops s d = (rl, s') \<Longrightarrow> inv s' \<and> carried rec_succ (view s) (view s')"
    using List_law [OF assms] by (simp add: carried_refl)
  show "crs_Revoke ops now s i why = (rr, s') \<Longrightarrow> inv s' \<and> carried rec_succ (view s) (view s')"
    using Revoke_law [OF assms] by (force simp: carried_upd carried_refl)
qed

lemma calls_kept:
  assumes "credential_calls ops s0 s" "inv s0" shows "inv s \<and> carried rec_succ (view s0) (view s)"
  using assms
proof (induction rule: credential_calls.induct)
  case none
  then show ?case by (simp add: carried_refl)
next
  case (create s rec ru s')
  then have s: "inv s" "carried rec_succ (view s0) (view s)" by blast+
  show ?case using call_kept(1) [OF s(1) create.hyps(2)] carried_rec_trans [OF s(2)] by blast
next
  case (get s i rg s')
  then have s: "inv s" "carried rec_succ (view s0) (view s)" by blast+
  show ?case using call_kept(2) [OF s(1) get.hyps(2)] carried_rec_trans [OF s(2)] by blast
next
  case (list s d rl s')
  then have s: "inv s" "carried rec_succ (view s0) (view s)" by blast+
  show ?case using call_kept(3) [OF s(1) list.hyps(2)] carried_rec_trans [OF s(2)] by blast
next
  case (revoke s now i why rr s')
  then have s: "inv s" "carried rec_succ (view s0) (view s)" by blast+
  show ?case using call_kept(4) [OF s(1) revoke.hyps(2)] carried_rec_trans [OF s(2)] by blast
qed

end

context api_key_store
begin

lemma call_kept:
  assumes "inv s"
  shows "aks_Create ops now s i n k = (rc, s') \<Longrightarrow> inv s' \<and> carried key_kept (view s) (view s')"
    and "aks_Validate ops s i k = (rv, s') \<Longrightarrow> inv s' \<and> carried key_kept (view s) (view s')"
    and "aks_List ops s = (rl, s') \<Longrightarrow> inv s' \<and> carried key_kept (view s) (view s')"
    and "aks_Revoke ops now s i = (rr, s') \<Longrightarrow> inv s' \<and> carried key_kept (view s) (view s')"
proof -
  show "aks_Create ops now s i n k = (rc, s') \<Longrightarrow> inv s' \<and> carried key_kept (view s) (view s')"
    using Create_law [OF assms] by (force simp: carried_upd carried_refl)
  show "aks_Validate ops s i k = (rv, s') \<Longrightarrow> inv s' \<and> carried key_kept (view s) (view s')"
    using Validate_law [OF assms] by (simp add: carried_refl)
  show "aks_List ops s = (rl, s') \<Longrightarrow> inv s' \<and> carried key_kept (view s) (view s')"
    using List_law [OF assms] by (simp add: carried_refl)
  show "aks_Revoke ops now s i = (rr, s') \<Longrightarrow> inv s' \<and> carried key_kept (view s) (view s')"
    using Revoke_law [OF assms] by (force simp: carried_upd carried_refl key_kept_def revoked_key_def)
qed

lemma calls_kept:
  assumes "key_calls ops s0 s" "inv s0" shows "inv s \<and> carried key_kept (view s0) (view s)"
  using assms
proof (induction rule: key_calls.induct)
  case none
  then show ?case by (simp add: carried_refl)
next
  case (create s now i n k rc s')
  then have s: "inv s" "carried key_kept (view s0) (view s)" by blast+
  show ?case using call_kept(1) [OF s(1) create.hyps(2)] carried_key_trans [OF s(2)] by blast
next
  case (validate s i k rv s')
  then have s: "inv s" "carried key_kept (view s0) (view s)" by blast+
  show ?case using call_kept(2) [OF s(1) validate.hyps(2)] carried_key_trans [OF s(2)] by blast
next
  case (list s rl s')
  then have s: "inv s" "carried key_kept (view s0) (view s)" by blast+
  show ?case using call_kept(3) [OF s(1) list.hyps(2)] carried_key_trans [OF s(2)] by blast
next
  case (revoke s now i rr s')
  then have s: "inv s" "carried key_kept (view s0) (view s)" by blast+
  show ?case using call_kept(4) [OF s(1) revoke.hyps(2)] carried_key_trans [OF s(2)] by blast
qed

end

end
