(* ===== verification/ConcurrencyProperties.thy ===== *)
theory ConcurrencyProperties
  imports Interference AuthProperties CredentialProperties
begin

text \<open>
  What remains of the guarantees when requests overlap. Revocations of credentials and of API keys
  are final under any interleaving, as each is one call of a store. What the handlers decide by one
  call and do by another is not protected: a revocation of a DID, the registration of a free DID in
  memory, and the single use of a challenge.
\<close>

section \<open>What is final\<close>

context credential_store
begin

lemma revoked_not_valid:
  assumes "inv (crh_store h)" "view (crh_store h) i = Some rec" "cr_RevokedAt rec \<noteq> []"
  shows "\<not> says_valid (fst (CredentialHandler_Verify P dops ops clk h i))"
proof -
  obtain r s where g: "crs_Get ops (crh_store h) i = (r, s)" by fastforce
  show ?thesis
  proof (cases r)
    case (Inl e)
    then show ?thesis using g by (simp add: CredentialHandler_Verify_def)
  next
    case (Inr rec')
    then have "rec' = rec" using Get_law [OF assms(1) g] assms(2) by simp
    then have "credentialStatus rec' (clk 0) \<noteq> (True, x)" for x using assms(3) by (simp add: credentialStatus_ok)
    then obtain why where "credentialStatus rec' (clk 0) = (False, why)" by (metis (full_types) surj_pair)
    then show ?thesis using g Inr by (simp add: CredentialHandler_Verify_def)
  qed
qed

lemma revoked_for_all:
  assumes "inv (crh_store h)" "CredentialHandler_Revoke ops clk h body = (out, h1)" "answers out 200"
    and "decode_credential_revoke body = Some req" "credential_calls ops (crh_store h1) (crh_store h2)"
  shows "\<not> says_valid (fst (CredentialHandler_Verify P dops ops clk2 h2 (crv_ID req)))"
proof -
  obtain r s where r: "crs_Revoke ops (clk 0) (crh_store h) (crv_ID req) (crv_Reason req) = (r, s)" by fastforce
  have "r = Inr () \<and> crh_store h1 = s"
    using assms(2,3,4) r by (cases r) (auto simp: CredentialHandler_Revoke_def split: if_splits)
  then obtain rec why where rec: "view (crh_store h1) (crv_ID req) = Some (revoked_record (clk 0) why rec)" "inv (crh_store h1)"
    using Revoke_law [OF assms(1) r] by auto
  from calls_kept [OF assms(5) rec(2)] obtain rec' where "inv (crh_store h2)"
    "view (crh_store h2) (crv_ID req) = Some rec'" "rec_succ (revoked_record (clk 0) why rec) rec'"
    using rec(1) unfolding carried_def by blast
  moreover from this(3) have "cr_RevokedAt rec' \<noteq> []" by (simp add: rec_succ_def)
  ultimately show ?thesis using revoked_not_valid by blast
qed

end

context api_key_store
begin

lemma revoked_for_all:
  assumes "inv (akh_store h)" "APIKeyHandler_Revoke ops clk h body = (out, h1)" "answers out 200"
    and "decode_revoke_key body = Some req" "key_calls ops (akh_store h1) s"
  shows "fst (aks_Validate ops s (TrimSpace (rkr_ServiceID req)) k) \<noteq> Inr ()"
proof -
  obtain rec d where rec: "view (akh_store h1) (TrimSpace (rkr_ServiceID req)) = Some (revoked_key (clk 0) rec, d)"
    using Revoke_handler_law(4) [OF assms(1-3)] assms(4) by (auto simp: NormalizeAPIKeyInput_def)
  have "inv (akh_store h1)" by (rule Revoke_handler_law(1) [OF assms(1,2)])
  from calls_kept [OF assms(5) this] obtain b where b: "inv s" "view s (TrimSpace (rkr_ServiceID req)) = Some b"
    "key_kept (revoked_key (clk 0) rec, d) b"
    using rec unfolding carried_def by blast
  then have "\<not> key_valid P (view s) (TrimSpace (rkr_ServiceID req)) k" by (auto simp: key_valid_def key_kept_def)
  then show ?thesis using Validate_law [OF b(1) surjective_pairing] by blast
qed

end

text \<open>
  C6: however requests overlap, the revocation of a credential or of an API key that was answered 200
  is final. Whatever calls of the store the requests of other clients make from then on, in any
  order and with any arguments, no verification says that the credential is valid, and no key
  validates for the service. This holds in memory and in Postgres with every failure of the driver.
\<close>

theorem revocations_survive_interleaving:
  "(crmem_inv (crh_store h) \<and> answers (fst (dev_Revoke clk h body)) 200 \<and> decode_credential_revoke body = Some req
      \<and> credential_calls memory_credential_store (crh_store (snd (dev_Revoke clk h body))) (crh_store h2) \<longrightarrow>
        \<not> says_valid (fst (dev_Verify P clk2 h2 (crv_ID req))))
   \<and> (crpg_inv (crh_store g) \<and> answers (fst (prod_Revoke J clk g body)) 200 \<and> decode_credential_revoke body = Some req
      \<and> credential_calls (postgres_credential_store J) (crh_store (snd (prod_Revoke J clk g body))) (crh_store g2) \<longrightarrow>
        \<not> says_valid (fst (prod_Verify P J clk2 g2 (crv_ID req))))
   \<and> (akm_inv (akh_store a) \<and> answers (fst (APIKeyHandler_Revoke (memory_api_key_store P) clk a kbody)) 200
      \<and> decode_revoke_key kbody = Some kreq
      \<and> key_calls (memory_api_key_store P) (akh_store (snd (APIKeyHandler_Revoke (memory_api_key_store P) clk a kbody))) s \<longrightarrow>
        fst (MemoryAPIKeyStore_Validate P s (TrimSpace (rkr_ServiceID kreq)) k) \<noteq> Inr ())
   \<and> (akp_inv (akh_store b) \<and> answers (fst (APIKeyHandler_Revoke (postgres_api_key_store P) clk b kbody)) 200
      \<and> decode_revoke_key kbody = Some kreq
      \<and> key_calls (postgres_api_key_store P) (akh_store (snd (APIKeyHandler_Revoke (postgres_api_key_store P) clk b kbody))) t \<longrightarrow>
        fst (PostgresAPIKeyStore_Validate P t (TrimSpace (rkr_ServiceID kreq)) k) \<noteq> Inr ())"
proof ((intro conjI impI; elim conjE), goal_cases)
  case 1
  then show ?case using memcred.revoked_for_all [OF 1(1) surjective_pairing 1(2,3,4)] by simp
next
  case 2
  then show ?case using pgcred.revoked_for_all [OF 2(1) surjective_pairing 2(2,3,4)] by simp
next
  case 3
  then show ?case using memkeys.revoked_for_all [OF 3(1) surjective_pairing 3(2,3,4), of k]
    by (simp add: memory_api_key_store_def)
next
  case 4
  then show ?case using pgkeys.revoked_for_all [OF 4(1) surjective_pairing 4(2,3,4), of k]
    by (simp add: postgres_api_key_store_def)
qed

theorem revocations_survive_interleaving_witness:
  "fst (MemoryAPIKeyStore_Validate demo_prims
     (snd (MemoryAPIKeyStore_Create demo_prims (demo_clock 1)
        (akh_store (snd (APIKeyHandler_Revoke (memory_api_key_store demo_prims) demo_clock demo_k1 demo_revoke_key))) ''svc'' ''n'' ''key''))
     ''svc'' ''key'') \<noteq> Inr ()
   \<and> \<not> says_valid (fst (dev_Verify demo_prims demo_clock (snd (dev_Revoke demo_clock demo_h1 (demo_withdraw ''x''))) ''urn:c1''))"
proof -
  let ?s = "akh_store (snd (APIKeyHandler_Revoke (memory_api_key_store demo_prims) demo_clock demo_k1 demo_revoke_key))"
  have "key_calls (memory_api_key_store demo_prims) ?s
      (snd (aks_Create (memory_api_key_store demo_prims) (demo_clock 1) ?s ''svc'' ''n'' ''key''))"
    by (rule key_calls.create [OF key_calls.none surjective_pairing])
  moreover have "akm_inv (akh_store demo_k1)" by (rule dev_keys_inv [OF demo_k1_run])
  moreover have "crmem_inv (crh_store demo_h1)" using dev_creds_inv(2) [OF demo_h1_run] by (simp add: dev_creds.sinv_def)
  moreover note law = revocations_survive_interleaving [where h = demo_h1 and clk = demo_clock and body = "demo_withdraw ''x''"
      and req = "\<lparr>crv_ID = ''urn:c1'', crv_Reason = ''x''\<rparr>" and ?h2.0 = "snd (dev_Revoke demo_clock demo_h1 (demo_withdraw ''x''))"
      and P = demo_prims and ?clk2.0 = demo_clock and a = demo_k1 and kbody = demo_revoke_key and kreq = "\<lparr>rkr_ServiceID = ''svc''\<rparr>"
      and s = "snd (aks_Create (memory_api_key_store demo_prims) (demo_clock 1) ?s ''svc'' ''n'' ''key'')" and k = "''key''"]
  moreover have "\<not> says_valid (fst (dev_Verify demo_prims demo_clock (snd (dev_Revoke demo_clock demo_h1 (demo_withdraw ''x''))) ''urn:c1''))"
    using law [THEN conjunct1] calculation(3) demo_withdrawn [of "''x''"] by (simp add: credential_calls.none)
  moreover have "fst (MemoryAPIKeyStore_Validate demo_prims
     (snd (aks_Create (memory_api_key_store demo_prims) (demo_clock 1) ?s ''svc'' ''n'' ''key'')) ''svc'' ''key'') \<noteq> Inr ()"
    using law [THEN conjunct2, THEN conjunct2, THEN conjunct1] calculation(1,2) demo_key_revoked by simp
  ultimately show ?thesis by (simp add: memory_api_key_store_def)
qed

text \<open>
  C14: an accepted authentication is proved even when requests overlap. Let other requests change the
  challenges and the registry in any way before each call that \<open>VerifyAuth\<close> makes, keeping only the
  invariants of the stores. When it authenticates a DID, the challenge it names was held at the
  moment it was read, and all checks hold of it, the signature under the key that the registry had
  for that DID at the moment it was resolved. So for both pairs of stores and every failure.
\<close>

theorem overlapping_authentication_is_proved:
  "(memch_inv (f (vh_challengeStore h)) \<and> mem_inv (k (cl_store (vh_chain h)))
      \<and> authenticates (fst (VerifyAuth P (shared_did_store memory_did_store) (shared_challenge_store memory_challenge_store) clk
          (among_both (k # ks) (f # fs) h) body)) d \<longrightarrow>
      (\<exists>req ch pres. decode_auth body = Some req \<and> memch_view (f (vh_challengeStore h)) (va_ChallengeID req) = Some ch
        \<and> auth_valid P (mem_view (k (cl_store (vh_chain h)))) clk ch req pres \<and> pr_DID pres = d))
   \<and> (redis_inv (f' (vh_challengeStore h')) \<and> pg_inv (k' (cl_store (vh_chain h')))
      \<and> authenticates (fst (VerifyAuth P (shared_did_store postgres_did_store) (shared_challenge_store redis_challenge_store) clk
          (among_both (k' # ks') (f' # fs') h') body)) d \<longrightarrow>
      (\<exists>req ch pres. decode_auth body = Some req \<and> redis_view (f' (vh_challengeStore h')) (va_ChallengeID req) = Some ch
        \<and> auth_valid P (pg_view (k' (cl_store (vh_chain h')))) clk ch req pres \<and> pr_DID pres = d))"
  by (intro conjI impI; elim conjE)
    (rule dev_auth.overlapping_authentication prod_auth.overlapping_authentication; assumption)+

theorem overlapping_authentication_is_proved_witness:
  "\<exists>req ch pres. decode_auth (demo_auth ''svc'') = Some req \<and> memch_view (vh_challengeStore (demo_dev demo_m1)) (va_ChallengeID req) = Some ch
    \<and> auth_valid demo_prims (mem_view (cl_store demo_m2)) demo_clock ch req pres \<and> pr_DID pres = demo_did"
proof -
  let ?h = "demo_dev demo_m1"
  have a: "authenticates (fst (VerifyAuth demo_prims (shared_did_store memory_did_store) (shared_challenge_store memory_challenge_store)
      demo_clock (among_both [\<lambda>_. cl_store demo_m2] [id, id] ?h) (demo_auth ''svc''))) demo_did"
    using demo_accepts_dev [OF demo_dev_reach(2), of _ "''svc''"]
    by (simp add: overlapping_answer demo_dev_def demo_m1_eq demo_m2_eq mem_view_def)
  have "memch_inv (vh_challengeStore ?h)" "mem_inv (cl_store demo_m2)"
    using dev_reach_inv [OF demo_dev_reach(1)] dev_reach_inv [OF demo_dev_reach(2)] by (simp_all add: dev_auth.hinv_def demo_dev_def)
  then show ?thesis
    using overlapping_authentication_is_proved [of id ?h "\<lambda>_. cl_store demo_m2" demo_prims demo_clock "[]" "[id]" "demo_auth ''svc''" demo_did,
      THEN conjunct1] a by (simp add: demo_dev_def)
qed

section \<open>What is not\<close>

text \<open>
  C36: a revocation can be lost. Let an update and a revocation of the same active DID both be valid.
  When the revocation runs as a whole after the update has read the document for the second time,
  the revocation is answered 200 and the update too, and afterwards the DID is active, under the
  new key: \<open>UpdateDID\<close> writes back the document it has read, with the flag it had then. This
  holds for the memory store and for Postgres.
\<close>

theorem overlapping_update_undoes_revocation:
  "(mem_run P rpc c \<and> update_valid P (mview c) did body req doc key \<and> revoke_valid P (mview c) body2 req2 doc \<and> rev_DID req2 = did \<longrightarrow>
      (\<exists>out c' doc'. DIDHandler_Update P (shared_did_store memory_did_store) clk
            (among [id, id, whole_request P memory_did_store (cl_rpc c) clk2 (OpRevoke body2)] c) did body = (out, c')
        \<and> answers (fst (DIDHandler_Revoke P memory_did_store clk2 c body2)) 200 \<and> answers out 200
        \<and> mem_view (fst (cl_store c')) did = Some doc' \<and> \<not> doc_Deactivated doc' \<and> doc_PublicKeyBase64 doc' = StdEncode key))
   \<and> (pg_run P rpc [] c2 \<and> update_valid P (pview c2) did body req doc key \<and> revoke_valid P (pview c2) body2 req2 doc \<and> rev_DID req2 = did \<longrightarrow>
      (\<exists>out c' doc'. DIDHandler_Update P (shared_did_store postgres_did_store) clk
            (among [id, id, whole_request P postgres_did_store (cl_rpc c2) clk2 (OpRevoke body2)] c2) did body = (out, c')
        \<and> answers (fst (DIDHandler_Revoke P postgres_did_store clk2 c2 body2)) 200 \<and> answers out 200
        \<and> pg_view (fst (cl_store c')) did = Some doc' \<and> \<not> doc_Deactivated doc' \<and> doc_PublicKeyBase64 doc' = StdEncode key))"
proof ((rule conjI; rule impI; elim conjE), goal_cases)
  case 1
  note ok = mem_run_ok [OF 1(1)]
  obtain out c' where u: "DIDHandler_Update P (shared_did_store memory_did_store) clk
            (among [id, id, whole_request P memory_did_store (cl_rpc c) clk2 (OpRevoke body2)] c) did body = (out, c')" by fastforce
  have "answers (fst (DIDHandler_Revoke P memory_did_store clk2 c body2)) 200"
    using mem.Revoke_iff(1) [OF ok surjective_pairing] 1(3) unfolding answers_def by blast
  then show ?case using mem.overlapping_update [OF ok 1(2,3,4) u] u unfolding answers_def by blast
next
  case 2
  note ok = pg_run_quiet [OF 2(1)] pg_run_ok(2) [OF 2(1)]
  obtain out c' where u: "DIDHandler_Update P (shared_did_store postgres_did_store) clk
            (among [id, id, whole_request P postgres_did_store (cl_rpc c2) clk2 (OpRevoke body2)] c2) did body = (out, c')" by fastforce
  have "answers (fst (DIDHandler_Revoke P postgres_did_store clk2 c2 body2)) 200"
    using pgq.Revoke_iff(1) [OF ok surjective_pairing] 2(3) unfolding answers_def by blast
  then show ?case using pgq.overlapping_update [OF ok 2(2,3,4) u] u unfolding answers_def by blast
qed

theorem overlapping_update_undoes_revocation_witness:
  "\<exists>out c' doc'. DIDHandler_Update demo_prims (shared_did_store memory_did_store) demo_clock
        (among [id, id, whole_request demo_prims memory_did_store ''r'' demo_clock (OpRevoke demo_revoke)] demo_m1) demo_did demo_update = (out, c')
     \<and> answers (fst (DIDHandler_Revoke demo_prims memory_did_store demo_clock demo_m1 demo_revoke)) 200 \<and> answers out 200
     \<and> mem_view (fst (cl_store c')) demo_did = Some doc' \<and> \<not> doc_Deactivated doc' \<and> doc_PublicKeyBase64 doc' = StdEncode demo_key2"
proof -
  have "cl_rpc demo_m1 = ''r''" by (simp add: demo_m1_eq)
  moreover have "update_valid demo_prims (mview demo_m1) demo_did demo_update
      \<lparr>upd_DID = [], upd_PublicKeyBase64 = demo_key64_2, upd_Context = [], upd_SignatureBase64 = demo_sig64, upd_Timestamp = ''3''\<rparr> demo_doc demo_key2"
    "revoke_valid demo_prims (mview demo_m1) demo_revoke \<lparr>rev_DID = demo_did, rev_SignatureBase64 = demo_sig64, rev_Timestamp = ''2''\<rparr> demo_doc"
    by (simp_all add: update_valid_def revoke_valid_def)
  ultimately show ?thesis
    using overlapping_update_undoes_revocation [of demo_prims "''r''" demo_m1 demo_did demo_update _ demo_doc demo_key2 demo_revoke _ demo_clock demo_clock]
      demo_runs(1) by fastforce
qed

text \<open>
  C37: a registration can be lost. Let two registrations of the same free DID, under two keys, both be
  valid, and let the second run as a whole after the first has found the DID free. In memory both
  are answered 201, although the key that is registered afterwards is only that of the first: the
  memory store overwrites. In Postgres the primary key protects the second, and the first is
  answered 500.
\<close>

theorem overlapping_registrations:
  "(mem_run P rpc c \<and> register_valid P (mview c) body req key \<and> register_valid P (mview c) body2 req2 key2 \<and> reg_DID req2 = reg_DID req \<longrightarrow>
      (\<exists>out c' doc. DIDHandler_Register P (shared_did_store memory_did_store) clk
            (among [id, whole_request P memory_did_store (cl_rpc c) clk2 (OpRegister body2)] c) body = (out, c')
        \<and> answers (fst (DIDHandler_Register P memory_did_store clk2 c body2)) 201 \<and> answers out 201
        \<and> mem_view (fst (cl_store c')) (reg_DID req) = Some doc \<and> doc_PublicKeyBase64 doc = StdEncode key))
   \<and> (pg_run P rpc [] c2 \<and> register_valid P (pview c2) body req key \<and> register_valid P (pview c2) body2 req2 key2 \<and> reg_DID req2 = reg_DID req \<longrightarrow>
      (\<exists>out c' doc. DIDHandler_Register P (shared_did_store postgres_did_store) clk
            (among [id, whole_request P postgres_did_store (cl_rpc c2) clk2 (OpRegister body2)] c2) body = (out, c')
        \<and> answers (fst (DIDHandler_Register P postgres_did_store clk2 c2 body2)) 201 \<and> answers out 500
        \<and> pg_view (fst (cl_store c')) (reg_DID req) = Some doc \<and> doc_PublicKeyBase64 doc = StdEncode key2))"
proof ((rule conjI; rule impI; elim conjE), goal_cases)
  case 1
  note ok = mem_run_ok(1) [OF 1(1)]
  obtain out c' where u: "DIDHandler_Register P (shared_did_store memory_did_store) clk
            (among [id, whole_request P memory_did_store (cl_rpc c) clk2 (OpRegister body2)] c) body = (out, c')" by fastforce
  have "answers (fst (DIDHandler_Register P memory_did_store clk2 c body2)) 201"
    using mem.Register_iff(1) [OF ok surjective_pairing] 1(3) unfolding answers_def by blast
  then show ?case using memory_overlapping_register [OF ok 1(2,3,4) u] u unfolding answers_def by blast
next
  case 2
  note ok = pg_run_quiet [OF 2(1)] pg_run_ok(2) [OF 2(1)]
  obtain out c' where u: "DIDHandler_Register P (shared_did_store postgres_did_store) clk
            (among [id, whole_request P postgres_did_store (cl_rpc c2) clk2 (OpRegister body2)] c2) body = (out, c')" by fastforce
  have "answers (fst (DIDHandler_Register P postgres_did_store clk2 c2 body2)) 201"
    using pgq.Register_iff(1) [OF ok(1) surjective_pairing] 2(3) unfolding answers_def by blast
  then show ?case using postgres_overlapping_register [OF ok 2(2,3,4) u] u unfolding answers_def by blast
qed

definition demo_register2 :: "json option" where
  "demo_register2 = Some (JObject
     [(''did'', JString demo_did), (''publicKeyBase64'', JString demo_key64_2),
      (''signatureBase64'', JString demo_sig64_2), (''timestamp'', JString ''1'')])"

theorem overlapping_registrations_witness:
  "\<exists>out c' doc. DIDHandler_Register demo_prims (shared_did_store memory_did_store) demo_clock
        (among [id, whole_request demo_prims memory_did_store ''r'' demo_clock (OpRegister demo_register2)] (NewClient ''r'')) demo_register = (out, c')
     \<and> answers (fst (DIDHandler_Register demo_prims memory_did_store demo_clock (NewClient ''r'') demo_register2)) 201 \<and> answers out 201
     \<and> mem_view (fst (cl_store c')) demo_did = Some doc \<and> doc_PublicKeyBase64 doc = StdEncode demo_key"
proof -
  let ?r = "\<lambda>k s. \<lparr>reg_DID = demo_did, reg_PublicKeyBase64 = k, reg_SignatureBase64 = s, reg_Timestamp = ''1''\<rparr>"
  have "decode_register demo_register2 = Some (?r demo_key64_2 demo_sig64_2)"
    by (simp add: decode_register_def demo_register2_def Decode_def decode_struct_def field_for_def
        RegisterDIDRequest_fields_def go_defs)
  then have "register_valid demo_prims (mview (NewClient ''r'')) demo_register (?r demo_key64 demo_sig64) demo_key"
    "register_valid demo_prims (mview (NewClient ''r'')) demo_register2 (?r demo_key64_2 demo_sig64_2) demo_key2"
    by (simp_all add: register_valid_def NewClient_def NewClientWithStore_def NewMemoryDIDStore_def mem_view_def)
  moreover have "mem_run demo_prims ''r'' (NewClient ''r'')" by (simp add: mem_run_def did_reach.start)
  moreover have "cl_rpc (NewClient ''r'') = ''r''" by (simp add: NewClient_def NewClientWithStore_def)
  ultimately show ?thesis
    using overlapping_registrations [of demo_prims "''r''" "NewClient ''r''" demo_register "?r demo_key64 demo_sig64" demo_key
        demo_register2 "?r demo_key64_2 demo_sig64_2" demo_key2 demo_clock demo_clock] by fastforce
qed

text \<open>
  C38: a challenge can be redeemed twice. Let two requests name the same challenge, the same request
  sent twice for instance, and let each be accepted on its own. One after the other, the second is
  refused. But both are accepted if the second runs as a whole after the first has read the
  challenge: \<open>VerifyAuth\<close> decides by what it has read, and does not look at the result of the
  deletion. So it is in memory, and with Postgres and Redis even while they answer everything.
\<close>

theorem overlapping_redemptions:
  assumes "decode_auth body = Some req" "decode_auth body2 = Some req2" "va_ChallengeID req2 = va_ChallengeID req"
  shows "(dev_reach P rpc h
      \<and> authenticates (fst (dev_VerifyAuth P clk h body)) d \<and> authenticates (fst (dev_VerifyAuth P clk2 h body2)) d2 \<longrightarrow>
      (let read = snd (cs_Get memory_challenge_store (clk 0) (vh_challengeStore h) (va_ChallengeID req));
           second = dev_VerifyAuth P clk2 (h\<lparr>vh_challengeStore := read\<rparr>) body2;
           first = VerifyAuth P memory_did_store (shared_challenge_store memory_challenge_store) clk
             (among_auth [id, \<lambda>_. vh_challengeStore (snd second)] h) body
       in authenticates (fst first) d \<and> authenticates (fst second) d2)
      \<and> \<not> authenticates (fst (dev_VerifyAuth P clk2 (snd (dev_VerifyAuth P clk h body)) body2)) d2)
   \<and> (prod_reach P rpc [] [] g
      \<and> authenticates (fst (prod_VerifyAuth P clk g body)) d \<and> authenticates (fst (prod_VerifyAuth P clk2 g body2)) d2 \<longrightarrow>
      (let read = snd (cs_Get redis_challenge_store (clk 0) (vh_challengeStore g) (va_ChallengeID req));
           second = prod_VerifyAuth P clk2 (g\<lparr>vh_challengeStore := read\<rparr>) body2;
           first = VerifyAuth P postgres_did_store (shared_challenge_store redis_challenge_store) clk
             (among_auth [id, \<lambda>_. vh_challengeStore (snd second)] g) body
       in authenticates (fst first) d \<and> authenticates (fst second) d2)
      \<and> \<not> authenticates (fst (prod_VerifyAuth P clk2 (snd (prod_VerifyAuth P clk g body)) body2)) d2)"
proof ((rule conjI; rule impI; elim conjE), goal_cases)
  case 1
  have "snd (cs_Get memory_challenge_store (clk 0) (vh_challengeStore h) (va_ChallengeID req)) = vh_challengeStore h"
    by (simp add: memory_challenge_store_def MemoryChallengeStore_Get_def split: option.split)
  moreover have "\<not> authenticates (fst (dev_VerifyAuth P clk2 (snd (dev_VerifyAuth P clk h body)) body2)) d2"
    by (rule dev_auth.accepted_once [OF dev_reach_inv [OF 1(1)] surjective_pairing 1(2) assms auth_reach.start surjective_pairing])
  ultimately show ?case using 1(2,3) by (simp add: overlapping_redemption)
next
  case 2
  have "rd_faults (vh_challengeStore g) = []"
    using prod_consuming_inv [OF 2(1)] by (simp add: prod_consuming.hinv_def redis_quiet_def)
  then have "snd (cs_Get redis_challenge_store (clk 0) (vh_challengeStore g) (va_ChallengeID req)) = vh_challengeStore g"
    using redis_quiet_ops(2) [OF _ surjective_pairing] by blast
  moreover have "\<not> authenticates (fst (prod_VerifyAuth P clk2 (snd (prod_VerifyAuth P clk g body)) body2)) d2"
    by (rule prod_consuming.accepted_once [OF prod_consuming_inv [OF 2(1)] surjective_pairing 2(2) assms auth_reach.start surjective_pairing])
  ultimately show ?case using 2(2,3) by (simp add: overlapping_redemption)
qed

text \<open>The same presentation, sent twice.\<close>

theorem overlapping_redemptions_witness:
  "let read = snd (cs_Get memory_challenge_store (demo_clock 0) (vh_challengeStore (demo_dev demo_m1)) demo_id);
       second = dev_VerifyAuth demo_prims demo_clock ((demo_dev demo_m1)\<lparr>vh_challengeStore := read\<rparr>) (demo_auth ''svc'');
       first = VerifyAuth demo_prims memory_did_store (shared_challenge_store memory_challenge_store) demo_clock
         (among_auth [id, \<lambda>_. vh_challengeStore (snd second)] (demo_dev demo_m1)) (demo_auth ''svc'')
   in authenticates (fst first) demo_did \<and> authenticates (fst second) demo_did"
  using overlapping_redemptions [OF demo_decode_auth demo_decode_auth, of "''svc''" "''svc''" demo_prims "''r''" "demo_dev demo_m1" demo_clock
      demo_did demo_clock demo_did, THEN conjunct1] demo_accepts_dev [of demo_m1 demo_doc "''svc''"]
  by simp

end
