(* ===== verification/Migrations.thy ===== *)
theory Migrations
  imports DidStore
begin

text \<open>
  \<open>internal/storage/migrations.go\<close>: the schema, the migrations and how they are applied. The database
  is its catalog of relations and the rows of \<open>schema_migrations\<close>. A statement of the migrations is
  one of two forms of DDL, with the effect Postgres documents. The connection is outside the
  repository: a script says, statement by statement, whether it fails before or after its effect,
  and whether another gateway has just committed a migration, since every gateway that starts runs
  the same code on the same database.
\<close>

section \<open>The catalog\<close>

datatype sql_type = TEXT | JSONB | BOOLEAN | INTEGER

datatype sql_constraint = PRIMARY_KEY | NOT_NULL | DEFAULT_FALSE

type_synonym sql_column = "string \<times> sql_type \<times> sql_constraint list"

datatype relation = Table "sql_column list" | Index string string

datatype ddl =
    CreateTableIfNotExists string "sql_column list"
  | CreateIndexIfNotExists string string string

abbreviation undefined_table :: error where "undefined_table \<equiv> ErrSQLState ''42P01''"
abbreviation undefined_column :: error where "undefined_column \<equiv> ErrSQLState ''42703''"

fun exec_ddl :: "ddl \<Rightarrow> relation gomap \<Rightarrow> error + relation gomap" where
  "exec_ddl (CreateTableIfNotExists t cols) c =
     (if gm_get c t \<noteq> None then Inr c else Inr (gm_set t (Table cols) c))"
| "exec_ddl (CreateIndexIfNotExists i t col) c =
     (if gm_get c i \<noteq> None then Inr c
      else case gm_get c t of
        Some (Table cols) \<Rightarrow> if col \<in> fst ` set cols then Inr (gm_set i (Index t col) c) else Inl undefined_column
      | _ \<Rightarrow> Inl undefined_table)"

fun exec_ddls :: "ddl list \<Rightarrow> relation gomap \<Rightarrow> error + relation gomap" where
  "exec_ddls [] c = Inr c"
| "exec_ddls (d # ds) c = (case exec_ddl d c of Inl e \<Rightarrow> Inl e | Inr c \<Rightarrow> exec_ddls ds c)"

section \<open>The migrations\<close>

record Migration =
  mg_Version :: nat
  mg_Name :: string
  mg_SQL :: "ddl list"

definition dids_columns :: "sql_column list" where
  "dids_columns =
     [(''did'', TEXT, [PRIMARY_KEY]), (''context'', JSONB, [NOT_NULL]), (''public_key_base64'', TEXT, [NOT_NULL]),
      (''created'', TEXT, [NOT_NULL]), (''updated'', TEXT, [NOT_NULL]),
      (''deactivated'', BOOLEAN, [NOT_NULL, DEFAULT_FALSE])]"

definition api_keys_columns :: "sql_column list" where
  "api_keys_columns =
     [(''service_id'', TEXT, [PRIMARY_KEY]), (''service_name'', TEXT, [NOT_NULL]), (''api_key_hash'', TEXT, [NOT_NULL]),
      (''created_at'', TEXT, [NOT_NULL]), (''revoked_at'', TEXT, [])]"

definition credentials_columns :: "sql_column list" where
  "credentials_columns =
     [(''id'', TEXT, [PRIMARY_KEY]), (''issuer_did'', TEXT, [NOT_NULL]), (''subject_did'', TEXT, [NOT_NULL]),
      (''types'', JSONB, [NOT_NULL]), (''credential'', JSONB, [NOT_NULL]), (''issuance_date'', TEXT, [NOT_NULL]),
      (''expiration_date'', TEXT, []), (''created_at'', TEXT, [NOT_NULL]), (''revoked_at'', TEXT, []),
      (''revocation_reason'', TEXT, [])]"

definition Migrations :: "Migration list" where
  "Migrations =
     [\<lparr>mg_Version = 1, mg_Name = ''create_dids'', mg_SQL = [CreateTableIfNotExists ''dids'' dids_columns]\<rparr>,
      \<lparr>mg_Version = 2, mg_Name = ''create_api_keys'', mg_SQL = [CreateTableIfNotExists ''api_keys'' api_keys_columns]\<rparr>,
      \<lparr>mg_Version = 3, mg_Name = ''create_credentials'', mg_SQL =
         [CreateTableIfNotExists ''credentials'' credentials_columns,
          CreateIndexIfNotExists ''credentials_subject_did_idx'' ''credentials'' ''subject_did'',
          CreateIndexIfNotExists ''credentials_issuer_did_idx'' ''credentials'' ''issuer_did'']\<rparr>]"

definition schema_migrations_columns :: "sql_column list" where
  "schema_migrations_columns =
     [(''version'', INTEGER, [PRIMARY_KEY]), (''name'', TEXT, [NOT_NULL]), (''applied_at'', TEXT, [NOT_NULL])]"

section \<open>The database\<close>

datatype pg_event = Quiet | FailsBefore | FailsAfter | OtherApplies nat string

type_synonym migration_row = "nat \<times> string \<times> string"

record pgdb =
  pg_catalog :: "relation gomap"
  pg_versions :: "migration_row list"
  pg_script :: "pg_event list"

abbreviation versions :: "pgdb \<Rightarrow> nat set" where
  "versions db \<equiv> fst ` set (pg_versions db)"

text \<open>
  Another gateway commits the migration \<open>v\<close> as a whole, unless it is recorded; when this gateway
  has inserted the same version in an open transaction, the other one waits for its end.
\<close>

definition other_applies :: "nat set \<Rightarrow> nat \<Rightarrow> string \<Rightarrow> pgdb \<Rightarrow> pgdb" where
  "other_applies pending v at db =
     (case find (\<lambda>m. mg_Version m = v) Migrations of
        None \<Rightarrow> db
      | Some m \<Rightarrow>
          if v \<in> pending \<or> v \<in> versions db then db
          else (case exec_ddls (CreateTableIfNotExists ''schema_migrations'' schema_migrations_columns # mg_SQL m)
                  (pg_catalog db) of
             Inl _ \<Rightarrow> db
           | Inr c \<Rightarrow> db\<lparr>pg_catalog := c, pg_versions := (v, mg_Name m, at) # pg_versions db\<rparr>))"

text \<open>The next statement: what happens to it, and the database it sees.\<close>

definition next_statement :: "nat set \<Rightarrow> pgdb \<Rightarrow> pg_event \<times> pgdb" where
  "next_statement pending db =
     (case pg_script db of
        [] \<Rightarrow> (Quiet, db)
      | ev # evs \<Rightarrow>
          let db = db\<lparr>pg_script := evs\<rparr> in
          (ev, case ev of OtherApplies v at \<Rightarrow> other_applies pending v at db | _ \<Rightarrow> db))"

definition fails :: "pg_event \<Rightarrow> bool" where
  "fails ev \<longleftrightarrow> ev = FailsBefore \<or> ev = FailsAfter"

text \<open>A statement outside a transaction, and the query of \<open>migrationApplied\<close>.\<close>

definition exec_auto :: "ddl \<Rightarrow> pgdb \<Rightarrow> (error + unit) \<times> pgdb" where
  "exec_auto d db =
     (let (ev, db) = next_statement {} db in
      if ev = FailsBefore then (Inl ErrDB, db)
      else case exec_ddl d (pg_catalog db) of
        Inl e \<Rightarrow> (Inl e, db)
      | Inr c \<Rightarrow> (if ev = FailsAfter then Inl ErrDB else Inr (), db\<lparr>pg_catalog := c\<rparr>))"

definition migrationApplied :: "pgdb \<Rightarrow> nat \<Rightarrow> (error + bool) \<times> pgdb" where
  "migrationApplied db version =
     (let (ev, db) = next_statement {} db in
      (if fails ev then Inl ErrDB
       else if gm_get (pg_catalog db) ''schema_migrations'' = None then Inl undefined_table
       else Inr (version \<in> versions db), db))"

text \<open>A transaction holds what it has done until it commits; a failed statement aborts it.\<close>

record pgtx =
  tx_ddl :: "ddl list"
  tx_rows :: "migration_row list"

definition BeginTx :: "pgdb \<Rightarrow> (error + pgtx) \<times> pgdb" where
  "BeginTx db =
     (let (ev, db) = next_statement {} db in
      (if fails ev then Inl ErrDB else Inr \<lparr>tx_ddl = [], tx_rows = []\<rparr>, db))"

definition TxExec :: "ddl list \<Rightarrow> pgtx \<Rightarrow> pgdb \<Rightarrow> (error + pgtx) \<times> pgdb" where
  "TxExec sql tx db =
     (let (ev, db) = next_statement (fst ` set (tx_rows tx)) db in
      (if fails ev then Inl ErrDB
       else case exec_ddls (tx_ddl tx @ sql) (pg_catalog db) of
         Inl e \<Rightarrow> Inl e
       | Inr _ \<Rightarrow> Inr (tx\<lparr>tx_ddl := tx_ddl tx @ sql\<rparr>), db))"

definition TxInsert :: "migration_row \<Rightarrow> pgtx \<Rightarrow> pgdb \<Rightarrow> (error + pgtx) \<times> pgdb" where
  "TxInsert row tx db =
     (let (ev, db) = next_statement (fst ` set (tx_rows tx)) db in
      (if fails ev then Inl ErrDB
       else if gm_get (pg_catalog db) ''schema_migrations'' = None then Inl undefined_table
       else if fst row \<in> versions db \<or> fst row \<in> fst ` set (tx_rows tx) then Inl (ErrSQLState unique_violation)
       else Inr (tx\<lparr>tx_rows := row # tx_rows tx\<rparr>), db))"

definition TxCommit :: "pgtx \<Rightarrow> pgdb \<Rightarrow> (error + unit) \<times> pgdb" where
  "TxCommit tx db =
     (let (ev, db) = next_statement (fst ` set (tx_rows tx)) db in
      if ev = FailsBefore then (Inl ErrDB, db)
      else case exec_ddls (tx_ddl tx) (pg_catalog db) of
        Inl e \<Rightarrow> (Inl e, db)
      | Inr c \<Rightarrow> (if ev = FailsAfter then Inl ErrDB else Inr (),
                 db\<lparr>pg_catalog := c, pg_versions := tx_rows tx @ pg_versions db\<rparr>))"

text \<open>What an aborted or abandoned transaction did is gone.\<close>

definition TxRollback :: "pgtx \<Rightarrow> pgdb \<Rightarrow> pgdb" where
  "TxRollback tx db = db"

section \<open>Applying them\<close>

text \<open>
  The deferred function rolls back when \<open>err\<close> is not nil, also after the unique violation for which
  nil is returned. An error wrapped with \<open>%w\<close> is the same to \<open>errors.Is\<close> and \<open>errors.As\<close>; the text it
  adds only shows in the log.
\<close>

definition applyMigration :: "time \<Rightarrow> pgdb \<Rightarrow> Migration \<Rightarrow> (error + unit) \<times> pgdb" where
  "applyMigration now db migration =
     (case BeginTx db of
        (Inl err, db) \<Rightarrow> (Inl err, db)
      | (Inr tx, db) \<Rightarrow>
        (case TxExec (mg_SQL migration) tx db of
           (Inl err, db) \<Rightarrow> (Inl err, TxRollback tx db)
         | (Inr tx, db) \<Rightarrow>
           (case TxInsert (mg_Version migration, mg_Name migration, FormatRFC3339 now) tx db of
              (Inl err, db) \<Rightarrow> (if isUniqueViolation err then Inr () else Inl err, TxRollback tx db)
            | (Inr tx, db) \<Rightarrow> TxCommit tx db)))"

fun migrate_loop :: "clock \<Rightarrow> Migration list \<Rightarrow> pgdb \<Rightarrow> (error + unit) \<times> pgdb" where
  "migrate_loop clk [] db = (Inr (), db)"
| "migrate_loop clk (migration # migrations) db =
     (case migrationApplied db (mg_Version migration) of
        (Inl err, db) \<Rightarrow> (Inl err, db)
      | (Inr applied, db) \<Rightarrow>
          if applied then migrate_loop clk migrations db
          else (case applyMigration (clk (mg_Version migration)) db migration of
             (Inl err, db) \<Rightarrow> (Inl err, db)
           | (Inr _, db) \<Rightarrow> migrate_loop clk migrations db))"

definition Migrate :: "clock \<Rightarrow> pgdb \<Rightarrow> (error + unit) \<times> pgdb" where
  "Migrate clk db =
     (case exec_auto (CreateTableIfNotExists ''schema_migrations'' schema_migrations_columns) db of
        (Inl err, db) \<Rightarrow> (Inl err, db)
      | (Inr _, db) \<Rightarrow> migrate_loop clk Migrations db)"

text \<open>
  \<open>sql.Open\<close> and the ping are the driver's; their errors are arguments. The pool that is closed after
  an error takes nothing with it.
\<close>

definition OpenPostgres :: "clock \<Rightarrow> error option \<Rightarrow> error option \<Rightarrow> pgdb \<Rightarrow> (error + unit) \<times> pgdb" where
  "OpenPostgres clk open_err ping_err db =
     (case open_err of
        Some err \<Rightarrow> (Inl err, db)
      | None \<Rightarrow>
        (case ping_err of
           Some err \<Rightarrow> (Inl err, db)
         | None \<Rightarrow> Migrate clk db))"

end
