(* ===== verification/Schema.thy ===== *)
theory Schema
  imports Migrations
begin

text \<open>
  What the migrations do to a database on which other gateways run them too and on which every
  statement may fail: the catalog is at every moment the schema of the recorded versions, a run
  that answers nil leaves it complete, a run without failures answers nil, and a complete database
  is left as it is.
\<close>

section \<open>The schema of a set of versions\<close>

fun relation_of :: "ddl \<Rightarrow> string \<times> relation" where
  "relation_of (CreateTableIfNotExists t cols) = (t, Table cols)"
| "relation_of (CreateIndexIfNotExists i t col) = (i, Index t col)"

text \<open>
  The catalog of a database on which exactly the recorded migrations have been applied: every
  relation of a recorded one with its definition, none of the others, and nothing else.
\<close>

definition schema :: "nat set \<Rightarrow> string \<Rightarrow> relation option" where
  "schema V n = map_of (concat (map (\<lambda>m. if mg_Version m \<in> V then map relation_of (mg_SQL m) else []) Migrations)) n"

definition schema_table :: "string \<times> relation" where
  "schema_table = (''schema_migrations'', Table schema_migrations_columns)"

definition schema_ok :: "pgdb \<Rightarrow> bool" where
  "schema_ok db \<longleftrightarrow>
     distinct (map fst (pg_versions db))
     \<and> (\<forall>(v, n, at) \<in> set (pg_versions db). \<exists>m \<in> set Migrations. mg_Version m = v \<and> mg_Name m = n)
     \<and> gm_get (pg_catalog db) ''schema_migrations'' \<in> {None, Some (snd schema_table)}
     \<and> (versions db \<noteq> {} \<longrightarrow> gm_get (pg_catalog db) ''schema_migrations'' \<noteq> None)
     \<and> (\<forall>n. n \<noteq> ''schema_migrations'' \<longrightarrow> gm_get (pg_catalog db) n = schema (versions db) n)"

text \<open>The statements of a migration on a catalog that has all of its relations, or none.\<close>

lemma exec_ddls_append:
  "exec_ddls (ds @ es) c = (case exec_ddls ds c of Inl e \<Rightarrow> Inl e | Inr c \<Rightarrow> exec_ddls es c)"
  by (induction ds arbitrary: c) (auto split: sum.split)

lemma Migrations_cases:
  assumes "m \<in> set Migrations"
  obtains "mg_Version m = 1" "mg_SQL m = [CreateTableIfNotExists ''dids'' dids_columns]"
  | "mg_Version m = 2" "mg_SQL m = [CreateTableIfNotExists ''api_keys'' api_keys_columns]"
  | "mg_Version m = 3" "mg_SQL m = [CreateTableIfNotExists ''credentials'' credentials_columns,
          CreateIndexIfNotExists ''credentials_subject_did_idx'' ''credentials'' ''subject_did'',
          CreateIndexIfNotExists ''credentials_issuer_did_idx'' ''credentials'' ''issuer_did'']"
  using assms by (auto simp: Migrations_def)

lemma schema_simps:
  "schema V n =
     (if n = ''dids'' \<and> 1 \<in> V then Some (Table dids_columns)
      else if n = ''api_keys'' \<and> 2 \<in> V then Some (Table api_keys_columns)
      else if n = ''credentials'' \<and> 3 \<in> V then Some (Table credentials_columns)
      else if n = ''credentials_subject_did_idx'' \<and> 3 \<in> V then Some (Index ''credentials'' ''subject_did'')
      else if n = ''credentials_issuer_did_idx'' \<and> 3 \<in> V then Some (Index ''credentials'' ''issuer_did'')
      else None)"
  by (simp add: schema_def Migrations_def)

lemma exec_migration:
  assumes m: "m \<in> set Migrations" and c: "\<And>n. n \<noteq> ''schema_migrations'' \<Longrightarrow> gm_get c n = schema V n"
  shows "\<exists>c'. exec_ddls (mg_SQL m) c = Inr c' \<and> gm_get c' ''schema_migrations'' = gm_get c ''schema_migrations''
    \<and> (\<forall>n. n \<noteq> ''schema_migrations'' \<longrightarrow> gm_get c' n = schema (insert (mg_Version m) V) n)"
  using m
proof (cases rule: Migrations_cases)
  case 1
  then show ?thesis using c by (auto simp: schema_simps)
next
  case 2
  then show ?thesis using c by (auto simp: schema_simps)
next
  case 3
  have "''subject_did'' \<in> fst ` set credentials_columns" "''issuer_did'' \<in> fst ` set credentials_columns"
    by (simp_all add: credentials_columns_def)
  then show ?thesis using 3 c by (auto simp: schema_simps)
qed

lemma find_migration:
  "find (\<lambda>m. mg_Version m = v) Migrations = Some m \<Longrightarrow> m \<in> set Migrations \<and> mg_Version m = v"
  by (auto simp: find_Some_iff)

section \<open>Every step keeps the schema\<close>

abbreviation has_table :: "pgdb \<Rightarrow> bool" where
  "has_table db \<equiv> gm_get (pg_catalog db) ''schema_migrations'' \<noteq> None"

definition later :: "pgdb \<Rightarrow> pgdb \<Rightarrow> bool" where
  "later db db' \<longleftrightarrow> (schema_ok db \<longrightarrow> schema_ok db') \<and> versions db \<subseteq> versions db' \<and> (has_table db \<longrightarrow> has_table db')"

lemma later_refl [simp]: "later db db"
  by (simp add: later_def)

lemma later_trans [trans]: "later a b \<Longrightarrow> later b c \<Longrightarrow> later a c"
  by (auto simp: later_def)

lemma create_table_ok:
  assumes "schema_ok db"
    and "exec_ddl (CreateTableIfNotExists ''schema_migrations'' schema_migrations_columns) (pg_catalog db) = Inr c"
  shows "schema_ok (db\<lparr>pg_catalog := c\<rparr>)" "has_table (db\<lparr>pg_catalog := c\<rparr>)"
  using assms by (auto simp: schema_ok_def schema_table_def split: if_splits)

lemma apply_ok:
  assumes ok: "schema_ok db" "has_table db" and m: "m \<in> set Migrations" "mg_Version m \<notin> versions db"
    and c: "exec_ddls (mg_SQL m) (pg_catalog db) = Inr c"
  shows "schema_ok (db\<lparr>pg_catalog := c, pg_versions := (mg_Version m, mg_Name m, at) # pg_versions db\<rparr>)"
proof -
  have "\<And>n. n \<noteq> ''schema_migrations'' \<Longrightarrow> gm_get (pg_catalog db) n = schema (versions db) n"
    using ok by (simp add: schema_ok_def)
  from exec_migration [OF m(1) this] c
  have "gm_get c ''schema_migrations'' = gm_get (pg_catalog db) ''schema_migrations''"
    "\<forall>n. n \<noteq> ''schema_migrations'' \<longrightarrow> gm_get c n = schema (insert (mg_Version m) (versions db)) n"
    by auto
  then show ?thesis using ok m by (auto simp: schema_ok_def)
qed

lemma migration_runs:
  "schema_ok db \<Longrightarrow> m \<in> set Migrations \<Longrightarrow> \<exists>c. exec_ddls (mg_SQL m) (pg_catalog db) = Inr c"
  using exec_migration [of m "pg_catalog db" "versions db"] by (auto simp: schema_ok_def)

lemma other_applies_cases:
  assumes "other_applies P v at db = db'"
  obtains "db' = db"
  | m c c' where "m \<in> set Migrations" "mg_Version m = v" "v \<notin> versions db" "v \<notin> P"
      "exec_ddl (CreateTableIfNotExists ''schema_migrations'' schema_migrations_columns) (pg_catalog db) = Inr c"
      "exec_ddls (mg_SQL m) c = Inr c'"
      "db' = db\<lparr>pg_catalog := c', pg_versions := (v, mg_Name m, at) # pg_versions db\<rparr>"
proof (cases "find (\<lambda>m. mg_Version m = v) Migrations")
  case None
  then show ?thesis using assms that(1) by (simp add: other_applies_def)
next
  case (Some m)
  note m = find_migration [OF Some]
  let ?create = "exec_ddl (CreateTableIfNotExists ''schema_migrations'' schema_migrations_columns) (pg_catalog db)"
  show ?thesis
  proof (cases "v \<in> P \<or> v \<in> versions db")
    case True
    then show ?thesis using assms Some that(1) by (auto simp: other_applies_def)
  next
    case False
    then have nin: "v \<notin> P" "v \<notin> versions db" by auto
    show ?thesis
    proof (cases ?create)
      case (Inl e)
      then show ?thesis using assms Some nin that(1) by (simp add: other_applies_def del: exec_ddl.simps)
    next
      case (Inr c)
      show ?thesis
      proof (cases "exec_ddls (mg_SQL m) c")
        case (Inl e)
        then show ?thesis using assms Some nin Inr that(1) by (simp add: other_applies_def del: exec_ddl.simps)
      next
        case c': (Inr c')
        have "db' = db\<lparr>pg_catalog := c', pg_versions := (v, mg_Name m, at) # pg_versions db\<rparr>"
          using assms Some nin Inr c' by (simp add: other_applies_def del: exec_ddl.simps)
        then show ?thesis using that(2) m nin Inr c' by blast
      qed
    qed
  qed
qed

lemma other_applies_later: "later db (other_applies P v at db)"
proof (cases rule: other_applies_cases [OF refl, of P v at db])
  case (2 m c c')
  have "schema_ok (other_applies P v at db)" if ok: "schema_ok db"
  proof -
    note t = create_table_ok [OF ok 2(5)]
    have "schema_ok (db\<lparr>pg_catalog := c\<rparr>\<lparr>pg_catalog := c', pg_versions := (mg_Version m, mg_Name m, at)
        # pg_versions (db\<lparr>pg_catalog := c\<rparr>)\<rparr>)"
      by (rule apply_ok [OF t 2(1)]) (use 2 in auto)
    then show ?thesis using 2 by simp
  qed
  moreover have "gm_get c' ''schema_migrations'' \<noteq> None"
  proof -
    have "gm_get c ''schema_migrations'' \<noteq> None" using 2(5) by (auto split: if_splits)
    then show ?thesis using 2(6)
      by (cases rule: Migrations_cases [OF 2(1)]) (auto split: if_splits sum.splits option.splits relation.splits)
  qed
  ultimately show ?thesis using 2(7) by (auto simp: later_def)
qed simp

lemma other_applies_pending: "versions (other_applies P v at db) \<inter> P = versions db \<inter> P"
  by (cases rule: other_applies_cases [OF refl, of P v at db]) auto

lemma next_statement_later:
  assumes "next_statement P db = (ev, db')"
  shows "later db db'" "versions db' \<inter> P = versions db \<inter> P"
proof -
  have s: "later db (db\<lparr>pg_script := x\<rparr>)" for x
    by (simp add: later_def schema_ok_def)
  show "later db db'"
    using assms later_trans [OF s other_applies_later] s
    by (auto simp: next_statement_def Let_def split: list.splits pg_event.splits)
  show "versions db' \<inter> P = versions db \<inter> P"
  proof (cases "pg_script db")
    case Nil
    then show ?thesis using assms by (simp add: next_statement_def)
  next
    case (Cons e es)
    then show ?thesis using assms other_applies_pending [of P _ _ "db\<lparr>pg_script := es\<rparr>"]
      by (cases e) (simp_all add: next_statement_def Let_def, (elim conjE, hypsubst, simp)+)
  qed
qed

section \<open>A run of the migrations\<close>

lemma exec_auto_law:
  assumes "exec_auto (CreateTableIfNotExists ''schema_migrations'' schema_migrations_columns) db = (r, db')"
  shows "later db db'" "r = Inr () \<Longrightarrow> has_table db'"
proof -
  obtain ev db1 where s: "next_statement {} db = (ev, db1)" by fastforce
  obtain c where c: "exec_ddl (CreateTableIfNotExists ''schema_migrations'' schema_migrations_columns) (pg_catalog db1) = Inr c"
    "gm_get c ''schema_migrations'' \<noteq> None"
    by (cases "gm_get (pg_catalog db1) ''schema_migrations''") auto
  have db': "db' = db1 \<or> db' = db1\<lparr>pg_catalog := c\<rparr>" "r = Inr () \<Longrightarrow> db' = db1\<lparr>pg_catalog := c\<rparr>"
    using assms s c by (auto simp: exec_auto_def Let_def simp del: exec_ddl.simps split: if_splits)
  have "later db1 (db1\<lparr>pg_catalog := c\<rparr>)"
    using create_table_ok(1) [OF _ c(1)] c(2) by (auto simp: later_def)
  then show "later db db'" using db' next_statement_later(1) [OF s] later_trans by blast
  show "r = Inr () \<Longrightarrow> has_table db'" using db' c by auto
qed

lemma migrationApplied_law:
  assumes "migrationApplied db v = (r, db')"
  shows "later db db'" "r = Inr b \<Longrightarrow> b \<longleftrightarrow> v \<in> versions db'"
  using assms next_statement_later(1) [of "{}" db]
  by (auto simp: migrationApplied_def Let_def split: prod.splits if_splits)

text \<open>
  A migration is applied as a whole or not at all: nothing changes before the commit, and at the
  commit the version is still free, as an insert of the same version waits for this transaction.
\<close>

lemma TxCommit_law:
  assumes m: "m \<in> set Migrations" and ok: "schema_ok db" "has_table db" and nin: "mg_Version m \<notin> versions db"
    and commit: "TxCommit \<lparr>tx_ddl = mg_SQL m, tx_rows = [(mg_Version m, mg_Name m, at)]\<rparr> db = (r, db')"
  shows "later db db'" "r = Inr () \<Longrightarrow> mg_Version m \<in> versions db'"
proof -
  obtain ev db1 where s: "next_statement {mg_Version m} db = (ev, db1)" by fastforce
  note l = next_statement_later [OF s]
  have ok1: "schema_ok db1" "has_table db1" "mg_Version m \<notin> versions db1"
    using l ok nin by (auto simp: later_def)
  obtain c where c: "exec_ddls (mg_SQL m) (pg_catalog db1) = Inr c" using migration_runs [OF ok1(1) m] by blast
  let ?db = "db1\<lparr>pg_catalog := c, pg_versions := (mg_Version m, mg_Name m, at) # pg_versions db1\<rparr>"
  have db': "db' = db1 \<or> db' = ?db" "r = Inr () \<Longrightarrow> db' = ?db"
    using commit s c by (auto simp: TxCommit_def Let_def split: if_splits)
  have "schema_ok ?db" using apply_ok [OF ok1(1,2) m ok1(3) c] .
  then have "later db1 ?db" by (auto simp: later_def schema_ok_def)
  then show "later db db'" using db' l(1) later_trans by blast
  show "r = Inr () \<Longrightarrow> mg_Version m \<in> versions db'" using db' by auto
qed

lemma BeginTx_law: "BeginTx db = (r, db') \<Longrightarrow> later db db' \<and> (\<forall>tx. r = Inr tx \<longrightarrow> tx = \<lparr>tx_ddl = [], tx_rows = []\<rparr>)"
  using next_statement_later(1) [of "{}" db] by (auto simp: BeginTx_def Let_def split: prod.splits if_splits)

lemma TxExec_law:
  "TxExec sql tx db = (r, db') \<Longrightarrow> later db db' \<and> (\<forall>tx'. r = Inr tx' \<longrightarrow> tx' = tx\<lparr>tx_ddl := tx_ddl tx @ sql\<rparr>)"
  using next_statement_later(1) [of _ db]
  by (auto simp: TxExec_def Let_def split: prod.splits if_splits sum.splits)

lemma TxInsert_law:
  "TxInsert row tx db = (r, db') \<Longrightarrow> tx_rows tx = [] \<Longrightarrow> later db db'
     \<and> (\<forall>e. r = Inl e \<longrightarrow> isUniqueViolation e \<longrightarrow> fst row \<in> versions db')
     \<and> (\<forall>tx'. r = Inr tx' \<longrightarrow> tx' = tx\<lparr>tx_rows := [row]\<rparr> \<and> fst row \<notin> versions db')"
  using next_statement_later(1) [of _ db]
  by (auto simp: TxInsert_def Let_def isUniqueViolation_def split: prod.splits if_splits)

lemma applyMigration_law:
  assumes m: "m \<in> set Migrations" and ok: "schema_ok db" "has_table db" and a: "applyMigration now db m = (r, db')"
  shows "later db db' \<and> (r = Inr () \<longrightarrow> mg_Version m \<in> versions db')"
proof -
  let ?row = "(mg_Version m, mg_Name m, FormatRFC3339 now)"
  let ?tx1 = "\<lparr>tx_ddl = [], tx_rows = []\<rparr> :: pgtx" and ?tx2 = "\<lparr>tx_ddl = mg_SQL m, tx_rows = []\<rparr> :: pgtx"
    and ?tx3 = "\<lparr>tx_ddl = mg_SQL m, tx_rows = [?row]\<rparr> :: pgtx"
  obtain r1 db1 where b: "BeginTx db = (r1, db1)" by fastforce
  obtain r2 db2 where x: "TxExec (mg_SQL m) ?tx1 db1 = (r2, db2)" by fastforce
  obtain r3 db3 where i: "TxInsert ?row ?tx2 db2 = (r3, db3)" by fastforce
  note B = BeginTx_law [OF b] and X = TxExec_law [OF x] and I = TxInsert_law [OF i, simplified]
  have l1: "later db db1" using B by simp
  have l2: "later db db2" using later_trans [OF l1] X by simp
  have l3: "later db db3" using later_trans [OF l2] I by simp
  have a: "(r, db') =
      (case r1 of Inl e \<Rightarrow> (Inl e, db1) | Inr _ \<Rightarrow>
       case r2 of Inl e \<Rightarrow> (Inl e, db2) | Inr _ \<Rightarrow>
       case r3 of Inl e \<Rightarrow> (if isUniqueViolation e then Inr () else Inl e, db3) | Inr _ \<Rightarrow> TxCommit ?tx3 db3)"
    using a b x i B X I unfolding applyMigration_def TxRollback_def by (cases r1; cases r2; cases r3) simp_all
  show ?thesis
  proof (cases "\<exists>tx1 tx2 tx3. r1 = Inr tx1 \<and> r2 = Inr tx2 \<and> r3 = Inr tx3")
    case True
    then have "TxCommit ?tx3 db3 = (r, db')" "mg_Version m \<notin> versions db3" using a I by auto
    moreover have "schema_ok db3" "has_table db3" using l3 ok by (auto simp: later_def)
    ultimately show ?thesis using TxCommit_law [OF m] later_trans [OF l3] by metis
  next
    case False
    then show ?thesis using a l1 l2 l3 I by (cases r1; cases r2; cases r3) (simp_all split: if_splits)
  qed
qed

text \<open>One round of the loop.\<close>

definition migrate_one :: "clock \<Rightarrow> Migration \<Rightarrow> pgdb \<Rightarrow> (error + unit) \<times> pgdb" where
  "migrate_one clk m db =
     (case migrationApplied db (mg_Version m) of
        (Inl err, db) \<Rightarrow> (Inl err, db)
      | (Inr applied, db) \<Rightarrow> if applied then (Inr (), db) else applyMigration (clk (mg_Version m)) db m)"

lemma migrate_loop_one:
  "migrate_loop clk (m # ms) db =
     (case migrate_one clk m db of (Inl err, db) \<Rightarrow> (Inl err, db) | (Inr _, db) \<Rightarrow> migrate_loop clk ms db)"
  by (auto simp: migrate_one_def split: prod.split sum.split)

declare migrate_loop.simps(2) [simp del]

lemma migrate_one_law:
  assumes m: "m \<in> set Migrations" and ok: "schema_ok db" "has_table db" and o: "migrate_one clk m db = (r, db')"
  shows "later db db'" "r = Inr () \<Longrightarrow> mg_Version m \<in> versions db'"
proof -
  obtain r1 db1 where a: "migrationApplied db (mg_Version m) = (r1, db1)" by fastforce
  note A = migrationApplied_law [OF a]
  have ok1: "schema_ok db1" "has_table db1" using A(1) ok by (auto simp: later_def)
  have "later db db' \<and> (r = Inr () \<longrightarrow> mg_Version m \<in> versions db')"
  proof (cases "r1 = Inr False")
    case True
    then have "applyMigration (clk (mg_Version m)) db1 m = (r, db')" using o a by (simp add: migrate_one_def)
    then show ?thesis using applyMigration_law [OF m ok1] A(1) later_trans by blast
  next
    case False
    then show ?thesis using o a A by (auto simp: migrate_one_def split: sum.splits if_splits)
  qed
  then show "later db db'" "r = Inr () \<Longrightarrow> mg_Version m \<in> versions db'" by auto
qed

lemma migrate_loop_law:
  assumes "set ms \<subseteq> set Migrations" "schema_ok db" "has_table db" "migrate_loop clk ms db = (r, db')"
  shows "later db db' \<and> (r = Inr () \<longrightarrow> mg_Version ` set ms \<subseteq> versions db')"
  using assms
proof (induction ms arbitrary: db)
  case (Cons m ms)
  obtain r1 db1 where o: "migrate_one clk m db = (r1, db1)" by fastforce
  have l1: "later db db1" "r1 = Inr () \<Longrightarrow> mg_Version m \<in> versions db1"
    using migrate_one_law [OF _ Cons.prems(2,3) o] Cons.prems(1) by auto
  show ?case
  proof (cases r1)
    case (Inl e)
    then show ?thesis using Cons.prems(4) o l1(1) by (auto simp: migrate_loop_one)
  next
    case (Inr u)
    have ok1: "schema_ok db1" "has_table db1" using l1(1) Cons.prems(2,3) by (simp_all add: later_def)
    have loop: "migrate_loop clk ms db1 = (r, db')" using Cons.prems(4) o Inr by (simp add: migrate_loop_one)
    have rest: "later db1 db'" "r = Inr () \<Longrightarrow> mg_Version ` set ms \<subseteq> versions db'"
      using Cons.IH [OF _ ok1 loop] Cons.prems(1) by simp_all
    have "mg_Version m \<in> versions db1" using l1(2) Inr by simp
    then have "mg_Version m \<in> versions db'" using rest(1) unfolding later_def by blast
    then show ?thesis using rest(2) later_trans [OF l1(1) rest(1)] by simp
  qed
qed simp

lemma recorded_known:
  assumes "schema_ok db" shows "versions db \<subseteq> {1, 2, 3}"
proof
  fix v assume "v \<in> versions db"
  then obtain n at where "(v, n, at) \<in> set (pg_versions db)" by fastforce
  then obtain m where "m \<in> set Migrations" "mg_Version m = v" using assms unfolding schema_ok_def by blast
  then show "v \<in> {1, 2, 3}" by (auto elim: Migrations_cases)
qed

lemma Migrate_law:
  assumes "schema_ok db" "Migrate clk db = (r, db')"
  shows "later db db'" "r = Inr () \<Longrightarrow> versions db' = {1, 2, 3}"
proof -
  obtain r1 db1 where e: "exec_auto (CreateTableIfNotExists ''schema_migrations'' schema_migrations_columns) db = (r1, db1)"
    by fastforce
  note l1 = exec_auto_law [OF e]
  have ok1: "schema_ok db1" using l1(1) assms(1) by (simp add: later_def)
  have "later db db' \<and> (r = Inr () \<longrightarrow> versions db' = {1, 2, 3})"
  proof (cases r1)
    case (Inl err)
    then show ?thesis using assms(2) e l1(1) by (auto simp: Migrate_def)
  next
    case (Inr u)
    then have loop: "migrate_loop clk Migrations db1 = (r, db')" and t: "has_table db1"
      using assms(2) e l1(2) by (auto simp: Migrate_def)
    note l2 = migrate_loop_law [OF subset_refl ok1 t loop]
    have "schema_ok db'" using l2 ok1 by (simp add: later_def)
    then have "versions db' \<subseteq> {1, 2, 3}" by (rule recorded_known)
    moreover have "mg_Version ` set Migrations = {1, 2, 3}" by (simp add: Migrations_def)
    ultimately have "r = Inr () \<Longrightarrow> versions db' = {1, 2, 3}" using l2 by (simp only: subset_antisym simp_thms)
    then show ?thesis using l2 later_trans [OF l1(1)] by simp
  qed
  then show "later db db'" "r = Inr () \<Longrightarrow> versions db' = {1, 2, 3}" by auto
qed

section \<open>Without failures, and once more\<close>

definition calm :: "pgdb \<Rightarrow> bool" where
  "calm db \<longleftrightarrow> (\<forall>ev \<in> set (pg_script db). \<not> fails ev)"

lemma other_applies_script [simp]: "pg_script (other_applies P v at db) = pg_script db"
  by (cases rule: other_applies_cases [OF refl, of P v at db]) auto

lemma next_statement_calm:
  assumes "calm db" "next_statement P db = (ev, db')" shows "\<not> fails ev" "calm db'"
  using assms by (auto simp: next_statement_def calm_def Let_def fails_def split: list.splits pg_event.splits)

lemma fails_simps [simp]: "fails FailsBefore" "fails FailsAfter" "\<not> fails Quiet" "\<not> fails (OtherApplies v at)"
  by (simp_all add: fails_def)

lemma exec_auto_calm:
  assumes "calm db" "exec_auto (CreateTableIfNotExists t cols) db = (r, db')"
  shows "r = Inr ()" "calm db'"
proof -
  obtain ev db1 where s: "next_statement {} db = (ev, db1)" by fastforce
  note c = next_statement_calm [OF assms(1) s]
  have "ev \<noteq> FailsBefore" "ev \<noteq> FailsAfter" using c(1) by auto
  then have "r = Inr () \<and> pg_script db' = pg_script db1"
    using assms(2) s by (cases "gm_get (pg_catalog db1) t") (auto simp: exec_auto_def)
  then show "r = Inr ()" "calm db'" using c by (simp_all add: calm_def)
qed

lemma migrationApplied_calm:
  assumes "calm db" "has_table db" "migrationApplied db v = (r, db')"
  shows "\<exists>b. r = Inr b" "calm db'"
  using assms next_statement_calm [OF assms(1)] next_statement_later(1) [of "{}" db]
  by (auto simp: migrationApplied_def Let_def later_def split: prod.splits if_splits)

lemma applyMigration_calm:
  assumes m: "m \<in> set Migrations" and ok: "schema_ok db" "has_table db" "calm db"
    and a: "applyMigration now db m = (r, db')"
  shows "r = Inr ()" "calm db'"
proof -
  have runs: "\<exists>c. exec_ddls (mg_SQL m) (pg_catalog d) = Inr c" "has_table d" if "later db d" for d
    using migration_runs [OF _ m, of d] that ok by (simp_all add: later_def)
  obtain ev1 db1 where 1: "next_statement {} db = (ev1, db1)" by fastforce
  obtain ev2 db2 where 2: "next_statement {} db1 = (ev2, db2)" by fastforce
  obtain ev3 db3 where 3: "next_statement {} db2 = (ev3, db3)" by fastforce
  obtain ev4 db4 where 4: "next_statement {mg_Version m} db3 = (ev4, db4)" by fastforce
  note c1 = next_statement_calm [OF ok(3) 1]
  note c2 = next_statement_calm [OF c1(2) 2]
  note c3 = next_statement_calm [OF c2(2) 3]
  note c4 = next_statement_calm [OF c3(2) 4]
  have l2: "later db db2" using next_statement_later(1) [OF 1] next_statement_later(1) [OF 2] later_trans by blast
  have l3: "later db db3" using later_trans [OF l2] next_statement_later(1) [OF 3] by simp
  have l4: "later db db4" using later_trans [OF l3] next_statement_later(1) [OF 4] by simp
  have b: "BeginTx db = (Inr \<lparr>tx_ddl = [], tx_rows = []\<rparr>, db1)" using 1 c1 by (simp add: BeginTx_def)
  have x: "TxExec (mg_SQL m) \<lparr>tx_ddl = [], tx_rows = []\<rparr> db1 = (Inr \<lparr>tx_ddl = mg_SQL m, tx_rows = []\<rparr>, db2)"
    using 2 c2 runs(1) [OF l2] by (auto simp: TxExec_def)
  have "r = Inr () \<and> calm db'"
  proof (cases "mg_Version m \<in> versions db3")
    case True
    then show ?thesis using a b x 3 c3 runs(2) [OF l3]
      by (auto simp: applyMigration_def TxInsert_def TxRollback_def isUniqueViolation_def unique_violation_def)
  next
    case False
    have ne: "ev4 \<noteq> FailsBefore" "ev4 \<noteq> FailsAfter" using c4(1) by auto
    show ?thesis using a b x 3 c3 runs(2) [OF l3] False 4 c4 ne runs(1) [OF l4]
      by (auto simp: applyMigration_def TxInsert_def TxCommit_def calm_def)
  qed
  then show "r = Inr ()" "calm db'" by auto
qed

lemma migrate_loop_calm:
  assumes "set ms \<subseteq> set Migrations" "schema_ok db" "has_table db" "calm db"
  shows "fst (migrate_loop clk ms db) = Inr () \<and> calm (snd (migrate_loop clk ms db))"
  using assms
proof (induction ms arbitrary: db)
  case (Cons m ms)
  obtain r1 db1 where o: "migrate_one clk m db = (r1, db1)" by fastforce
  obtain r0 db0 where a: "migrationApplied db (mg_Version m) = (r0, db0)" by fastforce
  obtain b where A: "r0 = Inr b" "calm db0" "later db db0"
    using migrationApplied_calm [OF Cons.prems(4,3) a] migrationApplied_law(1) [OF a] by auto
  have "r1 = Inr () \<and> calm db1"
    using o a A Cons.prems applyMigration_calm [of m db0] by (auto simp: migrate_one_def later_def split: if_splits)
  moreover have "later db db1" using migrate_one_law(1) [OF _ Cons.prems(2,3) o] Cons.prems(1) by simp
  ultimately show ?case using o Cons by (auto simp: migrate_loop_one later_def)
qed simp

lemma Migrate_calm:
  assumes "schema_ok db" "calm db" shows "fst (Migrate clk db) = Inr ()" "calm (snd (Migrate clk db))"
proof -
  obtain r1 db1 where e: "exec_auto (CreateTableIfNotExists ''schema_migrations'' schema_migrations_columns) db = (r1, db1)"
    by fastforce
  have "r1 = Inr ()" "calm db1" "later db db1" "has_table db1"
    using exec_auto_calm [OF assms(2) e] exec_auto_law [OF e] by auto
  then have "fst (migrate_loop clk Migrations db1) = Inr () \<and> calm (snd (migrate_loop clk Migrations db1))"
    "Migrate clk db = migrate_loop clk Migrations db1"
    using e migrate_loop_calm [OF subset_refl] assms(1) by (simp_all add: Migrate_def later_def)
  then show "fst (Migrate clk db) = Inr ()" "calm (snd (Migrate clk db))" by simp_all
qed

text \<open>A database that has every migration is left as it is, whatever fails.\<close>

definition same_schema :: "pgdb \<Rightarrow> pgdb \<Rightarrow> bool" where
  "same_schema db db' \<longleftrightarrow> pg_catalog db' = pg_catalog db \<and> pg_versions db' = pg_versions db"

lemma complete_next:
  assumes "versions db = {1, 2, 3}" "next_statement P db = (ev, db')" shows "same_schema db db'"
proof -
  have "other_applies P v at d = d" if "versions d = {1, 2, 3}" for v at d
    by (cases rule: other_applies_cases [OF refl, of P v at d]) (use that in \<open>auto elim: Migrations_cases\<close>)
  then show ?thesis using assms
    by (auto simp: next_statement_def same_schema_def Let_def split: list.splits pg_event.splits)
qed

lemma complete_loop:
  assumes "versions db = {1, 2, 3}" "set ms \<subseteq> set Migrations"
  shows "same_schema db (snd (migrate_loop clk ms db))"
  using assms
proof (induction ms arbitrary: db)
  case (Cons m ms)
  obtain r db1 where a: "migrationApplied db (mg_Version m) = (r, db1)" by fastforce
  have s: "same_schema db db1"
    using a complete_next [OF Cons.prems(1)] by (auto simp: migrationApplied_def Let_def split: prod.splits)
  have "r = Inr False \<Longrightarrow> False"
  proof -
    assume "r = Inr False"
    then have "mg_Version m \<notin> versions db1" using migrationApplied_law(2) [OF a, of False] by simp
    then show False using s Cons.prems by (auto simp: same_schema_def elim: Migrations_cases)
  qed
  then show ?case using Cons.IH [of db1] Cons.prems a s
    by (cases r) (auto simp: migrate_loop.simps(2) same_schema_def)
qed (simp add: same_schema_def)

lemma Migrate_complete:
  assumes "schema_ok db" "versions db = {1, 2, 3}"
  shows "same_schema db (snd (Migrate clk db))"
proof -
  obtain r1 db1 where e: "exec_auto (CreateTableIfNotExists ''schema_migrations'' schema_migrations_columns) db = (r1, db1)"
    by fastforce
  have "gm_get (pg_catalog db) ''schema_migrations'' \<noteq> None" using assms by (simp add: schema_ok_def)
  then have s: "same_schema db db1"
    using e complete_next [OF assms(2), of "{}"]
    by (fastforce simp: exec_auto_def Let_def same_schema_def split: prod.splits if_splits)
  then have "same_schema db1 (snd (migrate_loop clk Migrations db1))"
    using assms by (intro complete_loop) (simp_all add: same_schema_def)
  then show ?thesis using e s by (auto simp: Migrate_def same_schema_def split: sum.split)
qed

end
