(* ===== verification/Interfaces.thy ===== *)
theory Interfaces
  imports AuthProtocol Credentials ApiKeys
begin

text \<open>
  The gateway holds its stores behind interfaces, and \<open>newChallengeStore\<close>, \<open>newAPIKeyStore\<close>,
  \<open>newCredentialStore\<close> and \<open>main\<close> choose the implementation when it starts. A value of an interface
  is a value of the sum of its implementations; calling an operation dispatches on it. The sums
  satisfy the contracts of the interfaces because both sides do.
\<close>

definition dispatch :: "('m \<Rightarrow> 'r \<times> 'm) \<Rightarrow> ('p \<Rightarrow> 'r \<times> 'p) \<Rightarrow> 'm + 'p \<Rightarrow> 'r \<times> ('m + 'p)" where
  "dispatch f g s = (case s of Inl m \<Rightarrow> map_prod id Inl (f m) | Inr p \<Rightarrow> map_prod id Inr (g p))"

lemma dispatch_simps [simp]:
  "dispatch f g (Inl m) = (r, s') \<longleftrightarrow> (\<exists>m'. f m = (r, m') \<and> s' = Inl m')"
  "dispatch f g (Inr p) = (r, s') \<longleftrightarrow> (\<exists>p'. g p = (r, p') \<and> s' = Inr p')"
  by (cases "f m"; cases "g p"; auto simp: dispatch_def)+

section \<open>The registry\<close>

type_synonym did_backend = "MemoryDIDStore + PostgresDIDStore"

definition did_backend_store :: "did_backend DIDStore" where
  "did_backend_store =
     \<lparr>ds_Exists = \<lambda>s d. dispatch (\<lambda>m. ds_Exists memory_did_store m d) (\<lambda>p. ds_Exists postgres_did_store p d) s,
      ds_Create = \<lambda>s doc. dispatch (\<lambda>m. ds_Create memory_did_store m doc) (\<lambda>p. ds_Create postgres_did_store p doc) s,
      ds_Resolve = \<lambda>s d. dispatch (\<lambda>m. ds_Resolve memory_did_store m d) (\<lambda>p. ds_Resolve postgres_did_store p d) s,
      ds_Update = \<lambda>now s doc. dispatch (\<lambda>m. ds_Update memory_did_store now m doc) (\<lambda>p. ds_Update postgres_did_store now p doc) s,
      ds_Stats = \<lambda>s. dispatch (ds_Stats memory_did_store) (ds_Stats postgres_did_store) s\<rparr>"

definition did_backend_view :: "did_backend \<Rightarrow> string \<Rightarrow> DIDDocument option" where
  "did_backend_view s = (case s of Inl m \<Rightarrow> mem_view m | Inr p \<Rightarrow> pg_view p)"

definition did_backend_inv :: "did_backend \<Rightarrow> bool" where
  "did_backend_inv s = (case s of Inl m \<Rightarrow> mem_inv m | Inr p \<Rightarrow> pg_inv p)"

lemmas did_backend_defs = did_backend_store_def did_backend_view_def did_backend_inv_def

interpretation gdid: did_store did_backend_store did_backend_view did_backend_inv
proof (unfold_locales, goal_cases)
  case (1 s d doc)
  then show ?case by (cases s) (auto simp: did_backend_defs dest: mem.view_ID pg.view_ID)
next
  case (2 s)
  then show ?case by (cases s) (auto simp: did_backend_defs dest: mem.finite_view pg.finite_view)
next
  case (3 s d rb s')
  then show ?case by (cases s) (auto simp: did_backend_defs dest: mem.Exists_law pg.Exists_law)
next
  case (4 s doc ru s')
  then show ?case by (cases s) (auto simp: did_backend_defs dest: mem.Create_law pg.Create_law)
next
  case (5 s d rd s')
  then show ?case by (cases s) (auto simp: did_backend_defs dest: mem.Resolve_law pg.Resolve_law)
next
  case (6 s now doc ru s')
  then show ?case by (cases s) (auto simp: did_backend_defs dest: mem.Update_law pg.Update_law)
next
  case (7 s rs s')
  then show ?case by (cases s) (auto simp: did_backend_defs dest: mem.Stats_law pg.Stats_law)
qed

section \<open>The challenges\<close>

type_synonym challenge_backend = "MemoryChallengeStore + RedisChallengeStore"

definition challenge_backend_store :: "challenge_backend ChallengeStore" where
  "challenge_backend_store =
     \<lparr>cs_Save = \<lambda>now s ch. dispatch (\<lambda>m. cs_Save memory_challenge_store now m ch) (\<lambda>p. cs_Save redis_challenge_store now p ch) s,
      cs_Get = \<lambda>now s i. dispatch (\<lambda>m. cs_Get memory_challenge_store now m i) (\<lambda>p. cs_Get redis_challenge_store now p i) s,
      cs_Delete = \<lambda>s i. dispatch (\<lambda>m. cs_Delete memory_challenge_store m i) (\<lambda>p. cs_Delete redis_challenge_store p i) s\<rparr>"

definition challenge_backend_view :: "challenge_backend \<Rightarrow> string \<Rightarrow> authChallenge option" where
  "challenge_backend_view s = (case s of Inl m \<Rightarrow> memch_view m | Inr p \<Rightarrow> redis_view p)"

definition challenge_backend_inv :: "challenge_backend \<Rightarrow> bool" where
  "challenge_backend_inv s = (case s of Inl m \<Rightarrow> memch_inv m | Inr p \<Rightarrow> redis_inv p)"

lemmas challenge_backend_defs = challenge_backend_store_def challenge_backend_view_def challenge_backend_inv_def

interpretation gchal: challenge_store challenge_backend_store challenge_backend_view challenge_backend_inv
proof (unfold_locales, goal_cases)
  case (1 s i ch)
  then show ?case by (cases s) (auto simp: challenge_backend_defs dest: memch.view_ID redis.view_ID)
next
  case (2 s ch now ru s')
  then show ?case by (cases s) (auto simp: challenge_backend_defs dest: memch.Save_law redis.Save_law)
next
  case (3 s now i rc s')
  then show ?case by (cases s) (auto simp: challenge_backend_defs dest: memch.Get_law redis.Get_law)
next
  case (4 s i ru s')
  then show ?case by (cases s) (auto simp: challenge_backend_defs dest: memch.Delete_law redis.Delete_law)
qed

section \<open>The API keys\<close>

type_synonym key_backend = "MemoryAPIKeyStore + PostgresAPIKeyStore"

definition key_backend_store :: "prims \<Rightarrow> key_backend APIKeyStore" where
  "key_backend_store P =
     \<lparr>aks_Validate = \<lambda>s i k. dispatch (\<lambda>m. aks_Validate (memory_api_key_store P) m i k)
        (\<lambda>p. aks_Validate (postgres_api_key_store P) p i k) s,
      aks_Create = \<lambda>now s i n k. dispatch (\<lambda>m. aks_Create (memory_api_key_store P) now m i n k)
        (\<lambda>p. aks_Create (postgres_api_key_store P) now p i n k) s,
      aks_List = dispatch (aks_List (memory_api_key_store P)) (aks_List (postgres_api_key_store P)),
      aks_Revoke = \<lambda>now s i. dispatch (\<lambda>m. aks_Revoke (memory_api_key_store P) now m i)
        (\<lambda>p. aks_Revoke (postgres_api_key_store P) now p i) s\<rparr>"

definition key_backend_view :: "key_backend \<Rightarrow> key_view" where
  "key_backend_view s = (case s of Inl m \<Rightarrow> akm_view m | Inr p \<Rightarrow> akp_view p)"

definition key_backend_inv :: "key_backend \<Rightarrow> bool" where
  "key_backend_inv s = (case s of Inl m \<Rightarrow> akm_inv m | Inr p \<Rightarrow> akp_inv p)"

lemmas key_backend_defs = key_backend_store_def key_backend_view_def key_backend_inv_def

interpretation gkeys: api_key_store P "key_backend_store P" key_backend_view key_backend_inv for P
proof (unfold_locales, goal_cases)
  case (1 s i rec k)
  then show ?case by (cases s) (auto simp: key_backend_defs dest: memkeys.view_ID pgkeys.view_ID)
next
  case (2 s i k rv s')
  then show ?case by (cases s) (auto simp: key_backend_defs dest: memkeys.Validate_law pgkeys.Validate_law)
next
  case (3 s now i n k rc s')
  show ?case
  proof (cases s)
    case (Inl m)
    with 3 show ?thesis using memkeys.Create_law [of m P now i n k rc] by (auto simp: key_backend_defs)
  next
    case (Inr p)
    with 3 show ?thesis using pgkeys.Create_law [of p P now i n k rc] by (auto simp: key_backend_defs)
  qed
next
  case (4 s rl s')
  show ?case
  proof (cases s)
    case (Inl m)
    obtain m' where "aks_List (memory_api_key_store P) m = (rl, m')" "s' = Inl m'" "akm_inv m"
      using 4 Inl by (auto simp: key_backend_defs)
    then show ?thesis using memkeys.List_law [of m P rl m'] Inl by (simp add: key_backend_defs)
  next
    case (Inr p)
    obtain p' where "aks_List (postgres_api_key_store P) p = (rl, p')" "s' = Inr p'" "akp_inv p"
      using 4 Inr by (auto simp: key_backend_defs)
    then show ?thesis using pgkeys.List_law [of p P rl p'] Inr by (simp add: key_backend_defs)
  qed
next
  case (5 s now i ru s')
  show ?case
  proof (cases s)
    case (Inl m)
    with 5 show ?thesis using memkeys.Revoke_law [of m P now i ru] by (auto simp: key_backend_defs)
  next
    case (Inr p)
    with 5 show ?thesis using pgkeys.Revoke_law [of p P now i ru] by (auto simp: key_backend_defs)
  qed
qed

section \<open>The credentials\<close>

text \<open>
  A row keeps the credential as JSONB, the memory store as it is, so what a store keeps of a record
  depends on the implementation: the sum satisfies the contract on each side.
\<close>

type_synonym credential_backend = "MemoryCredentialStore + PostgresCredentialStore"

definition credential_backend_store :: "jsonb \<Rightarrow> credential_backend CredentialStore" where
  "credential_backend_store J =
     \<lparr>crs_Create = \<lambda>s rec. dispatch (\<lambda>m. crs_Create memory_credential_store m rec)
        (\<lambda>p. crs_Create (postgres_credential_store J) p rec) s,
      crs_ListBySubject = \<lambda>s did. dispatch (\<lambda>m. crs_ListBySubject memory_credential_store m did)
        (\<lambda>p. crs_ListBySubject (postgres_credential_store J) p did) s,
      crs_Get = \<lambda>s i. dispatch (\<lambda>m. crs_Get memory_credential_store m i)
        (\<lambda>p. crs_Get (postgres_credential_store J) p i) s,
      crs_Revoke = \<lambda>now s i reason. dispatch (\<lambda>m. crs_Revoke memory_credential_store now m i reason)
        (\<lambda>p. crs_Revoke (postgres_credential_store J) now p i reason) s\<rparr>"

definition credential_backend_view :: "credential_backend \<Rightarrow> string \<Rightarrow> CredentialRecord option" where
  "credential_backend_view s = (case s of Inl m \<Rightarrow> crmem_view m | Inr p \<Rightarrow> crpg_view p)"

definition memory_credentials :: "credential_backend \<Rightarrow> bool" where
  "memory_credentials s = (case s of Inl m \<Rightarrow> crmem_inv m | Inr _ \<Rightarrow> False)"

definition postgres_credentials :: "credential_backend \<Rightarrow> bool" where
  "postgres_credentials s = (case s of Inl _ \<Rightarrow> False | Inr p \<Rightarrow> crpg_inv p)"

lemmas credential_backend_defs =
  credential_backend_store_def credential_backend_view_def memory_credentials_def postgres_credentials_def

interpretation gmemcred: credential_store "credential_backend_store J" credential_backend_view memory_credentials Some for J
proof (unfold_locales, goal_cases)
  case (1 s i rec)
  then show ?case by (cases s) (auto simp: credential_backend_defs dest: memcred.view_ID)
next
  case (2 rec rec')
  then show ?case by (rule memcred.stored_fields)
next
  case (3 s rec ru s')
  then show ?case by (cases s) (auto simp: credential_backend_defs dest: memcred.Create_law)
next
  case (4 s did rl s')
  then show ?case by (cases s) (auto simp: credential_backend_defs dest: memcred.List_law)
next
  case (5 s i rg s')
  then show ?case by (cases s) (auto simp: credential_backend_defs dest: memcred.Get_law)
next
  case (6 s now i reason ru s')
  show ?case
  proof (cases s)
    case (Inl m)
    obtain m' where "crs_Revoke memory_credential_store now m i reason = (ru, m')" "s' = Inl m'" "crmem_inv m"
      using 6 Inl by (auto simp: credential_backend_defs)
    then show ?thesis using memcred.Revoke_law [of m now i reason ru m'] Inl by (simp add: credential_backend_defs)
  qed (use 6 in \<open>auto simp: credential_backend_defs\<close>)
qed

interpretation gpgcred: credential_store "credential_backend_store J" credential_backend_view postgres_credentials
    "crpg_stored J" for J
proof (unfold_locales, goal_cases)
  case (1 s i rec)
  then show ?case by (cases s) (auto simp: credential_backend_defs dest: pgcred.view_ID)
next
  case (2 rec rec')
  then show ?case by (rule pgcred.stored_fields)
next
  case (3 s rec ru s')
  then show ?case by (cases s) (auto simp: credential_backend_defs dest: pgcred.Create_law)
next
  case (4 s did rl s')
  then show ?case by (cases s) (auto simp: credential_backend_defs dest: pgcred.List_law)
next
  case (5 s i rg s')
  then show ?case by (cases s) (auto simp: credential_backend_defs dest: pgcred.Get_law)
next
  case (6 s now i reason ru s')
  show ?case
  proof (cases s)
    case (Inr p)
    obtain p' where "crs_Revoke (postgres_credential_store J) now p i reason = (ru, p')" "s' = Inr p'" "crpg_inv p"
      using 6 Inr by (auto simp: credential_backend_defs)
    then show ?thesis using pgcred.Revoke_law [of p J now i reason ru p'] Inr by (simp add: credential_backend_defs)
  qed (use 6 in \<open>auto simp: credential_backend_defs\<close>)
qed

section \<open>The services over them\<close>

interpretation gauth: auth_protocol did_backend_store did_backend_view did_backend_inv
  challenge_backend_store challenge_backend_view challenge_backend_inv ..

interpretation gmemcreds: credential_service did_backend_store did_backend_view did_backend_inv
  "credential_backend_store J" credential_backend_view memory_credentials Some for J ..

interpretation gpgcreds: credential_service did_backend_store did_backend_view did_backend_inv
  "credential_backend_store J" credential_backend_view postgres_credentials "crpg_stored J" for J ..

end
