(* ===== verification/Config.thy ===== *)
theory Config
  imports GoTime
begin

text \<open>
  \<open>internal/config/config.go\<close>: the configuration the gateway reads from its environment. The
  environment is a map; a variable that is not set reads as the empty string. Go's \<open>int\<close> has 64
  bits on the platforms the gateway is built for.
\<close>

record Config =
  Environment :: string
  HTTPAddr :: string
  GRPCAddr :: string
  BlockchainRPC :: string
  ZKPServiceURL :: string
  DatabaseURL :: string
  RedisURL :: string
  AdminToken :: string
  MaxRequestBodyBytes :: int
  RateLimitRequests :: int
  RateLimitWindow :: duration
  AllowedOrigins :: "string list"

definition Getenv :: "string gomap \<Rightarrow> string \<Rightarrow> string" where
  "Getenv environ key = (case gm_get environ key of None \<Rightarrow> [] | Some v \<Rightarrow> v)"

text \<open>\<open>strconv.Atoi\<close>: a sign, digits, and a value in the range of \<open>int\<close>.\<close>

definition Atoi :: "string \<Rightarrow> int option" where
  "Atoi s =
     (let neg = (take 1 s = ''-''); ds = (if take 1 s = ''-'' \<or> take 1 s = ''+'' then drop 1 s else s);
          n = int (foldl (\<lambda>n c. n * 10 + digit_val c) 0 ds); v = (if neg then - n else n)
      in if ds = [] \<or> \<not> list_all is_digit ds then None
         else if v < - (2 ^ 63) \<or> 2 ^ 63 \<le> v then None else Some v)"

definition env :: "string gomap \<Rightarrow> string \<Rightarrow> string \<Rightarrow> string" where
  "env environ key fallback =
     (let v = TrimSpace (Getenv environ key) in if v = [] then fallback else v)"

definition envInt :: "string gomap \<Rightarrow> string \<Rightarrow> int \<Rightarrow> int" where
  "envInt environ key fallback =
     (let v = TrimSpace (Getenv environ key) in
      if v = [] then fallback
      else case Atoi v of None \<Rightarrow> fallback | Some parsed \<Rightarrow> if parsed \<le> 0 then fallback else parsed)"

definition splitCSV :: "string \<Rightarrow> string list" where
  "splitCSV v = filter (\<lambda>trimmed. trimmed \<noteq> []) (map TrimSpace (SplitByte CHR '','' v))"

definition IsProduction :: "Config \<Rightarrow> bool" where
  "IsProduction c = EqualFold (Environment c) ''production''"

definition dev_admin_token :: string where
  "dev_admin_token = ''dev-admin-token-change-in-production''"

text \<open>\<open>None\<close> is nil.\<close>

definition validate :: "Config \<Rightarrow> error option" where
  "validate c =
     (if \<not> IsProduction c then None
      else if AdminToken c = [] \<or> AdminToken c = dev_admin_token
      then Some (ErrOther ''UDDI_ADMIN_TOKEN must be set to a non-development value in production'')
      else if list_ex (\<lambda>origin. origin = ''*'') (AllowedOrigins c)
      then Some (ErrOther ''UDDI_ALLOWED_ORIGINS must not include * in production'')
      else None)"

text \<open>The product of the window and a second is taken in \<open>int64\<close> and may wrap around.\<close>

definition loaded :: "string gomap \<Rightarrow> Config" where
  "loaded environ =
     \<lparr>Environment = env environ ''UDDI_ENV'' ''development'',
      HTTPAddr = env environ ''UDDI_HTTP_ADDR'' '':8080'',
      GRPCAddr = env environ ''UDDI_GRPC_ADDR'' '':9090'',
      BlockchainRPC = env environ ''UDDI_BLOCKCHAIN_RPC'' ''ws://localhost:9944'',
      ZKPServiceURL = env environ ''UDDI_ZKP_SERVICE_URL'' ''http://localhost:3000'',
      DatabaseURL = env environ ''UDDI_DATABASE_URL'' [],
      RedisURL = env environ ''UDDI_REDIS_URL'' [],
      AdminToken = env environ ''UDDI_ADMIN_TOKEN'' [],
      MaxRequestBodyBytes = envInt environ ''UDDI_MAX_REQUEST_BODY_BYTES'' 1048576,
      RateLimitRequests = envInt environ ''UDDI_RATE_LIMIT_REQUESTS'' 120,
      RateLimitWindow = int64 (envInt environ ''UDDI_RATE_LIMIT_WINDOW_SECONDS'' 60 * second),
      AllowedOrigins = splitCSV (env environ ''UDDI_ALLOWED_ORIGINS'' ''*'')\<rparr>"

definition Load :: "string gomap \<Rightarrow> error + Config" where
  "Load environ = (let cfg = loaded environ in case validate cfg of Some err \<Rightarrow> Inl err | None \<Rightarrow> Inr cfg)"

section \<open>What a loaded configuration satisfies\<close>

lemma envInt_positive: "0 < fallback \<Longrightarrow> 0 < envInt environ key fallback"
  by (auto simp: envInt_def Let_def split: option.split)

lemma Atoi_range: "Atoi s = Some v \<Longrightarrow> - (2 ^ 63) \<le> v \<and> v < 2 ^ 63"
  by (auto simp: Atoi_def Let_def split: if_splits)

lemma Load_positive:
  "Load environ = Inr cfg \<Longrightarrow> 0 < MaxRequestBodyBytes cfg \<and> 0 < RateLimitRequests cfg"
  by (auto simp: Load_def Let_def loaded_def envInt_positive split: option.splits)

lemma Load_production:
  assumes "Load environ = Inr cfg" "IsProduction cfg"
  shows "AdminToken cfg \<noteq> []" "AdminToken cfg \<noteq> dev_admin_token" "''*'' \<notin> set (AllowedOrigins cfg)"
  using assms by (auto simp: Load_def Let_def validate_def list_ex_iff split: option.splits if_splits)

text \<open>The window is the configured number of seconds as long as that fits into an \<open>int64\<close>.\<close>

lemma Load_window:
  assumes "Load environ = Inr cfg" "envInt environ ''UDDI_RATE_LIMIT_WINDOW_SECONDS'' 60 \<le> 9223372036"
  shows "RateLimitWindow cfg = envInt environ ''UDDI_RATE_LIMIT_WINDOW_SECONDS'' 60 * second"
    "0 < RateLimitWindow cfg" "RateLimitWindow cfg < 2 ^ 63"
proof -
  let ?n = "envInt environ ''UDDI_RATE_LIMIT_WINDOW_SECONDS'' 60"
  have n: "0 < ?n" by (rule envInt_positive) simp
  have "int64 (?n * second) = ?n * second"
    by (rule int64_id) (use n assms(2) in \<open>simp_all add: second_def\<close>)
  moreover have "RateLimitWindow cfg = int64 (?n * second)"
    using assms(1) by (auto simp: Load_def Let_def loaded_def split: option.splits)
  ultimately show "RateLimitWindow cfg = ?n * second" "0 < RateLimitWindow cfg" "RateLimitWindow cfg < 2 ^ 63"
    using n assms(2) by (simp_all add: second_def)
qed

text \<open>One more second, and the window is negative: the limiter then admits everything.\<close>

lemma window_overflows: "int64 (9223372037 * second) < 0"
  by (simp add: int64_def second_def)

text \<open>In production the list of origins has no star, but it may be empty.\<close>

lemma empty_origins_pass:
  "\<exists>cfg. Load [(''UDDI_ENV'', ''production''), (''UDDI_ADMIN_TOKEN'', ''secret''), (''UDDI_ALLOWED_ORIGINS'', '','')] = Inr cfg
     \<and> IsProduction cfg \<and> AllowedOrigins cfg = []"
proof -
  have "TrimSpace ''production'' = ''production''" "TrimSpace ''secret'' = ''secret''" "TrimSpace '','' = '',''"
    "EqualFold ''production'' ''production''" "splitCSV '','' = []"
    by code_simp+
  then show ?thesis
    by (simp add: Load_def loaded_def validate_def IsProduction_def env_def Getenv_def dev_admin_token_def Let_def)
qed

end
