(* ===== verification/Gateway.thy ===== *)
theory Gateway
  imports Interfaces Migrations Config Observability Proofs
begin

text \<open>
  \<open>internal/server/router.go\<close>: the gateway as a whole. Its state holds the components the router
  wires together; a request passes the middleware in the order of \<open>r.Use\<close>, is matched to a route,
  passes the guard of the route's group and reaches its handler. The parts of the router that come
  from \<open>chi\<close> and its \<open>cors\<close> package are outside the repository and are parameters: the request
  transformers, the recovery from a panic, the deadline, the answers of CORS, and the choice of the
  route for a request.
\<close>

definition APIVersion :: string where "APIVersion = ''0.1.1''"

section \<open>The state\<close>

record gateway =
  gw_cfg :: Config
  gw_chain :: "did_backend Client"
  gw_zkp :: Service
  gw_challenges :: challenge_backend
  gw_keys :: key_backend
  gw_credentials :: credential_backend
  gw_metrics :: Metrics
  gw_limiter :: RateLimiter
  gw_log :: "log_line list"

section \<open>What the process finds\<close>

text \<open>
  The environment, the connections, the tables, the Redis server and the clocks. A connection is given
  by the errors of \<open>sql.Open\<close> and of the ping; \<open>ot_redis_err\<close> is the error of \<open>redis.ParseURL\<close>, and
  \<open>ot_text\<close> is the text of an error.
\<close>

type_synonym connection = "error option \<times> error option"

record outside =
  ot_env :: "string gomap"
  ot_clk :: "nat \<Rightarrow> clock"
  ot_conn :: "nat \<Rightarrow> connection"
  ot_keys_clk :: clock
  ot_keys_conn :: connection
  ot_seeds_clk :: clock
  ot_credentials_clk :: clock
  ot_credentials_conn :: connection
  ot_redis_err :: "error option"
  ot_dids :: PostgresDIDStore
  ot_keys :: PostgresAPIKeyStore
  ot_credentials :: PostgresCredentialStore
  ot_redis :: RedisChallengeStore
  ot_now :: time
  ot_text :: "error \<Rightarrow> string"

text \<open>
  \<open>fmt.Errorf\<close> with a prefix and \<open>%w\<close>. The errors it makes during the start are only asked for their
  text.
\<close>

definition Errorf :: "outside \<Rightarrow> string \<Rightarrow> error \<Rightarrow> error" where
  "Errorf ot prefix err = ErrOther (prefix @ '': '' @ ot_text ot err)"

section \<open>Choosing the stores\<close>

definition NewRedisChallengeStore :: "error option \<Rightarrow> RedisChallengeStore \<Rightarrow> error + RedisChallengeStore" where
  "NewRedisChallengeStore parse_err client = (case parse_err of Some err \<Rightarrow> Inl err | None \<Rightarrow> Inr client)"

definition newChallengeStore :: "outside \<Rightarrow> Config \<Rightarrow> error + challenge_backend" where
  "newChallengeStore ot cfg =
     (if RedisURL cfg = [] then Inr (Inl NewMemoryChallengeStore)
      else case NewRedisChallengeStore (ot_redis_err ot) (ot_redis ot) of
        Inl err \<Rightarrow> Inl (Errorf ot ''create Redis challenge store'' err)
      | Inr store \<Rightarrow> Inr (Inr store))"

definition newAPIKeyStore :: "prims \<Rightarrow> outside \<Rightarrow> Config \<Rightarrow> pgdb \<Rightarrow> (error + key_backend) \<times> pgdb" where
  "newAPIKeyStore P ot cfg db =
     (let seedDevKeys = \<not> IsProduction cfg in
      if DatabaseURL cfg = [] then (Inr (Inl (NewMemoryAPIKeyStoreWithDevSeeds P (ot_seeds_clk ot) seedDevKeys)), db)
      else
        let (opened, db) = OpenPostgres (ot_keys_clk ot) (fst (ot_keys_conn ot)) (snd (ot_keys_conn ot)) db in
        (case NewPostgresAPIKeyStore P (ot_seeds_clk ot) opened seedDevKeys (ot_keys ot) of
           (Inl err, _) \<Rightarrow> Inl (Errorf ot ''create Postgres API key store'' err)
         | (Inr _, store) \<Rightarrow> Inr (Inr store), db))"

definition NewPostgresCredentialStore :: "error + unit \<Rightarrow> PostgresCredentialStore \<Rightarrow> error + PostgresCredentialStore" where
  "NewPostgresCredentialStore opened db = (case opened of Inl err \<Rightarrow> Inl err | Inr _ \<Rightarrow> Inr db)"

definition newCredentialStore :: "outside \<Rightarrow> Config \<Rightarrow> pgdb \<Rightarrow> (error + credential_backend) \<times> pgdb" where
  "newCredentialStore ot cfg db =
     (if DatabaseURL cfg = [] then (Inr (Inl NewMemoryCredentialStore), db)
      else
        let (opened, db) = OpenPostgres (ot_credentials_clk ot) (fst (ot_credentials_conn ot)) (snd (ot_credentials_conn ot)) db in
        (case NewPostgresCredentialStore opened (ot_credentials ot) of
           Inl err \<Rightarrow> Inl (Errorf ot ''create Postgres credential store'' err)
         | Inr store \<Rightarrow> Inr (Inr store), db))"

section \<open>The routes\<close>

datatype endpoint =
    Health | Ready | MetricsReport | OpenAPI | Docs
  | RegisterDID | ResolveDID | RevokeDID | UpdateDID
  | ListCredentials | IssueCredential | RevokeCredential | VerifyCredential
  | NewChallenge | VerifyAuthentication | VerifyClaims
  | ListKeys | CreateKey | RevokeKey
  | GenerateProof | Stats

datatype group = Root | DIDs | Credentials | Verify | Admin | Proofs

text \<open>The method, the pattern and the handler of every route, with the group it stands in.\<close>

definition routes :: "(group \<times> string \<times> string \<times> endpoint) list" where
  "routes =
     [(Root, ''GET'', ''/health'', Health), (Root, ''GET'', ''/ready'', Ready), (Root, ''GET'', ''/metrics'', MetricsReport),
      (Root, ''GET'', ''/openapi.yaml'', OpenAPI), (Root, ''GET'', ''/docs'', Docs),
      (DIDs, ''POST'', ''/v1/did/register'', RegisterDID), (DIDs, ''GET'', ''/v1/did/{did}'', ResolveDID),
      (DIDs, ''POST'', ''/v1/did/revoke'', RevokeDID), (DIDs, ''PUT'', ''/v1/did/{did}/update'', UpdateDID),
      (Credentials, ''GET'', ''/v1/credentials/{did}'', ListCredentials),
      (Credentials, ''POST'', ''/v1/credentials/issue'', IssueCredential),
      (Credentials, ''POST'', ''/v1/credentials/revoke'', RevokeCredential),
      (Credentials, ''GET'', ''/v1/credentials/{id}/verify'', VerifyCredential),
      (Verify, ''POST'', ''/v1/verify/challenge'', NewChallenge), (Verify, ''POST'', ''/v1/verify/auth'', VerifyAuthentication),
      (Verify, ''POST'', ''/v1/verify/claim'', VerifyClaims),
      (Admin, ''GET'', ''/v1/admin/api-keys/'', ListKeys), (Admin, ''POST'', ''/v1/admin/api-keys/'', CreateKey),
      (Admin, ''POST'', ''/v1/admin/api-keys/revoke'', RevokeKey),
      (Proofs, ''POST'', ''/v1/proof/generate'', GenerateProof), (Root, ''GET'', ''/v1/registry/stats'', Stats)]"

text \<open>
  What \<open>chi\<close> does with a request: the index of the route it matches and the values of the
  parameters of its pattern, or the group whose sub-router finds no route.
\<close>

datatype matched = Found nat "string \<Rightarrow> string" | Missing group

record cors_options =
  co_AllowedOrigins :: "string list"
  co_AllowedMethods :: "string list"
  co_AllowedHeaders :: "string list"
  co_AllowCredentials :: bool

record chi =
  chi_RequestID :: "raw_request \<Rightarrow> raw_request"
  chi_RealIP :: "raw_request \<Rightarrow> raw_request"
  chi_Recoverer :: "response outcome \<Rightarrow> response"
  chi_Timeout :: "duration \<Rightarrow> response outcome \<Rightarrow> response outcome"
  chi_Preflight :: "cors_options \<Rightarrow> raw_request \<Rightarrow> response option"
  chi_CorsHeaders :: "cors_options \<Rightarrow> raw_request \<Rightarrow> (string \<times> string) list"
  chi_Match :: "(string \<times> string) list \<Rightarrow> request \<Rightarrow> matched"
  chi_NotFound :: "request \<Rightarrow> response"
  chi_OpenAPIYAML :: string

text \<open>
  What a request reads from outside: the clocks, the identifier chi gives it, the random generator, the
  proof service.
\<close>

record readings =
  rd_now :: time
  rd_start :: time
  rd_stop :: time
  rd_logged :: time
  rd_reqID :: string
  rd_clk :: clock
  rd_rnd1 :: "string option"
  rd_rnd2 :: "string option"
  rd_net :: zkp_net

section \<open>The handlers in the gateway\<close>

text \<open>Handlers share the components by pointers: each one works on its part of the state.\<close>

definition on_chain :: "(did_backend Client \<Rightarrow> did_backend Client handled) \<Rightarrow> gateway \<Rightarrow> gateway handled" where
  "on_chain f g = (let (out, c) = f (gw_chain g) in (out, g\<lparr>gw_chain := c\<rparr>))"

definition on_verify :: "((did_backend, challenge_backend) VerifyHandler \<Rightarrow> (did_backend, challenge_backend) VerifyHandler handled)
    \<Rightarrow> gateway \<Rightarrow> gateway handled" where
  "on_verify f g =
     (let (out, h) = f (NewVerifyHandlerWithChallengeStore (gw_chain g) (gw_zkp g) (gw_challenges g))
      in (out, g\<lparr>gw_chain := vh_chain h, gw_challenges := vh_challengeStore h\<rparr>))"

definition on_credentials :: "((did_backend, credential_backend) CredentialHandler
    \<Rightarrow> (did_backend, credential_backend) CredentialHandler handled) \<Rightarrow> gateway \<Rightarrow> gateway handled" where
  "on_credentials f g =
     (let (out, h) = f (NewCredentialHandler (gw_chain g) (gw_credentials g))
      in (out, g\<lparr>gw_chain := crh_chain h, gw_credentials := crh_store h\<rparr>))"

definition on_keys :: "(key_backend APIKeyHandler \<Rightarrow> key_backend APIKeyHandler handled) \<Rightarrow> gateway \<Rightarrow> gateway handled" where
  "on_keys f g = (let (out, h) = f (NewAPIKeyHandler (gw_keys g)) in (out, g\<lparr>gw_keys := akh_store h\<rparr>))"

lemmas on_defs = on_chain_def on_verify_def on_credentials_def on_keys_def

definition text_response :: "string \<Rightarrow> string \<Rightarrow> response" where
  "text_response content_type body =
     \<lparr>rs_status = StatusOK, rs_headers = [(''Content-Type'', content_type), (''Cache-Control'', ''no-store'')], rs_body = GStr body\<rparr>"

definition swaggerUIHTML :: string where
  \<open>swaggerUIHTML = concat (map (\<lambda>line. line @ [CHR 0x0A])
     [''<!doctype html>'',
      ''<html lang="en">'',
      ''  <head>'',
      ''    <meta charset="utf-8">'',
      ''    <meta name="viewport" content="width=device-width, initial-scale=1">'',
      ''    <title>UDDI API Docs</title>'',
      ''    <link rel="stylesheet" href="https://unpkg.com/swagger-ui-dist@5/swagger-ui.css">'',
      ''    <style>'',
      ''      body { margin: 0; background: #ffffff; }'',
      ''      .swagger-ui .topbar { display: none; }'',
      ''    </style>'',
      ''  </head>'',
      ''  <body>'',
      ''    <div id="swagger-ui"></div>'',
      ''    <script src="https://unpkg.com/swagger-ui-dist@5/swagger-ui-bundle.js"></script>'',
      ''    <script>'',
      ''      window.ui = SwaggerUIBundle({'',
      ''        url: "/openapi.yaml",'',
      ''        dom_id: "#swagger-ui",'',
      ''        deepLinking: true,'',
      ''        persistAuthorization: true,'',
      ''        displayRequestDuration: true'',
      ''      });'',
      ''    </script>'',
      ''  </body>''])
     @ ''</html>''\<close>

definition run_endpoint :: "prims \<Rightarrow> jsonb \<Rightarrow> chi \<Rightarrow> readings \<Rightarrow> endpoint \<Rightarrow> (string \<Rightarrow> string) \<Rightarrow> gateway handler" where
  "run_endpoint P J C rd e params r g =
     (case e of
        Health \<Rightarrow> (Done (JSON StatusOK (GObj [(''status'', GStr ''ok''), (''version'', GStr APIVersion)])), g)
      | Ready \<Rightarrow> (Done (JSON StatusOK (GObj [(''status'', GStr ''ready''), (''version'', GStr APIVersion)])), g)
      | MetricsReport \<Rightarrow> (Done (Metrics_Handler (rd_clk rd 0) (gw_metrics g)), g)
      | OpenAPI \<Rightarrow> (Done (text_response ''application/yaml; charset=utf-8'' (chi_OpenAPIYAML C)), g)
      | Docs \<Rightarrow> (Done (text_response ''text/html; charset=utf-8'' swaggerUIHTML), g)
      | RegisterDID \<Rightarrow> on_chain (\<lambda>c. DIDHandler_Register P did_backend_store (rd_clk rd) c (rq_body r)) g
      | ResolveDID \<Rightarrow> on_chain (\<lambda>c. DIDHandler_Resolve did_backend_store c (params ''did'')) g
      | RevokeDID \<Rightarrow> on_chain (\<lambda>c. DIDHandler_Revoke P did_backend_store (rd_clk rd) c (rq_body r)) g
      | UpdateDID \<Rightarrow> on_chain (\<lambda>c. DIDHandler_Update P did_backend_store (rd_clk rd) c (params ''did'') (rq_body r)) g
      | ListCredentials \<Rightarrow> on_credentials (\<lambda>h. CredentialHandler_ListByDID (credential_backend_store J) h (params ''did'')) g
      | IssueCredential \<Rightarrow> on_credentials
          (\<lambda>h. CredentialHandler_Issue P did_backend_store (credential_backend_store J) (rd_clk rd) h (rq_body r)) g
      | RevokeCredential \<Rightarrow> on_credentials
          (\<lambda>h. CredentialHandler_Revoke (credential_backend_store J) (rd_clk rd) h (rq_body r)) g
      | VerifyCredential \<Rightarrow> on_credentials
          (\<lambda>h. CredentialHandler_Verify P did_backend_store (credential_backend_store J) (rd_clk rd) h (params ''id'')) g
      | NewChallenge \<Rightarrow> on_verify (\<lambda>h. CreateChallenge challenge_backend_store (rd_clk rd) (rd_rnd1 rd) (rd_rnd2 rd) h r) g
      | VerifyAuthentication \<Rightarrow> on_verify
          (\<lambda>h. VerifyAuth P did_backend_store challenge_backend_store (rd_clk rd) h (rq_body r)) g
      | VerifyClaims \<Rightarrow> on_verify (\<lambda>h. VerifyClaim P (rd_net rd) (rd_clk rd) h (rq_body r)) g
      | ListKeys \<Rightarrow> on_keys (APIKeyHandler_List (key_backend_store P)) g
      | CreateKey \<Rightarrow> on_keys (\<lambda>h. APIKeyHandler_Create (key_backend_store P) (rd_clk rd) (rd_rnd1 rd) h (rq_body r)) g
      | RevokeKey \<Rightarrow> on_keys (\<lambda>h. APIKeyHandler_Revoke (key_backend_store P) (rd_clk rd) h (rq_body r)) g
      | GenerateProof \<Rightarrow>
          (fst (ProofHandler_Generate P (rd_net rd) (NewProofHandler (gw_zkp g) (gw_chain g)) (rq_body r)), g)
      | Stats \<Rightarrow> on_chain (RegistryHandler_Stats did_backend_store) g)"

section \<open>The router\<close>

definition put_keys :: "key_backend \<Rightarrow> gateway \<Rightarrow> gateway" where
  "put_keys s g = g\<lparr>gw_keys := s\<rparr>"

definition guard :: "prims \<Rightarrow> Config \<Rightarrow> group \<Rightarrow> gateway handler \<Rightarrow> gateway handler" where
  "guard P cfg grp =
     (case grp of
        Credentials \<Rightarrow> RequireAPIKey (key_backend_store P) gw_keys put_keys
      | Verify \<Rightarrow> RequireAPIKey (key_backend_store P) gw_keys put_keys
      | Admin \<Rightarrow> RequireAdminToken (AdminToken cfg)
      | _ \<Rightarrow> id)"

definition router :: "prims \<Rightarrow> jsonb \<Rightarrow> chi \<Rightarrow> readings \<Rightarrow> gateway raw_handler" where
  "router P J C rd raw g =
     (let r = decoded_request raw; missing = (\<lambda>r g. (Done (chi_NotFound C r), g)) in
      case chi_Match C (map (\<lambda>(_, method, pattern, _). (method, pattern)) routes) r of
        Missing grp \<Rightarrow> guard P (gw_cfg g) grp missing r g
      | Found i params \<Rightarrow>
          if i < length routes then
            (case routes ! i of (grp, _, _, e) \<Rightarrow> guard P (gw_cfg g) grp (run_endpoint P J C rd e params) r g)
          else missing r g)"

definition cors_of :: "Config \<Rightarrow> cors_options" where
  "cors_of cfg =
     \<lparr>co_AllowedOrigins = AllowedOrigins cfg,
      co_AllowedMethods = [''GET'', ''POST'', ''PUT'', ''DELETE'', ''OPTIONS''],
      co_AllowedHeaders = [''Accept'', ''Authorization'', ''Content-Type'', ''X-API-Key'', ''X-Service-ID'', ''X-Admin-Token''],
      co_AllowCredentials = True\<rparr>"

definition cors_Handler :: "chi \<Rightarrow> cors_options \<Rightarrow> gateway raw_handler \<Rightarrow> gateway raw_handler" where
  "cors_Handler C options nxt r g =
     (case chi_Preflight C options r of
        Some rs \<Rightarrow> (Done rs, g)
      | None \<Rightarrow> (let (out, g) = nxt r g in (with_headers (chi_CorsHeaders C options r) out, g)))"

definition put_metrics :: "Metrics \<Rightarrow> gateway \<Rightarrow> gateway" where
  "put_metrics m g = g\<lparr>gw_metrics := m\<rparr>"

definition put_limiter :: "RateLimiter \<Rightarrow> gateway \<Rightarrow> gateway" where
  "put_limiter l g = g\<lparr>gw_limiter := l\<rparr>"

definition put_log :: "log_line \<Rightarrow> gateway \<Rightarrow> gateway" where
  "put_log line g = g\<lparr>gw_log := gw_log g @ [line]\<rparr>"

text \<open>One request from the connection to the answer: the middleware in the order of \<open>r.Use\<close>.\<close>

definition limited :: "prims \<Rightarrow> jsonb \<Rightarrow> chi \<Rightarrow> readings \<Rightarrow> Config \<Rightarrow> gateway raw_handler" where
  "limited P J C rd cfg =
     SecurityHeaders (LimitRequestBody (MaxRequestBodyBytes cfg)
       (RateLimiter_Middleware (rd_now rd) gw_limiter put_limiter
         (cors_Handler C (cors_of cfg) (router P J C rd))))"

definition serve :: "prims \<Rightarrow> jsonb \<Rightarrow> chi \<Rightarrow> readings \<Rightarrow> raw_request \<Rightarrow> gateway \<Rightarrow> response \<times> gateway" where
  "serve P J C rd r g =
     (let (out, g) = Metrics_Middleware (rd_start rd) (rd_stop rd) (rd_logged rd) (rd_reqID rd) gw_metrics put_metrics put_log
            (limited P J C rd (gw_cfg g)) (chi_RealIP C (chi_RequestID C r)) g
      in (chi_Recoverer C (chi_Timeout C (30 * second) out), g))"

section \<open>The gateway at its start\<close>

definition NewRouter :: "prims \<Rightarrow> outside \<Rightarrow> Config \<Rightarrow> did_backend Client \<Rightarrow> Service \<Rightarrow> log_line list \<Rightarrow> pgdb
    \<Rightarrow> (error + gateway) \<times> pgdb" where
  "NewRouter P ot cfg chainClient zkpService logged db =
     (case newChallengeStore ot cfg of
        Inl err \<Rightarrow> (Inl err, db)
      | Inr challengeStore \<Rightarrow>
        (case newAPIKeyStore P ot cfg db of
           (Inl err, db) \<Rightarrow> (Inl err, db)
         | (Inr apiKeyStore, db) \<Rightarrow>
           (case newCredentialStore ot cfg db of
              (Inl err, db) \<Rightarrow> (Inl err, db)
            | (Inr credentialStore, db) \<Rightarrow>
              (Inr \<lparr>gw_cfg = cfg, gw_chain = chainClient, gw_zkp = zkpService, gw_challenges = challengeStore,
                    gw_keys = apiKeyStore, gw_credentials = credentialStore, gw_metrics = NewMetrics (ot_now ot),
                    gw_limiter = NewRateLimiter (RateLimitRequests cfg) (RateLimitWindow cfg), gw_log = logged\<rparr>, db))))"

end
