(* ===== verification/Startup.thy ===== *)
theory Startup
  imports Schema Gateway
begin

text \<open>
  \<open>main.go\<close>: from the environment to a gateway that can serve, with the lines it logs. The loop that
  waits for the database is a function with a measure. What the process finds outside is the record
  \<open>outside\<close>. The process that serves and stops is in the theory \<open>Process\<close>.
\<close>

definition startupDependencyAttempts :: nat where "startupDependencyAttempts = 12"

definition startupDependencyDelay :: duration where "startupDependencyDelay = 2 * second"

definition Info :: "string \<Rightarrow> (string \<times> gval) list \<Rightarrow> log_line" where
  "Info msg attrs = \<lparr>lg_level = LevelInfo, lg_msg = msg, lg_attrs = attrs\<rparr>"

definition Failed :: "outside \<Rightarrow> string \<Rightarrow> error \<Rightarrow> log_line" where
  "Failed ot msg err = \<lparr>lg_level = LevelError, lg_msg = msg, lg_attrs = [(''error'', GStr (ot_text ot err))]\<rparr>"

section \<open>Waiting for the database\<close>

text \<open>\<open>NewPostgresDIDStore\<close>: the errors of \<open>sql.Open\<close> and of the ping, then the migrations.\<close>

definition NewPostgresDIDStore :: "clock \<Rightarrow> connection \<Rightarrow> pgdb \<Rightarrow> (error + unit) \<times> pgdb" where
  "NewPostgresDIDStore clk conn db = OpenPostgres clk (fst conn) (snd conn) db"

text \<open>The delay prints as \<open>2s\<close>.\<close>

definition retrying :: "outside \<Rightarrow> nat \<Rightarrow> error \<Rightarrow> log_line" where
  "retrying ot attempt err =
     \<lparr>lg_level = LevelWarn, lg_msg = ''DID database not ready; retrying'', lg_attrs =
       [(''attempt'', GInt (int attempt)), (''maxAttempts'', GInt (int startupDependencyAttempts)),
        (''retryIn'', GStr ''2s''), (''error'', GStr (ot_text ot err))]\<rparr>"

definition not_ready :: "outside \<Rightarrow> error option \<Rightarrow> error" where
  "not_ready ot lastErr =
     (let prefix = ''database not ready after '' @ FormatInt (int startupDependencyAttempts) @ '' attempts'' in
      case lastErr of None \<Rightarrow> ErrOther (prefix @ '': %!w(<nil>)'') | Some err \<Rightarrow> Errorf ot prefix err)"

text \<open>\<open>slept\<close> is the time spent in \<open>time.Sleep\<close> and \<open>logged\<close> the log; the counters begin at 1.\<close>

function connect_loop :: "outside \<Rightarrow> nat \<Rightarrow> error option \<Rightarrow> duration \<Rightarrow> log_line list \<Rightarrow> pgdb
    \<Rightarrow> (error + unit) \<times> duration \<times> log_line list \<times> pgdb" where
  "connect_loop ot attempt lastErr slept logged db =
     (if attempt \<le> startupDependencyAttempts then
        (case NewPostgresDIDStore (ot_clk ot attempt) (ot_conn ot attempt) db of
           (Inr _, db) \<Rightarrow>
             let logged = (if 1 < attempt then logged @ [Info ''connected to DID database'' [(''attempt'', GInt (int attempt))]]
                   else logged)
             in (Inr (), slept, logged, db)
         | (Inl err, db) \<Rightarrow>
             if attempt = startupDependencyAttempts then (Inl (not_ready ot (Some err)), slept, logged, db)
             else connect_loop ot (attempt + 1) (Some err) (slept + startupDependencyDelay) (logged @ [retrying ot attempt err]) db)
      else (Inl (not_ready ot lastErr), slept, logged, db))"
  by pat_completeness auto
termination
  by (relation "measure (\<lambda>(ot, attempt, lastErr, slept, logged, db). Suc startupDependencyAttempts - attempt)") auto

declare connect_loop.simps [simp del]

definition connectPostgresDIDStore :: "outside \<Rightarrow> pgdb \<Rightarrow> (error + unit) \<times> duration \<times> log_line list \<times> pgdb" where
  "connectPostgresDIDStore ot db = connect_loop ot 1 None 0 [] db"

section \<open>The start\<close>

definition start_chain :: "outside \<Rightarrow> Config \<Rightarrow> pgdb \<Rightarrow> (error + did_backend Client) \<times> log_line list \<times> pgdb" where
  "start_chain ot cfg db =
     (if DatabaseURL cfg \<noteq> [] then
        (case connectPostgresDIDStore ot db of
           (Inl err, _, logged, db) \<Rightarrow> (Inl err, logged, db)
         | (Inr _, _, logged, db) \<Rightarrow>
             (Inr (NewClientWithStore (BlockchainRPC cfg) (Inr (ot_dids ot))),
              logged @ [Info ''DID registry using Postgres store'' []], db))
      else
        (Inr (NewClientWithStore (BlockchainRPC cfg) (Inl NewMemoryDIDStore)),
         [Info ''DID registry using in-memory store'' []], db))"

text \<open>
  \<open>main\<close> up to the server. Every error ends the process: its log is the left side. The API key store
  and the credential store open the database again, and migrate it again.
\<close>

definition startup :: "prims \<Rightarrow> outside \<Rightarrow> pgdb \<Rightarrow> (log_line list + gateway) \<times> pgdb" where
  "startup P ot db =
     (case Load (ot_env ot) of
        Inl err \<Rightarrow> (Inl [Failed ot ''failed to load config'' err], db)
      | Inr cfg \<Rightarrow>
        (case start_chain ot cfg db of
           (Inl err, logged, db) \<Rightarrow> (Inl (logged @ [Failed ot ''failed to connect to DID database'' err]), db)
         | (Inr chainClient, logged, db) \<Rightarrow>
           let zkpService = NewService (ZKPServiceURL cfg);
               logged = logged @ [Info (if RedisURL cfg \<noteq> [] then ''auth challenges using Redis store''
                  else ''auth challenges using in-memory store'') []]
           in (case NewRouter P ot cfg chainClient zkpService logged db of
                 (Inl err, db) \<Rightarrow> (Inl (logged @ [Failed ot ''failed to initialize router'' err]), db)
               | (Inr r, db) \<Rightarrow> (Inr r, db))))"

section \<open>The attempts\<close>

fun tried :: "(nat \<Rightarrow> clock) \<Rightarrow> (nat \<Rightarrow> connection) \<Rightarrow> pgdb \<Rightarrow> nat \<Rightarrow> pgdb" where
  "tried clk conn db 0 = db"
| "tried clk conn db (Suc n) = snd (NewPostgresDIDStore (clk (Suc n)) (conn (Suc n)) (tried clk conn db n))"

definition outcome_of :: "(nat \<Rightarrow> clock) \<Rightarrow> (nat \<Rightarrow> connection) \<Rightarrow> pgdb \<Rightarrow> nat \<Rightarrow> error + unit" where
  "outcome_of clk conn db n = fst (NewPostgresDIDStore (clk n) (conn n) (tried clk conn db (n - 1)))"

text \<open>What the loop returns and logs when the attempt \<open>m\<close> was its last.\<close>

definition warnings :: "outside \<Rightarrow> pgdb \<Rightarrow> nat \<Rightarrow> log_line list" where
  "warnings ot db m = map (\<lambda>k. retrying ot k (projl (outcome_of (ot_clk ot) (ot_conn ot) db k))) [1..<m]"

definition ended_at :: "outside \<Rightarrow> pgdb \<Rightarrow> nat \<Rightarrow> (error + unit) \<times> duration \<times> log_line list \<times> pgdb" where
  "ended_at ot db m =
     (case outcome_of (ot_clk ot) (ot_conn ot) db m of
        Inl err \<Rightarrow> (Inl (not_ready ot (Some err)), int (m - 1) * startupDependencyDelay, warnings ot db m,
                    tried (ot_clk ot) (ot_conn ot) db m)
      | Inr _ \<Rightarrow> (Inr (), int (m - 1) * startupDependencyDelay,
                  warnings ot db m @ (if 1 < m then [Info ''connected to DID database'' [(''attempt'', GInt (int m))]] else []),
                  tried (ot_clk ot) (ot_conn ot) db m))"

definition fails_until :: "outside \<Rightarrow> pgdb \<Rightarrow> nat \<Rightarrow> bool" where
  "fails_until ot db m \<longleftrightarrow> (\<forall>k \<in> {1..<m}. \<exists>e. outcome_of (ot_clk ot) (ot_conn ot) db k = Inl e)"

lemma connect_loop_runs:
  assumes "n < 12" "fails_until ot db (Suc n)"
  shows "\<exists>m \<in> {1..12}. connect_loop ot (Suc n) le (int n * startupDependencyDelay) (warnings ot db (Suc n))
        (tried (ot_clk ot) (ot_conn ot) db n) = ended_at ot db m
    \<and> fails_until ot db m \<and> (m = 12 \<or> outcome_of (ot_clk ot) (ot_conn ot) db m = Inr ())"
  using assms
proof (induction "12 - n" arbitrary: n le)
  case (Suc d)
  let ?o = "NewPostgresDIDStore (ot_clk ot (Suc n)) (ot_conn ot (Suc n)) (tried (ot_clk ot) (ot_conn ot) db n)"
  have o: "outcome_of (ot_clk ot) (ot_conn ot) db (Suc n) = fst ?o" "tried (ot_clk ot) (ot_conn ot) db (Suc n) = snd ?o"
    by (simp_all add: outcome_of_def)
  show ?case
  proof (cases "n = 11 \<or> fst ?o = Inr ()")
    case True
    then have "connect_loop ot (Suc n) le (int n * startupDependencyDelay) (warnings ot db (Suc n))
        (tried (ot_clk ot) (ot_conn ot) db n) = ended_at ot db (Suc n)"
      using Suc.prems(1) o unfolding connect_loop.simps [of ot "Suc n"] ended_at_def
      by (cases ?o) (auto simp: startupDependencyAttempts_def split: sum.split)
    then show ?thesis using True Suc.prems o by (intro bexI [of _ "Suc n"]) auto
  next
    case False
    then obtain e where e: "fst ?o = Inl e" by (cases "fst ?o") auto
    have w: "warnings ot db (Suc n) @ [retrying ot (Suc n) e] = warnings ot db (Suc (Suc n))"
      using o(1) e by (simp add: warnings_def)
    have "connect_loop ot (Suc n) le (int n * startupDependencyDelay) (warnings ot db (Suc n)) (tried (ot_clk ot) (ot_conn ot) db n)
        = connect_loop ot (Suc (Suc n)) (Some e) (int (Suc n) * startupDependencyDelay) (warnings ot db (Suc (Suc n)))
            (tried (ot_clk ot) (ot_conn ot) db (Suc n))"
      using Suc.prems(1) False e unfolding connect_loop.simps [of ot "Suc n"] w [symmetric]
      by (cases ?o) (auto simp: startupDependencyAttempts_def algebra_simps)
    moreover have "fails_until ot db (Suc (Suc n))"
      using Suc.prems(2) o(1) e by (auto simp: fails_until_def le_Suc_eq less_Suc_eq_le)
    ultimately show ?thesis using Suc.hyps(1) [of "Suc n" "Some e"] Suc.hyps(2) Suc.prems(1) False by auto
  qed
qed simp

lemma connect_runs:
  obtains m where "1 \<le> m" "m \<le> 12" "connectPostgresDIDStore ot db = ended_at ot db m" "fails_until ot db m"
    "m = 12 \<or> outcome_of (ot_clk ot) (ot_conn ot) db m = Inr ()"
proof -
  have "warnings ot db (Suc 0) = []" "fails_until ot db (Suc 0)" by (simp_all add: warnings_def fails_until_def)
  then have "\<exists>m \<in> {1..12}. connectPostgresDIDStore ot db = ended_at ot db m \<and> fails_until ot db m
      \<and> (m = 12 \<or> outcome_of (ot_clk ot) (ot_conn ot) db m = Inr ())"
    using connect_loop_runs [of 0 ot db None] by (simp add: connectPostgresDIDStore_def)
  then show thesis using that by (meson atLeastAtMost_iff)
qed

section \<open>The schema after the attempts\<close>

lemma OpenPostgres_law:
  assumes "OpenPostgres clk oe pe db = (r, db')" "schema_ok db"
  shows "schema_ok db'" "later db db'" "r = Inr () \<Longrightarrow> versions db' = {1, 2, 3}"
proof -
  have "later db db' \<and> (r = Inr () \<longrightarrow> versions db' = {1, 2, 3})"
  proof (cases "oe = None \<and> pe = None")
    case True
    then have "Migrate clk db = (r, db')" using assms(1) by (simp add: OpenPostgres_def)
    then show ?thesis using Migrate_law [OF assms(2)] by blast
  next
    case False
    then show ?thesis using assms(1) by (auto simp: OpenPostgres_def split: option.splits)
  qed
  then show "schema_ok db'" "later db db'" "r = Inr () \<Longrightarrow> versions db' = {1, 2, 3}"
    using assms(2) by (auto simp: later_def)
qed

lemma tried_law: "schema_ok db \<Longrightarrow> schema_ok (tried clk conn db n) \<and> later db (tried clk conn db n)"
proof (induction n)
  case (Suc n)
  obtain r db' where o: "OpenPostgres (clk (Suc n)) (fst (conn (Suc n))) (snd (conn (Suc n))) (tried clk conn db n) = (r, db')"
    by fastforce
  show ?case using OpenPostgres_law(1,2) [OF o] Suc later_trans by (simp add: NewPostgresDIDStore_def o) blast
qed simp

lemma outcome_complete:
  assumes "schema_ok db" "outcome_of clk conn db (Suc n) = Inr ()"
  shows "versions (tried clk conn db (Suc n)) = {1, 2, 3}"
proof -
  obtain r db' where o: "OpenPostgres (clk (Suc n)) (fst (conn (Suc n))) (snd (conn (Suc n))) (tried clk conn db n) = (r, db')"
    by fastforce
  have "schema_ok (tried clk conn db n)" using tried_law [OF assms(1)] by blast
  then show ?thesis using OpenPostgres_law(3) [OF o] assms(2) by (simp add: outcome_of_def NewPostgresDIDStore_def o)
qed

lemma start_chain_schema:
  assumes "start_chain ot cfg db = (r, logged, db')" "schema_ok db" shows "schema_ok db'"
proof (cases "DatabaseURL cfg = []")
  case False
  obtain m where "connectPostgresDIDStore ot db = ended_at ot db m" by (rule connect_runs)
  then have "db' = tried (ot_clk ot) (ot_conn ot) db m"
    using assms(1) False by (auto simp: start_chain_def ended_at_def split: sum.splits)
  then show ?thesis using tried_law [OF assms(2)] by blast
qed (use assms in \<open>simp add: start_chain_def\<close>)

section \<open>What the start logs\<close>

lemma connect_lines:
  assumes "connectPostgresDIDStore ot db = (r, slept, logged, db')" "line \<in> set logged"
  shows "lg_level line \<noteq> LevelError" "lg_msg line \<noteq> ''http_request''"
proof -
  obtain m where "connectPostgresDIDStore ot db = ended_at ot db m" by (rule connect_runs)
  then show "lg_level line \<noteq> LevelError" "lg_msg line \<noteq> ''http_request''"
    using assms by (auto simp: ended_at_def warnings_def retrying_def Info_def split: sum.splits if_splits)
qed

lemma chain_lines:
  assumes "start_chain ot cfg db = (r, logged, db')" "line \<in> set logged"
  shows "lg_level line \<noteq> LevelError" "lg_msg line \<noteq> ''http_request''"
proof -
  have "line \<in> {Info ''DID registry using Postgres store'' [], Info ''DID registry using in-memory store'' []}
      \<or> (\<exists>r slept logged' db'. connectPostgresDIDStore ot db = (r, slept, logged', db') \<and> line \<in> set logged')"
    using assms by (auto simp: start_chain_def split: prod.splits sum.splits if_splits)
  then show "lg_level line \<noteq> LevelError" "lg_msg line \<noteq> ''http_request''"
    using connect_lines by (auto simp: Info_def)
qed

lemma startup_lines:
  assumes "startup P ot db = (Inr g, db')" "line \<in> set (gw_log g)"
  shows "lg_level line \<noteq> LevelError" "lg_msg line \<noteq> ''http_request''"
proof -
  obtain cfg r logged db1 where c: "start_chain ot cfg db = (r, logged, db1)"
    "line \<in> set logged \<union> {Info ''auth challenges using Redis store'' [], Info ''auth challenges using in-memory store'' []}"
    using assms by (auto simp: startup_def NewRouter_def Let_def split: sum.splits prod.splits if_splits)
  then show "lg_level line \<noteq> LevelError" "lg_msg line \<noteq> ''http_request''"
    using chain_lines [OF c(1)] by (auto simp: Info_def)
qed

end
