(* ===== verification/StartupProperties.thy ===== *)
theory StartupProperties
  imports Startup Demo
begin

text \<open>
  The start of the gateway: how long it waits for its database, and what any number of starts, failed
  or not, by this gateway or by others, leave behind there.
\<close>

section \<open>Waiting for the database\<close>

lemma outcome_calm:
  assumes "schema_ok db" "conn (Suc n) = (None, None)" "calm (tried clk conn db n)"
  shows "outcome_of clk conn db (Suc n) = Inr ()"
  using assms Migrate_calm(1) tried_law [OF assms(1)]
  by (simp add: outcome_of_def NewPostgresDIDStore_def OpenPostgres_def)

text \<open>
  C17: \<open>connectPostgresDIDStore\<close> always returns, after at most 12 attempts and 22 seconds of sleep. It
  makes no attempt after one that succeeds, fails with the error of its last attempt, wrapped, and
  answers nil only with every migration applied. It logs one warning, with its error, for each failed
  attempt that is followed by another. It succeeds at the latest at the first attempt that finds the
  database reachable and in order, and fails only when all 12 attempts do.
\<close>

theorem connect_returns:
  assumes "schema_ok db" "connectPostgresDIDStore ot db = (r, slept, logged, db')"
  shows "(\<exists>m. 1 \<le> m \<and> m \<le> 12 \<and> db' = tried (ot_clk ot) (ot_conn ot) db m \<and> slept = int (m - 1) * (2 * second)
      \<and> (\<forall>k \<in> {1..<m}. outcome_of (ot_clk ot) (ot_conn ot) db k \<noteq> Inr ())
      \<and> (r = Inr () \<longleftrightarrow> outcome_of (ot_clk ot) (ot_conn ot) db m = Inr ())
      \<and> (r \<noteq> Inr () \<longrightarrow> m = 12 \<and> (\<exists>err. outcome_of (ot_clk ot) (ot_conn ot) db m = Inl err
          \<and> r = Inl (Errorf ot ''database not ready after 12 attempts'' err)))
      \<and> filter (\<lambda>line. lg_level line = LevelWarn) logged
          = map (\<lambda>k. retrying ot k (projl (outcome_of (ot_clk ot) (ot_conn ot) db k))) [1..<m])
    \<and> slept \<le> 22 * second
    \<and> (r = Inr () \<longrightarrow> schema_ok db' \<and> versions db' = {1, 2, 3})
    \<and> (\<forall>k < 12. ot_conn ot (Suc k) = (None, None) \<and> calm (tried (ot_clk ot) (ot_conn ot) db k) \<longrightarrow>
        r = Inr () \<and> slept \<le> int k * (2 * second))"
proof -
  let ?o = "outcome_of (ot_clk ot) (ot_conn ot) db" and ?t = "tried (ot_clk ot) (ot_conn ot) db"
  obtain m where m: "1 \<le> m" "m \<le> 12" "connectPostgresDIDStore ot db = ended_at ot db m" "fails_until ot db m"
    "m = 12 \<or> ?o m = Inr ()"
    by (rule connect_runs)
  obtain n where n: "m = Suc n" using m(1) by (cases m) auto
  have e: "db' = ?t m" "slept = int (m - 1) * (2 * second)" "r = Inr () \<longleftrightarrow> ?o m = Inr ()"
    "r \<noteq> Inr () \<longrightarrow> (\<exists>err. ?o m = Inl err \<and> r = Inl (not_ready ot (Some err)))"
    using m(3) assms(2) by (auto simp: ended_at_def startupDependencyDelay_def split: sum.splits)
  have wrap: "not_ready ot (Some err) = Errorf ot ''database not ready after 12 attempts'' err" for err
  proof -
    have "FormatInt 12 = ''12''" by code_simp
    then show ?thesis by (simp add: not_ready_def startupDependencyAttempts_def)
  qed
  have fails: "\<forall>k \<in> {1..<m}. ?o k \<noteq> Inr ()" using m(4) unfolding fails_until_def by (metis Inl_Inr_False)
  have warn: "filter (\<lambda>line. lg_level line = LevelWarn) logged = warnings ot db m"
  proof -
    have "filter (\<lambda>line. lg_level line = LevelWarn) (warnings ot db m) = warnings ot db m"
      by (auto simp: filter_id_conv warnings_def retrying_def)
    then show ?thesis using m(3) assms(2) by (auto simp: ended_at_def Info_def split: sum.splits)
  qed
  have complete: "r = Inr () \<Longrightarrow> schema_ok db' \<and> versions db' = {1, 2, 3}"
    using outcome_complete [OF assms(1)] tried_law [OF assms(1)] e(1,3) n by (simp del: tried.simps)
  have early: "r = Inr () \<and> slept \<le> int k * (2 * second)"
    if k: "k < 12" "ot_conn ot (Suc k) = (None, None)" "calm (?t k)" for k
  proof -
    have ok: "?o (Suc k) = Inr ()" by (rule outcome_calm [OF assms(1) k(2,3)])
    then have "\<not> Suc k < m" using fails by (metis One_nat_def atLeastLessThan_iff le_add1 plus_1_eq_Suc)
    then have le: "m \<le> Suc k" by simp
    have "?o m = Inr ()" using m(5) ok le k(1) by (cases "m = Suc k") auto
    moreover have "int (m - 1) * (2 * second) \<le> int k * (2 * second)"
      using le by (intro mult_right_mono) (simp_all add: second_def)
    ultimately show ?thesis using e(2,3) by simp
  qed
  have "int (m - 1) * (2 * second) \<le> 11 * (2 * second)"
    using m(2) by (intro mult_right_mono) (simp_all add: second_def)
  then have "slept \<le> 22 * second" using e(2) by simp
  moreover have "r \<noteq> Inr () \<longrightarrow> m = 12" using m(5) e(3) by blast
  ultimately show ?thesis
    using m(1,2) e fails warn complete early unfolding wrap warnings_def by blast
qed

text \<open>When the DID database cannot be reached, all 12 attempts have failed.\<close>

lemma start_chain_failed:
  assumes "start_chain ot cfg db = (Inl err, logged, db')"
  shows "(\<forall>k \<in> {1..12}. outcome_of (ot_clk ot) (ot_conn ot) db k \<noteq> Inr ()) \<and> db' = tried (ot_clk ot) (ot_conn ot) db 12"
proof -
  let ?o = "outcome_of (ot_clk ot) (ot_conn ot) db"
  obtain m where m: "connectPostgresDIDStore ot db = ended_at ot db m" "fails_until ot db m" "m = 12 \<or> ?o m = Inr ()"
    by (rule connect_runs)
  then have f: "\<exists>e. ?o m = Inl e" "db' = tried (ot_clk ot) (ot_conn ot) db m"
    using assms by (auto simp: start_chain_def ended_at_def split: sum.splits if_splits)
  then have "m = 12" using m(3) by auto
  moreover have "?o k \<noteq> Inr ()" if "k \<in> {1..12}" for k
  proof (cases "k = 12")
    case True
    then show ?thesis using f(1) \<open>m = 12\<close> by auto
  next
    case False
    then have "k \<in> {1..<m}" using that \<open>m = 12\<close> by simp
    then obtain e where "?o k = Inl e" using m(2) unfolding fails_until_def by blast
    then show ?thesis by simp
  qed
  ultimately show ?thesis using f(2) by blast
qed

definition empty_database :: "pg_event list \<Rightarrow> pgdb" where
  "empty_database script = \<lparr>pg_catalog = [], pg_versions = [], pg_script = script\<rparr>"

lemma empty_database_ok: "schema_ok (empty_database script)"
  by (simp add: empty_database_def schema_ok_def schema_simps)

text \<open>A database that is not there for two attempts; the third one connects, after two warnings.\<close>

definition demo_late :: outside where
  "demo_late = \<lparr>ot_env = [], ot_clk = (\<lambda>_. demo_clock),
     ot_conn = (\<lambda>n. if n < 3 then (None, Some (ErrOther ''refused'')) else (None, None)),
     ot_keys_clk = demo_clock, ot_keys_conn = (None, None), ot_seeds_clk = demo_clock, ot_credentials_clk = demo_clock,
     ot_credentials_conn = (None, None), ot_redis_err = None, ot_dids = \<lparr>sql_rows = [], sql_faults = []\<rparr>, ot_keys = \<lparr>sql_rows = [], sql_faults = []\<rparr>,
     ot_credentials = \<lparr>sql_rows = [], sql_faults = []\<rparr>, ot_redis = \<lparr>rd_data = [], rd_faults = []\<rparr>, ot_now = demo_clock 0,
     ot_text = (\<lambda>e. case e of ErrOther s \<Rightarrow> s | _ \<Rightarrow> ''error'')\<rparr>"

theorem connect_returns_witness:
  "\<exists>logged db'. connectPostgresDIDStore demo_late (empty_database []) = (Inr (), 4 * second, logged, db')
     \<and> filter (\<lambda>line. lg_level line = LevelWarn) logged
        = [retrying demo_late 1 (ErrOther ''refused''), retrying demo_late 2 (ErrOther ''refused'')]"
proof -
  let ?o = "outcome_of (ot_clk demo_late) (ot_conn demo_late) (empty_database [])"
    and ?t = "tried (ot_clk demo_late) (ot_conn demo_late) (empty_database [])"
  have t2: "?t 2 = empty_database []"
    by (simp add: numeral_2_eq_2 NewPostgresDIDStore_def OpenPostgres_def demo_late_def)
  then have calm: "calm (?t 2)" by (simp add: calm_def empty_database_def)
  have o: "?o 1 = Inl (ErrOther ''refused'')" "?o 2 = Inl (ErrOther ''refused'')"
    by (simp_all add: outcome_of_def NewPostgresDIDStore_def OpenPostgres_def demo_late_def)
  obtain r slept logged db' where c: "connectPostgresDIDStore demo_late (empty_database []) = (r, slept, logged, db')"
    by (metis surj_pair)
  note law = connect_returns [OF empty_database_ok c]
  have "\<forall>k < 12. ot_conn demo_late (Suc k) = (None, None) \<and> calm (?t k) \<longrightarrow> r = Inr () \<and> slept \<le> int k * (2 * second)"
    using law by blast
  from spec [OF this, of 2] calm have late: "r = Inr ()" "slept \<le> 4 * second" by (simp_all add: demo_late_def)
  obtain m where m: "1 \<le> m" "slept = int (m - 1) * (2 * second)" "r = Inr () \<longleftrightarrow> ?o m = Inr ()"
    "filter (\<lambda>line. lg_level line = LevelWarn) logged = map (\<lambda>k. retrying demo_late k (projl (?o k))) [1..<m]"
    using law by blast
  have "m = 3"
  proof (rule ccontr)
    assume "m \<noteq> 3"
    moreover have "m \<noteq> 1" "m \<noteq> 2" using m(3) late(1) o by auto
    ultimately have "4 \<le> m" using m(1) by simp
    then have "3 * (2 * second) \<le> slept" unfolding m(2) by (intro mult_right_mono) (simp_all add: second_def)
    then show False using late(2) by (simp add: second_def)
  qed
  moreover have "[1..<3] = [1, 2::nat]" by code_simp
  ultimately have "filter (\<lambda>line. lg_level line = LevelWarn) logged
      = [retrying demo_late 1 (ErrOther ''refused''), retrying demo_late 2 (ErrOther ''refused'')]"
    using m(4) o by (simp only: list.map sum.sel)
  moreover have "slept = 4 * second" using m(2) \<open>m = 3\<close> by simp
  ultimately show ?thesis using c late(1) by blast
qed

section \<open>A start that fails\<close>

text \<open>
  C27: a start that fails says why, and one that does not fail logs no error. A failed start leaves one
  error line, its last: that the configuration is invalid, with the error of \<open>validate\<close> and with the
  database not touched; that the DID database could not be reached, after 12 failed attempts; or that
  the router could not be built, with the error of the challenge, API key or credential store, and
  with no store tried after the one that failed.
\<close>

theorem failed_start_is_reported:
  "(startup P ot db = (Inl logged, db') \<longrightarrow>
      (\<exists>before msg err. logged = before @ [Failed ot msg err] \<and> (\<forall>line \<in> set before. lg_level line \<noteq> LevelError)
        \<and> (msg = ''failed to load config'' \<and> before = [] \<and> db' = db \<and> Load (ot_env ot) = Inl err
          \<or> (\<exists>cfg. Load (ot_env ot) = Inr cfg
              \<and> (msg = ''failed to connect to DID database'' \<and> DatabaseURL cfg \<noteq> []
                  \<and> (\<forall>k \<in> {1..12}. outcome_of (ot_clk ot) (ot_conn ot) db k \<noteq> Inr ()) \<and> db' = tried (ot_clk ot) (ot_conn ot) db 12
                \<or> msg = ''failed to initialize router''
                  \<and> (\<exists>c l db1. start_chain ot cfg db = (Inr c, l, db1)
                    \<and> (newChallengeStore ot cfg = Inl err \<and> db' = db1
                      \<or> newAPIKeyStore P ot cfg db1 = (Inl err, db')
                      \<or> (\<exists>s db2. newAPIKeyStore P ot cfg db1 = (Inr s, db2) \<and> newCredentialStore ot cfg db2 = (Inl err, db')))))))))
   \<and> (startup P ot db = (Inr g, db') \<longrightarrow> (\<forall>line \<in> set (gw_log g). lg_level line \<noteq> LevelError))"
proof (rule conjI; rule impI)
  assume s: "startup P ot db = (Inl logged, db')"
  show "\<exists>before msg err. logged = before @ [Failed ot msg err] \<and> (\<forall>line \<in> set before. lg_level line \<noteq> LevelError)
        \<and> (msg = ''failed to load config'' \<and> before = [] \<and> db' = db \<and> Load (ot_env ot) = Inl err
          \<or> (\<exists>cfg. Load (ot_env ot) = Inr cfg
              \<and> (msg = ''failed to connect to DID database'' \<and> DatabaseURL cfg \<noteq> []
                  \<and> (\<forall>k \<in> {1..12}. outcome_of (ot_clk ot) (ot_conn ot) db k \<noteq> Inr ()) \<and> db' = tried (ot_clk ot) (ot_conn ot) db 12
                \<or> msg = ''failed to initialize router''
                  \<and> (\<exists>c l db1. start_chain ot cfg db = (Inr c, l, db1)
                    \<and> (newChallengeStore ot cfg = Inl err \<and> db' = db1
                      \<or> newAPIKeyStore P ot cfg db1 = (Inl err, db')
                      \<or> (\<exists>s db2. newAPIKeyStore P ot cfg db1 = (Inr s, db2) \<and> newCredentialStore ot cfg db2 = (Inl err, db')))))))"
  proof (cases "Load (ot_env ot)")
    case (Inl err)
    then show ?thesis using s by (intro exI [of _ "[]"] exI [of _ "''failed to load config''"] exI [of _ err]) (simp add: startup_def)
  next
    case (Inr cfg)
    obtain rc l db1 where c: "start_chain ot cfg db = (rc, l, db1)" by (metis surj_pair)
    note lines = chain_lines(1) [OF c]
    show ?thesis
    proof (cases rc)
      case (Inl err)
      then have "logged = l @ [Failed ot ''failed to connect to DID database'' err]" "db' = db1"
        using s \<open>Load (ot_env ot) = Inr cfg\<close> c by (simp_all add: startup_def)
      moreover have "DatabaseURL cfg \<noteq> []" using c Inl by (auto simp: start_chain_def split: if_splits)
      moreover have "(\<forall>k \<in> {1..12}. outcome_of (ot_clk ot) (ot_conn ot) db k \<noteq> Inr ()) \<and> db1 = tried (ot_clk ot) (ot_conn ot) db 12"
        by (rule start_chain_failed) (use c Inl in blast)
      ultimately show ?thesis using Inr lines by blast
    next
      case (Inr chain)
      let ?l = "l @ [Info (if RedisURL cfg \<noteq> [] then ''auth challenges using Redis store''
                  else ''auth challenges using in-memory store'') []]"
      obtain err where n: "NewRouter P ot cfg chain (NewService (ZKPServiceURL cfg)) ?l db1 = (Inl err, db')"
        "logged = ?l @ [Failed ot ''failed to initialize router'' err]"
        using s \<open>Load (ot_env ot) = Inr cfg\<close> c Inr by (auto simp: startup_def Let_def split: prod.splits sum.splits)
      have "newChallengeStore ot cfg = Inl err \<and> db' = db1 \<or> newAPIKeyStore P ot cfg db1 = (Inl err, db')
          \<or> (\<exists>s db2. newAPIKeyStore P ot cfg db1 = (Inr s, db2) \<and> newCredentialStore ot cfg db2 = (Inl err, db'))"
        using n(1) by (auto simp: NewRouter_def split: sum.splits prod.splits)
      moreover have "\<forall>line \<in> set ?l. lg_level line \<noteq> LevelError" using lines by (auto simp: Info_def)
      ultimately show ?thesis using n(2) \<open>Load (ot_env ot) = Inr cfg\<close> c Inr by blast
    qed
  qed
qed (use startup_lines(1) in blast)

text \<open>In production without an administration token.\<close>

theorem failed_start_is_reported_witness:
  "\<exists>before err. fst (startup demo_prims (demo_late\<lparr>ot_env := [(''UDDI_ENV'', ''production'')]\<rparr>) (empty_database []))
     = Inl (before @ [Failed (demo_late\<lparr>ot_env := [(''UDDI_ENV'', ''production'')]\<rparr>) ''failed to load config'' err]) \<and> before = []"
proof -
  let ?ot = "demo_late\<lparr>ot_env := [(''UDDI_ENV'', ''production'')]\<rparr>"
  have "TrimSpace ''production'' = ''production''" "TrimSpace [] = []" "EqualFold ''production'' ''production''" by code_simp+
  then have load: "\<exists>err. Load (ot_env ?ot) = Inl err"
    by (simp add: Load_def loaded_def validate_def IsProduction_def env_def Getenv_def)
  then obtain logged where s: "startup demo_prims ?ot (empty_database []) = (Inl logged, empty_database [])"
    by (auto simp: startup_def)
  show ?thesis
    using failed_start_is_reported [of demo_prims ?ot "empty_database []" logged "empty_database []" undefined] s load by auto
qed

section \<open>Migrations\<close>

text \<open>
  What may happen to a database from its creation on: gateways open it, each with a connection that
  fails or works, statement by statement, and with other gateways at work on the same database.
\<close>

inductive deployed :: "pgdb \<Rightarrow> bool" where
  created: "deployed (empty_database script)"
| opened: "deployed db \<Longrightarrow> OpenPostgres clk open_err ping_err db = (r, db') \<Longrightarrow> deployed db'"
| reconnected: "deployed db \<Longrightarrow> deployed (db\<lparr>pg_script := script\<rparr>)"

lemma deployed_ok: "deployed db \<Longrightarrow> schema_ok db"
proof (induction rule: deployed.induct)
  case (opened db clk oe pe r db')
  then show ?case using OpenPostgres_law(1) by blast
qed (simp_all add: empty_database_ok, simp add: schema_ok_def)

text \<open>
  C10: migrations are atomic and final. In every database that any gateways have opened any number of
  times, with failures at any statement, the relations are exactly those of the recorded migrations,
  each recorded once: no migration is applied in part, or applied and not recorded, and none is
  lost. An opening that answers nil has all three; one without a failure answers nil; and a complete
  database is left as it is.
\<close>

theorem migrations_are_atomic:
  assumes "deployed db" "OpenPostgres clk open_err ping_err db = (r, db')"
  shows "(\<forall>n. n \<noteq> ''schema_migrations'' \<longrightarrow> gm_get (pg_catalog db') n = schema (versions db') n)
    \<and> distinct (map fst (pg_versions db')) \<and> versions db \<subseteq> versions db' \<and> versions db' \<subseteq> {1, 2, 3}
    \<and> (r = Inr () \<longrightarrow> versions db' = {1, 2, 3})
    \<and> (open_err = None \<and> ping_err = None \<and> calm db \<longrightarrow> r = Inr ())
    \<and> (versions db = {1, 2, 3} \<longrightarrow> pg_catalog db' = pg_catalog db \<and> pg_versions db' = pg_versions db)"
proof -
  have ok: "schema_ok db" by (rule deployed_ok [OF assms(1)])
  note l = OpenPostgres_law [OF assms(2) ok]
  have good: "open_err = None \<and> ping_err = None \<and> calm db \<Longrightarrow> r = Inr ()"
    using Migrate_calm(1) [OF ok, of clk] assms(2) by (simp add: OpenPostgres_def)
  have same: "versions db = {1, 2, 3} \<Longrightarrow> pg_catalog db' = pg_catalog db \<and> pg_versions db' = pg_versions db"
    using Migrate_complete [OF ok, of clk] assms(2)
    by (auto simp: OpenPostgres_def same_schema_def split: option.splits)
  have "versions db \<subseteq> versions db'" using l(2) by (simp add: later_def)
  moreover have "distinct (map fst (pg_versions db'))"
    "\<forall>n. n \<noteq> ''schema_migrations'' \<longrightarrow> gm_get (pg_catalog db') n = schema (versions db') n"
    using l(1) by (simp_all add: schema_ok_def)
  ultimately show ?thesis using recorded_known [OF l(1)] l(3) good same by blast
qed

text \<open>The commit of the second migration fails without an answer; the next opening finishes.\<close>

theorem migrations_are_atomic_witness:
  "versions (snd (OpenPostgres demo_clock None None
     ((snd (OpenPostgres demo_clock None None (empty_database [Quiet, Quiet, Quiet, Quiet, Quiet, Quiet, FailsAfter])))\<lparr>pg_script := []\<rparr>)))
   = {1, 2, 3}"
proof -
  let ?db = "(snd (OpenPostgres demo_clock None None (empty_database [Quiet, Quiet, Quiet, Quiet, Quiet, Quiet, FailsAfter])))\<lparr>pg_script := []\<rparr>"
  have "deployed ?db"
    by (rule deployed.reconnected [OF deployed.opened [OF deployed.created surjective_pairing]])
  moreover have "calm ?db" by (simp add: calm_def)
  ultimately show ?thesis using migrations_are_atomic [OF _ surjective_pairing, of ?db demo_clock None None] by simp
qed

end
