(* ===== verification/GatewayLaws.thy ===== *)
theory GatewayLaws
  imports Gateway
begin

text \<open>
  One request to the whole gateway: what it may change, in which component, with which
  authorisation. The laws of the components are composed along the router: an endpoint works on its
  part of the state, a guard runs it only with a valid key or the token, and the middleware outside
  touches nothing but the metrics and the limiter.
\<close>

section \<open>The state by its views\<close>

abbreviation gdocs :: "gateway \<Rightarrow> string \<Rightarrow> DIDDocument option" where
  "gdocs g \<equiv> did_backend_view (cl_store (gw_chain g))"

abbreviation gheld :: "gateway \<Rightarrow> string \<Rightarrow> authChallenge option" where
  "gheld g \<equiv> challenge_backend_view (gw_challenges g)"

abbreviation grecs :: "gateway \<Rightarrow> string \<Rightarrow> CredentialRecord option" where
  "grecs g \<equiv> credential_backend_view (gw_credentials g)"

abbreviation gkeys_view :: "gateway \<Rightarrow> key_view" where
  "gkeys_view g \<equiv> key_backend_view (gw_keys g)"

text \<open>The state of a gateway that has been started and has served requests.\<close>

definition gateway_ok :: "gateway \<Rightarrow> bool" where
  "gateway_ok g \<longleftrightarrow>
     did_backend_inv (cl_store (gw_chain g)) \<and> registry_ok (gdocs g)
     \<and> challenge_backend_inv (gw_challenges g) \<and> (\<forall>i ch. gheld g i = Some ch \<longrightarrow> (\<exists>t. issued t ch))
     \<and> (memory_credentials (gw_credentials g) \<or> postgres_credentials (gw_credentials g))
     \<and> (\<forall>i rec. grecs g i = Some rec \<longrightarrow> record_wf rec)
     \<and> key_backend_inv (gw_keys g)"

text \<open>What the credential store keeps of a record.\<close>

definition kept :: "jsonb \<Rightarrow> gateway \<Rightarrow> CredentialRecord \<Rightarrow> CredentialRecord option" where
  "kept J g = (case gw_credentials g of Inl _ \<Rightarrow> Some | Inr _ \<Rightarrow> crpg_stored J)"

section \<open>The endpoints\<close>

lemma chain_law:
  assumes ok: "gateway_ok g" and sv: "did_serve P did_backend_store clk op (gw_chain g) = (out, c)"
  shows "gateway_ok (g\<lparr>gw_chain := c\<rparr>)" "out \<noteq> Panic"
    "did_backend_view (cl_store c) = gdocs g \<or> authorised P op (gdocs g) (did_backend_view (cl_store c))"
proof -
  have inv: "did_backend_inv (cl_store (gw_chain g))" "registry_ok (gdocs g)" using ok by (simp_all add: gateway_ok_def)
  note l = gdid.serve_authorised [OF inv sv]
  have "registry_ok (did_backend_view (cl_store c))" using l(2) inv(2) authorised_registry_ok by metis
  then show "gateway_ok (g\<lparr>gw_chain := c\<rparr>)" using l(1) ok by (simp add: gateway_ok_def)
  show "out \<noteq> Panic" "did_backend_view (cl_store c) = gdocs g \<or> authorised P op (gdocs g) (did_backend_view (cl_store c))"
    using l by auto
qed

definition credential_op :: "cred_op \<Rightarrow> bool" where
  "credential_op op \<longleftrightarrow> (case op of OpDids _ \<Rightarrow> False | _ \<Rightarrow> True)"

lemma credentials_law:
  assumes ok: "gateway_ok g" and op: "credential_op op"
    and sv: "cred_serve P did_backend_store (credential_backend_store J) clk op
      (NewCredentialHandler (gw_chain g) (gw_credentials g)) = (out, h)"
  shows "gateway_ok (g\<lparr>gw_chain := crh_chain h, gw_credentials := crh_store h\<rparr>)" "out \<noteq> Panic"
    and "did_backend_view (cl_store (crh_chain h)) = gdocs g"
    and "credential_backend_view (crh_store h) = grecs g
      \<or> (\<exists>body. op = OpIssue body \<and> issuance P (kept J g) (gdocs g) (grecs g) (clk 0) body (credential_backend_view (crh_store h)))
      \<or> (\<exists>body. op = OpRevokeCredential body \<and> withdrawal (grecs g) (clk 0) body (credential_backend_view (crh_store h)))"
proof -
  let ?h = "NewCredentialHandler (gw_chain g) (gw_credentials g)"
  have h: "crh_chain ?h = gw_chain g" "crh_store ?h = gw_credentials g" by (simp_all add: NewCredentialHandler_def)
  consider (memory) m where "gw_credentials g = Inl m" "memory_credentials (gw_credentials g)"
    | (postgres) p where "gw_credentials g = Inr p" "postgres_credentials (gw_credentials g)"
    using ok by (cases "gw_credentials g") (auto simp: gateway_ok_def memory_credentials_def postgres_credentials_def)
  then have "gateway_ok (g\<lparr>gw_chain := crh_chain h, gw_credentials := crh_store h\<rparr>) \<and> out \<noteq> Panic
    \<and> did_backend_view (cl_store (crh_chain h)) = gdocs g
    \<and> (credential_backend_view (crh_store h) = grecs g
      \<or> (\<exists>body. op = OpIssue body \<and> issuance P (kept J g) (gdocs g) (grecs g) (clk 0) body (credential_backend_view (crh_store h)))
      \<or> (\<exists>body. op = OpRevokeCredential body \<and> withdrawal (grecs g) (clk 0) body (credential_backend_view (crh_store h))))"
  proof cases
    case memory
    have inv: "gmemcreds.hinv ?h" using ok memory h by (simp add: gmemcreds.hinv_def gmemcreds.sinv_def gateway_ok_def)
    then have s: "gmemcreds.sinv ?h" "registry_ok (gdocs g)" using h by (simp_all add: gmemcreds.hinv_def)
    have k: "kept J g = Some" using memory by (simp add: kept_def)
    note sc = gmemcreds.serve_cases [OF s(1) _ sv, unfolded h, OF s(2)]
    show ?thesis using sc gmemcreds.serve_hinv [OF inv sv] op ok unfolding k
      by (auto simp: gmemcreds.hinv_def gmemcreds.sinv_def gateway_ok_def credential_op_def)
  next
    case postgres
    have inv: "gpgcreds.hinv ?h" using ok postgres h by (simp add: gpgcreds.hinv_def gpgcreds.sinv_def gateway_ok_def)
    then have s: "gpgcreds.sinv ?h" "registry_ok (gdocs g)" using h by (simp_all add: gpgcreds.hinv_def)
    have k: "kept J g = crpg_stored J" using postgres by (simp add: kept_def)
    note sc = gpgcreds.serve_cases [OF s(1) _ sv, unfolded h, OF s(2)]
    show ?thesis using sc gpgcreds.serve_hinv [OF inv sv] op ok unfolding k
      by (auto simp: gpgcreds.hinv_def gpgcreds.sinv_def gateway_ok_def credential_op_def)
  qed
  then show "gateway_ok (g\<lparr>gw_chain := crh_chain h, gw_credentials := crh_store h\<rparr>)" "out \<noteq> Panic"
    "did_backend_view (cl_store (crh_chain h)) = gdocs g"
    "credential_backend_view (crh_store h) = grecs g
      \<or> (\<exists>body. op = OpIssue body \<and> issuance P (kept J g) (gdocs g) (grecs g) (clk 0) body (credential_backend_view (crh_store h)))
      \<or> (\<exists>body. op = OpRevokeCredential body \<and> withdrawal (grecs g) (clk 0) body (credential_backend_view (crh_store h)))"
    by blast+
qed

lemma verify_law:
  assumes ok: "gateway_ok g" and op: "op_ok op" "\<And>dop. op \<noteq> OpRegistry dop"
    and sv: "auth_serve P did_backend_store challenge_backend_store clk op
      (NewVerifyHandlerWithChallengeStore (gw_chain g) (gw_zkp g) (gw_challenges g)) = (out, h)"
  shows "gateway_ok (g\<lparr>gw_chain := vh_chain h, gw_challenges := vh_challengeStore h\<rparr>)" "out \<noteq> Panic"
    and "did_backend_view (cl_store (vh_chain h)) = gdocs g"
    and "challenge_backend_view (vh_challengeStore h) = gheld g
      \<or> (\<exists>rnd1 rnd2 r i ch. op = OpChallenge rnd1 rnd2 r \<and> issued (clk 0) ch
          \<and> challenge_backend_view (vh_challengeStore h) = (gheld g)(i \<mapsto> ch))
      \<or> (\<exists>body i. op = OpAuth body \<and> challenge_backend_view (vh_challengeStore h) = (gheld g)(i := None))"
proof -
  let ?h = "NewVerifyHandlerWithChallengeStore (gw_chain g) (gw_zkp g) (gw_challenges g)"
  have h: "vh_chain ?h = gw_chain g" "vh_challengeStore ?h = gw_challenges g"
    by (simp_all add: NewVerifyHandlerWithChallengeStore_def)
  have inv: "gauth.hinv ?h" using ok h by (simp add: gauth.hinv_def gateway_ok_def)
  note si = gauth.serve_inv(1,2) [OF inv op(1) sv]
  have p: "did_backend_inv (cl_store (gw_chain g))" "challenge_backend_inv (gw_challenges g)"
    using ok by (simp_all add: gateway_ok_def)
  have law: "did_backend_view (cl_store (vh_chain h)) = gdocs g
    \<and> (challenge_backend_view (vh_challengeStore h) = gheld g
      \<or> (\<exists>rnd1 rnd2 r i ch. op = OpChallenge rnd1 rnd2 r \<and> issued (clk 0) ch
          \<and> challenge_backend_view (vh_challengeStore h) = (gheld g)(i \<mapsto> ch))
      \<or> (\<exists>body i. op = OpAuth body \<and> challenge_backend_view (vh_challengeStore h) = (gheld g)(i := None)))"
  proof (cases op)
    case (OpChallenge rnd1 rnd2 r)
    then have "CreateChallenge challenge_backend_store clk rnd1 rnd2 ?h r = (out, h)" "body_ok (rq_body r)"
      using sv op(1) by (simp_all add: auth_serve_def op_ok_def)
    note cl = gauth.CreateChallenge_law [OF _ this(2,1), unfolded h, OF p(2)]
    show ?thesis
    proof (cases "challenge_backend_view (vh_challengeStore h) = gheld g")
      case False
      with cl obtain req where req: "cc_ServiceID req \<noteq> []"
        "challenge_backend_view (vh_challengeStore h) = (gheld g)(randomID rnd1 (clk 1) \<mapsto> new_challenge clk rnd1 rnd2 req)"
        by blast
      moreover have "issued (clk 0) (new_challenge clk rnd1 rnd2 req)" by (rule issued_new [OF req(1)])
      moreover have "did_backend_view (cl_store (vh_chain h)) = gdocs g" using cl by simp
      ultimately show ?thesis using OpChallenge by blast
    qed (use cl in simp)
  next
    case (OpAuth body)
    then have "VerifyAuth P did_backend_store challenge_backend_store clk ?h body = (out, h)"
      using sv by (simp add: auth_serve_def)
    note vl = gauth.VerifyAuth_law(1,2) [OF _ _ this, unfolded h, OF p]
    then show ?thesis using OpAuth by blast
  next
    case (OpRegistry dop)
    then show ?thesis using op(2) by simp
  qed
  then show "did_backend_view (cl_store (vh_chain h)) = gdocs g"
    "challenge_backend_view (vh_challengeStore h) = gheld g
      \<or> (\<exists>rnd1 rnd2 r i ch. op = OpChallenge rnd1 rnd2 r \<and> issued (clk 0) ch
          \<and> challenge_backend_view (vh_challengeStore h) = (gheld g)(i \<mapsto> ch))
      \<or> (\<exists>body i. op = OpAuth body \<and> challenge_backend_view (vh_challengeStore h) = (gheld g)(i := None))"
    by blast+
  show "out \<noteq> Panic" by (rule si(2))
  show "gateway_ok (g\<lparr>gw_chain := vh_chain h, gw_challenges := vh_challengeStore h\<rparr>)"
    using si(1) ok law by (simp add: gauth.hinv_def gateway_ok_def)
qed

text \<open>The two changes of the administration.\<close>

definition key_change :: "prims \<Rightarrow> time \<Rightarrow> key_view \<Rightarrow> key_view \<Rightarrow> bool" where
  "key_change P now v v' \<longleftrightarrow>
     (\<exists>i n k. v i = None \<and> v' = v(i \<mapsto> (new_key_record now i n, hashAPIKey P k)))
     \<or> (\<exists>i rec k. v i = Some (rec, k) \<and> v' = v(i \<mapsto> (revoked_key now rec, k)))"

lemma key_change_create:
  "v i = None \<Longrightarrow> v' = v(i \<mapsto> (new_key_record now i n, hashAPIKey P k)) \<Longrightarrow> key_change P now v v'"
  unfolding key_change_def by blast

lemma key_change_revoke:
  "v i = Some (rec, k) \<Longrightarrow> v' = v(i \<mapsto> (revoked_key now rec, k)) \<Longrightarrow> key_change P now v v'"
  unfolding key_change_def by blast

lemma keys_law:
  assumes ok: "key_backend_inv (gw_keys g)"
  shows "APIKeyHandler_List (key_backend_store P) (NewAPIKeyHandler (gw_keys g)) = (out, h) \<Longrightarrow>
      key_backend_inv (akh_store h) \<and> out \<noteq> Panic \<and> key_backend_view (akh_store h) = gkeys_view g"
    and "APIKeyHandler_Create (key_backend_store P) clk rnd (NewAPIKeyHandler (gw_keys g)) body = (out, h) \<Longrightarrow>
      key_backend_inv (akh_store h) \<and> out \<noteq> Panic
      \<and> (key_backend_view (akh_store h) = gkeys_view g \<or> key_change P (clk 0) (gkeys_view g) (key_backend_view (akh_store h)))"
    and "APIKeyHandler_Revoke (key_backend_store P) clk (NewAPIKeyHandler (gw_keys g)) body = (out, h) \<Longrightarrow>
      key_backend_inv (akh_store h) \<and> out \<noteq> Panic
      \<and> (key_backend_view (akh_store h) = gkeys_view g \<or> key_change P (clk 0) (gkeys_view g) (key_backend_view (akh_store h)))"
proof -
  have h: "akh_store (NewAPIKeyHandler (gw_keys g)) = gw_keys g" by (simp add: NewAPIKeyHandler_def)
  have inv: "key_backend_inv (akh_store (NewAPIKeyHandler (gw_keys g)))" using ok h by simp
  show "APIKeyHandler_List (key_backend_store P) (NewAPIKeyHandler (gw_keys g)) = (out, h) \<Longrightarrow>
      key_backend_inv (akh_store h) \<and> out \<noteq> Panic \<and> key_backend_view (akh_store h) = gkeys_view g"
    using gkeys.List_handler_law [OF inv] h by metis
  show "APIKeyHandler_Create (key_backend_store P) clk rnd (NewAPIKeyHandler (gw_keys g)) body = (out, h) \<Longrightarrow>
      key_backend_inv (akh_store h) \<and> out \<noteq> Panic
      \<and> (key_backend_view (akh_store h) = gkeys_view g \<or> key_change P (clk 0) (gkeys_view g) (key_backend_view (akh_store h)))"
  proof -
    assume c: "APIKeyHandler_Create (key_backend_store P) clk rnd (NewAPIKeyHandler (gw_keys g)) body = (out, h)"
    note l = gkeys.Create_handler_law(1-3) [OF inv c, unfolded h]
    from l(3) have "key_backend_view (akh_store h) = gkeys_view g \<or> key_change P (clk 0) (gkeys_view g) (key_backend_view (akh_store h))"
      by (elim disjE exE conjE) (simp_all add: key_change_create)
    then show ?thesis using l(1,2) by simp
  qed
  show "APIKeyHandler_Revoke (key_backend_store P) clk (NewAPIKeyHandler (gw_keys g)) body = (out, h) \<Longrightarrow>
      key_backend_inv (akh_store h) \<and> out \<noteq> Panic
      \<and> (key_backend_view (akh_store h) = gkeys_view g \<or> key_change P (clk 0) (gkeys_view g) (key_backend_view (akh_store h)))"
  proof -
    assume c: "APIKeyHandler_Revoke (key_backend_store P) clk (NewAPIKeyHandler (gw_keys g)) body = (out, h)"
    note l = gkeys.Revoke_handler_law(1-3) [OF inv c, unfolded h]
    from l(3) have "key_backend_view (akh_store h) = gkeys_view g \<or> key_change P (clk 0) (gkeys_view g) (key_backend_view (akh_store h))"
      by (elim disjE exE conjE) (simp_all add: key_change_revoke)
    then show ?thesis using l(1,2) by simp
  qed
qed

section \<open>What an endpoint may do\<close>

definition endpoint_step :: "prims \<Rightarrow> jsonb \<Rightarrow> clock \<Rightarrow> endpoint \<Rightarrow> gateway \<Rightarrow> gateway \<Rightarrow> bool" where
  "endpoint_step P J clk e g g' \<longleftrightarrow>
     (gdocs g' = gdocs g
      \<or> e \<in> {RegisterDID, RevokeDID, UpdateDID} \<and> (\<exists>op. authorised P op (gdocs g) (gdocs g')))
     \<and> (grecs g' = grecs g
      \<or> e = IssueCredential \<and> (\<exists>body. issuance P (kept J g) (gdocs g) (grecs g) (clk 0) body (grecs g'))
      \<or> e = RevokeCredential \<and> (\<exists>body. withdrawal (grecs g) (clk 0) body (grecs g')))
     \<and> (gheld g' = gheld g
      \<or> e = NewChallenge \<and> (\<exists>i ch. issued (clk 0) ch \<and> gheld g' = (gheld g)(i \<mapsto> ch))
      \<or> e = VerifyAuthentication \<and> (\<exists>i. gheld g' = (gheld g)(i := None)))
     \<and> (gkeys_view g' = gkeys_view g
      \<or> e \<in> {CreateKey, RevokeKey} \<and> key_change P (clk 0) (gkeys_view g) (gkeys_view g'))"

lemma endpoint_step_refl [simp]: "endpoint_step P J clk e g g"
  by (simp add: endpoint_step_def)

definition same_middleware :: "gateway \<Rightarrow> gateway \<Rightarrow> bool" where
  "same_middleware g g' \<longleftrightarrow> gw_cfg g' = gw_cfg g \<and> gw_metrics g' = gw_metrics g \<and> gw_limiter g' = gw_limiter g
     \<and> gw_log g' = gw_log g"

definition endpoint_ok :: "prims \<Rightarrow> jsonb \<Rightarrow> clock \<Rightarrow> endpoint \<Rightarrow> gateway \<Rightarrow> response outcome \<times> gateway \<Rightarrow> bool" where
  "endpoint_ok P J clk e g res \<longleftrightarrow>
     gateway_ok (snd res) \<and> fst res \<noteq> Panic \<and> same_middleware g (snd res) \<and> endpoint_step P J clk e g (snd res)"

lemma endpoint_ok_same: "gateway_ok g \<Longrightarrow> endpoint_ok P J clk e g (Done rs, g)"
  by (simp add: endpoint_ok_def same_middleware_def)

lemma on_chain_ok:
  assumes ok: "gateway_ok g" and e: "e \<in> {RegisterDID, RevokeDID, UpdateDID} \<or> e \<in> {ResolveDID, Stats}"
    and f: "\<And>c. f c = did_serve P did_backend_store clk op c"
    and quiet: "e \<in> {ResolveDID, Stats} \<Longrightarrow> \<forall>v v'. \<not> authorised P op v v'"
  shows "endpoint_ok P J clk' e g (on_chain f g)"
proof -
  obtain out c where s: "did_serve P did_backend_store clk op (gw_chain g) = (out, c)" by fastforce
  from chain_law [OF ok s] show ?thesis
    using s f e quiet by (auto simp: endpoint_ok_def on_chain_def same_middleware_def endpoint_step_def kept_def)
qed

lemma on_credentials_ok:
  assumes ok: "gateway_ok g" and op: "credential_op op"
    and f: "\<And>h. f h = cred_serve P did_backend_store (credential_backend_store J) clk op h"
    and e: "\<And>body. op = OpIssue body \<Longrightarrow> e = IssueCredential" "\<And>body. op = OpRevokeCredential body \<Longrightarrow> e = RevokeCredential"
  shows "endpoint_ok P J clk e g (on_credentials f g)"
proof -
  obtain out h where s: "cred_serve P did_backend_store (credential_backend_store J) clk op
      (NewCredentialHandler (gw_chain g) (gw_credentials g)) = (out, h)" by fastforce
  from credentials_law [OF ok op s] show ?thesis
    using s f e by (auto simp: endpoint_ok_def on_credentials_def same_middleware_def endpoint_step_def)
qed

lemma on_verify_ok:
  assumes ok: "gateway_ok g" and op: "op_ok op" "\<And>dop. op \<noteq> OpRegistry dop"
    and f: "\<And>h. f h = auth_serve P did_backend_store challenge_backend_store clk op h"
    and e: "\<And>a b r. op = OpChallenge a b r \<Longrightarrow> e = NewChallenge" "\<And>body. op = OpAuth body \<Longrightarrow> e = VerifyAuthentication"
  shows "endpoint_ok P J clk e g (on_verify f g)"
proof -
  obtain out h where s: "auth_serve P did_backend_store challenge_backend_store clk op
      (NewVerifyHandlerWithChallengeStore (gw_chain g) (gw_zkp g) (gw_challenges g)) = (out, h)" by fastforce
  from verify_law [OF ok op s] show ?thesis
    using s f e by (auto simp: endpoint_ok_def on_verify_def same_middleware_def endpoint_step_def)
qed

lemma on_keys_ok:
  assumes ok: "gateway_ok g"
    and law: "\<And>out h. f (NewAPIKeyHandler (gw_keys g)) = (out, h) \<Longrightarrow>
      key_backend_inv (akh_store h) \<and> out \<noteq> Panic
      \<and> (key_backend_view (akh_store h) = gkeys_view g
          \<or> e \<in> {CreateKey, RevokeKey} \<and> key_change P (clk 0) (gkeys_view g) (key_backend_view (akh_store h)))"
  shows "endpoint_ok P J clk e g (on_keys f g)"
proof -
  obtain out h where s: "f (NewAPIKeyHandler (gw_keys g)) = (out, h)" by fastforce
  from law [OF s] ok show ?thesis
    using s by (auto simp: endpoint_ok_def on_keys_def same_middleware_def endpoint_step_def gateway_ok_def)
qed

lemma authorised_reads: "\<not> authorised P (OpResolve did) v v'" "\<not> authorised P OpStats v v'"
  by (auto elim: authorised.cases)

lemma endpoint_law:
  assumes ok: "gateway_ok g" and body: "body_ok (rq_body r)"
  shows "endpoint_ok P J (rd_clk rd) e g (run_endpoint P J C rd e params r g)"
proof (cases e)
  case RegisterDID
  show ?thesis unfolding run_endpoint_def RegisterDID endpoint.case
    by (rule on_chain_ok [OF ok, where op = "OpRegister (rq_body r)"]) (simp_all add: did_serve_def)
next
  case ResolveDID
  show ?thesis unfolding run_endpoint_def ResolveDID endpoint.case
    by (rule on_chain_ok [OF ok, where op = "OpResolve (params ''did'')"]) (simp_all add: did_serve_def authorised_reads)
next
  case RevokeDID
  show ?thesis unfolding run_endpoint_def RevokeDID endpoint.case
    by (rule on_chain_ok [OF ok, where op = "OpRevoke (rq_body r)"]) (simp_all add: did_serve_def)
next
  case UpdateDID
  show ?thesis unfolding run_endpoint_def UpdateDID endpoint.case
    by (rule on_chain_ok [OF ok, where op = "OpUpdate (params ''did'') (rq_body r)"]) (simp_all add: did_serve_def)
next
  case Stats
  show ?thesis unfolding run_endpoint_def Stats endpoint.case
    by (rule on_chain_ok [OF ok, where op = OpStats]) (simp_all add: did_serve_def authorised_reads)
next
  case ListCredentials
  show ?thesis unfolding run_endpoint_def ListCredentials endpoint.case
    by (rule on_credentials_ok [OF ok, where op = "OpListCredentials (params ''did'')"])
      (simp_all add: cred_serve_def credential_op_def)
next
  case IssueCredential
  show ?thesis unfolding run_endpoint_def IssueCredential endpoint.case
    by (rule on_credentials_ok [OF ok, where op = "OpIssue (rq_body r)"]) (simp_all add: cred_serve_def credential_op_def)
next
  case RevokeCredential
  show ?thesis unfolding run_endpoint_def RevokeCredential endpoint.case
    by (rule on_credentials_ok [OF ok, where op = "OpRevokeCredential (rq_body r)"])
      (simp_all add: cred_serve_def credential_op_def)
next
  case VerifyCredential
  show ?thesis unfolding run_endpoint_def VerifyCredential endpoint.case
    by (rule on_credentials_ok [OF ok, where op = "OpVerifyCredential (params ''id'')"])
      (simp_all add: cred_serve_def credential_op_def)
next
  case NewChallenge
  show ?thesis unfolding run_endpoint_def NewChallenge endpoint.case
    by (rule on_verify_ok [OF ok, where op = "OpChallenge (rd_rnd1 rd) (rd_rnd2 rd) r"])
      (simp_all add: auth_serve_def op_ok_def body)
next
  case VerifyAuthentication
  show ?thesis unfolding run_endpoint_def VerifyAuthentication endpoint.case
    by (rule on_verify_ok [OF ok, where op = "OpAuth (rq_body r)"]) (simp_all add: auth_serve_def op_ok_def)
next
  case VerifyClaims
  have "\<exists>rs. on_verify (\<lambda>h. VerifyClaim P (rd_net rd) (rd_clk rd) h (rq_body r)) g = (Done rs, g)"
    by (auto simp: on_verify_def VerifyClaim_def NewVerifyHandlerWithChallengeStore_def Let_def split: option.split)
  then show ?thesis using endpoint_ok_same [OF ok] by (auto simp: run_endpoint_def VerifyClaims)
next
  case ListKeys
  have inv: "key_backend_inv (gw_keys g)" using ok by (simp add: gateway_ok_def)
  show ?thesis unfolding run_endpoint_def ListKeys endpoint.case
    by (rule on_keys_ok [OF ok]) (use keys_law(1) [OF inv] in blast)
next
  case CreateKey
  have inv: "key_backend_inv (gw_keys g)" using ok by (simp add: gateway_ok_def)
  show ?thesis unfolding run_endpoint_def CreateKey endpoint.case
    by (rule on_keys_ok [OF ok]) (use keys_law(2) [OF inv] in blast)
next
  case RevokeKey
  have inv: "key_backend_inv (gw_keys g)" using ok by (simp add: gateway_ok_def)
  show ?thesis unfolding run_endpoint_def RevokeKey endpoint.case
    by (rule on_keys_ok [OF ok]) (use keys_law(3) [OF inv] in blast)
next
  case GenerateProof
  have "\<exists>rs. fst (ProofHandler_Generate P (rd_net rd) (NewProofHandler (gw_zkp g) (gw_chain g)) (rq_body r)) = Done rs"
    by (auto simp: ProofHandler_Generate_def split: option.split sum.split)
  then show ?thesis using endpoint_ok_same [OF ok] by (auto simp: run_endpoint_def GenerateProof)
qed (simp_all add: run_endpoint_def endpoint_ok_same [OF ok])

section \<open>The guards\<close>

text \<open>The request names a service and a key that the gateway accepts.\<close>

definition key_presented :: "prims \<Rightarrow> gateway \<Rightarrow> request \<Rightarrow> bool" where
  "key_presented P g r \<longleftrightarrow>
     Header_Get r ''X-API-Key'' \<noteq> [] \<and> Header_Get r ''X-Service-ID'' \<noteq> []
     \<and> key_valid P (gkeys_view g) (Header_Get r ''X-Service-ID'') (Header_Get r ''X-API-Key'')"

definition token_presented :: "Config \<Rightarrow> request \<Rightarrow> bool" where
  "token_presented cfg r \<longleftrightarrow> AdminToken cfg \<noteq> [] \<and> Header_Get r ''X-Admin-Token'' = AdminToken cfg"

definition let_in :: "prims \<Rightarrow> gateway \<Rightarrow> request \<Rightarrow> group \<Rightarrow> bool" where
  "let_in P g r grp \<longleftrightarrow>
     (grp \<in> {Credentials, Verify} \<longrightarrow> key_presented P g r) \<and> (grp = Admin \<longrightarrow> token_presented (gw_cfg g) r)"

text \<open>A guard answers by itself, or runs the handler in a state with the same contents.\<close>

definition same_contents :: "gateway \<Rightarrow> gateway \<Rightarrow> bool" where
  "same_contents g g' \<longleftrightarrow> (\<exists>s. g' = put_keys s g \<and> (key_backend_inv (gw_keys g) \<longrightarrow> key_backend_inv s \<and> key_backend_view s = gkeys_view g))"

lemma same_contents_refl [simp]: "same_contents g g"
  unfolding same_contents_def by (rule exI [of _ "gw_keys g"]) (simp add: put_keys_def)

lemma same_contentsD:
  assumes "same_contents g g'" "gateway_ok g"
  shows "gateway_ok g'" "gdocs g' = gdocs g" "grecs g' = grecs g" "gheld g' = gheld g" "gkeys_view g' = gkeys_view g"
    "same_middleware g g'" "kept J g' = kept J g"
  using assms by (auto simp: same_contents_def gateway_ok_def put_keys_def same_middleware_def kept_def)

lemma guard_key:
  assumes ok: "gateway_ok g" and grp: "grp = Credentials \<or> grp = Verify"
  shows "(\<exists>m g'. guard P (gw_cfg g) grp nxt q g = (Done (Error 401 m), g') \<and> same_contents g g')
    \<or> key_presented P g q \<and> (\<exists>g'. guard P (gw_cfg g) grp nxt q g = nxt q g' \<and> same_contents g g')"
proof -
  let ?k = "Header_Get q ''X-API-Key''" and ?i = "Header_Get q ''X-Service-ID''"
  have g: "guard P (gw_cfg g) grp = RequireAPIKey (key_backend_store P) gw_keys put_keys" using grp by (auto simp: guard_def)
  have inv: "key_backend_inv (gw_keys g)" using ok by (simp add: gateway_ok_def)
  obtain rv s where v: "aks_Validate (key_backend_store P) (gw_keys g) ?i ?k = (rv, s)" by fastforce
  note vl = gkeys.Validate_law [OF inv v]
  have "same_contents g (put_keys s g)" using vl unfolding same_contents_def by blast
  then show ?thesis using v vl
    by (cases "?k = []"; cases "?i = []"; cases rv) (auto simp: g RequireAPIKey_def Let_def key_presented_def)
qed

lemma guard_law:
  assumes ok: "gateway_ok g"
  shows "(\<exists>rs g'. guard P (gw_cfg g) grp nxt r g = (Done rs, g') \<and> same_contents g g')
    \<or> let_in P g r grp \<and> (\<exists>g'. guard P (gw_cfg g) grp nxt r g = nxt r g' \<and> same_contents g g')"
proof (cases "grp = Credentials \<or> grp = Verify")
  case True
  from guard_key [OF ok True, of P nxt r] show ?thesis using True by (auto simp: let_in_def)
next
  case False
  have "(\<exists>rs. RequireAdminToken (AdminToken (gw_cfg g)) nxt r g = (Done rs, g))
    \<or> token_presented (gw_cfg g) r \<and> RequireAdminToken (AdminToken (gw_cfg g)) nxt r g = nxt r g"
    by (auto simp: RequireAdminToken_def token_presented_def)
  then show ?thesis using False same_contents_refl by (cases grp) (auto simp: guard_def let_in_def)
qed

section \<open>The router and the middleware\<close>

definition group_of :: "endpoint \<Rightarrow> group" where
  "group_of e = (case find (\<lambda>(_, _, _, e'). e' = e) routes of None \<Rightarrow> Root | Some (grp, _) \<Rightarrow> grp)"

lemma group_of_route: "(grp, method, pattern, e) \<in> set routes \<Longrightarrow> group_of e = grp"
  by (auto simp: routes_def group_of_def)

text \<open>One request on the contents: some endpoint, let in by the guard of its group, does what it may.\<close>

definition contents_step :: "prims \<Rightarrow> jsonb \<Rightarrow> clock \<Rightarrow> request \<Rightarrow> gateway \<Rightarrow> gateway \<Rightarrow> bool" where
  "contents_step P J clk r g g' \<longleftrightarrow> (\<exists>e. let_in P g r (group_of e) \<and> endpoint_step P J clk e g g')"

lemma contents_step_same:
  assumes "gateway_ok g" "same_contents g g'" shows "contents_step P J clk r g g'"
proof -
  have "group_of Health = Root" by (rule group_of_route) (simp add: routes_def)
  then have "let_in P g r (group_of Health)" by (simp add: let_in_def)
  moreover have "endpoint_step P J clk Health g g'" using same_contentsD [OF assms(2,1)] by (simp add: endpoint_step_def)
  ultimately show ?thesis unfolding contents_step_def by blast
qed

definition request_law :: "prims \<Rightarrow> jsonb \<Rightarrow> clock \<Rightarrow> request \<Rightarrow> gateway \<Rightarrow> response outcome \<times> gateway \<Rightarrow> bool" where
  "request_law P J clk r g res \<longleftrightarrow>
     gateway_ok (snd res) \<and> fst res \<noteq> Panic \<and> same_middleware g (snd res) \<and> contents_step P J clk r g (snd res)"

lemma body_ok_decoded: "body_ok (rq_body (decoded_request raw))"
  using first_value_ok by (auto simp: decoded_request_def request.truncate_def split: option.split)

lemma guarded_law:
  assumes ok: "gateway_ok g"
    and nxt: "\<And>g'. same_contents g g' \<Longrightarrow> (\<exists>rs. nxt r g' = (Done rs, g'))
      \<or> (\<exists>e. grp = group_of e \<and> endpoint_ok P J clk e g' (nxt r g'))"
  shows "request_law P J clk r g (guard P (gw_cfg g) grp nxt r g)"
proof -
  have same: "request_law P J clk r g (Done rs, g')" if "same_contents g g'" for rs g'
    using contents_step_same [OF ok that] same_contentsD [OF that ok] by (simp add: request_law_def)
  show ?thesis
    using guard_law [OF ok, where P = P and grp = grp and nxt = nxt and r = r]
  proof (elim disjE conjE exE)
    fix g' assume li: "let_in P g r grp" and gd: "guard P (gw_cfg g) grp nxt r g = nxt r g'" and sc: "same_contents g g'"
    note d = same_contentsD [OF sc ok]
    from nxt [OF sc] show ?thesis
    proof (elim disjE conjE exE)
      fix rs assume "nxt r g' = (Done rs, g')"
      then show ?thesis using same [OF sc] gd by simp
    next
      fix e assume e: "grp = group_of e" "endpoint_ok P J clk e g' (nxt r g')"
      then have "endpoint_step P J clk e g (snd (nxt r g'))"
        using d by (simp add: endpoint_ok_def endpoint_step_def)
      then have "contents_step P J clk r g (snd (nxt r g'))"
        using li e(1) unfolding contents_step_def by blast
      then show ?thesis using e(2) d(6) gd by (simp add: request_law_def endpoint_ok_def same_middleware_def)
    qed
  qed (use same in simp)
qed

lemma router_law:
  assumes ok: "gateway_ok g"
  shows "request_law P J (rd_clk rd) (decoded_request raw) g (router P J C rd raw g)"
proof -
  let ?r = "decoded_request raw"
  let ?m = "chi_Match C (map (\<lambda>(_, method, pattern, _). (method, pattern)) routes) ?r"
  have miss: "request_law P J (rd_clk rd) ?r g (guard P (gw_cfg g) grp (\<lambda>r g. (Done (chi_NotFound C r), g)) ?r g)" for grp
    by (rule guarded_law [OF ok]) blast
  have none: "request_law P J (rd_clk rd) ?r g (Done (chi_NotFound C ?r), g)"
    using contents_step_same [OF ok same_contents_refl] ok by (simp add: request_law_def same_middleware_def)
  show ?thesis
  proof (cases ?m)
    case (Missing grp)
    then show ?thesis using miss by (simp add: router_def Let_def)
  next
    case (Found i params)
    show ?thesis
    proof (cases "i < length routes")
      case False
      then show ?thesis using none Found by (simp add: router_def Let_def)
    next
      case True
      obtain grp verb path e where rt: "routes ! i = (grp, verb, path, e)" by (cases "routes ! i")
      then have grp: "grp = group_of e" using nth_mem [OF True] group_of_route by metis
      have "request_law P J (rd_clk rd) ?r g (guard P (gw_cfg g) grp (run_endpoint P J C rd e params) ?r g)"
      proof (rule guarded_law [OF ok])
        fix g' assume "same_contents g g'"
        from same_contentsD(1) [OF this ok] have "endpoint_ok P J (rd_clk rd) e g' (run_endpoint P J C rd e params ?r g')"
          using endpoint_law [OF _ body_ok_decoded] by blast
        then show "(\<exists>rs. run_endpoint P J C rd e params ?r g' = (Done rs, g'))
            \<or> (\<exists>e'. grp = group_of e' \<and> endpoint_ok P J (rd_clk rd) e' g' (run_endpoint P J C rd e params ?r g'))"
          using grp by blast
      qed
      then show ?thesis using Found True rt by (simp add: router_def Let_def)
    qed
  qed
qed

text \<open>The request the router sees: transformed by the middleware outside, its body cut to the limit.\<close>

definition routed_request :: "chi \<Rightarrow> Config \<Rightarrow> raw_request \<Rightarrow> request" where
  "routed_request C cfg r =
     (let r = chi_RealIP C (chi_RequestID C r); maxBytes = MaxRequestBodyBytes cfg in
      decoded_request (if 0 < maxBytes then r\<lparr>rq_text := take (nat maxBytes) (rq_text r)\<rparr> else r))"

definition same_data :: "gateway \<Rightarrow> gateway \<Rightarrow> bool" where
  "same_data g g' \<longleftrightarrow>
     gw_cfg g' = gw_cfg g \<and> gw_chain g' = gw_chain g \<and> gw_challenges g' = gw_challenges g
     \<and> gw_keys g' = gw_keys g \<and> gw_credentials g' = gw_credentials g"

lemma same_dataD:
  assumes "same_data g g'"
  shows "gateway_ok g' \<longleftrightarrow> gateway_ok g" "contents_step P J clk r g' h \<longleftrightarrow> contents_step P J clk r g h"
    "contents_step P J clk r h g' \<longleftrightarrow> contents_step P J clk r h g" "gw_cfg g' = gw_cfg g"
  using assms
  by (simp_all add: same_data_def gateway_ok_def contents_step_def endpoint_step_def let_in_def key_presented_def kept_def)

text \<open>What one request that is answered adds to the log and to the counters.\<close>

definition request_line :: "chi \<Rightarrow> readings \<Rightarrow> raw_request \<Rightarrow> response \<Rightarrow> log_line" where
  "request_line C rd r answer =
     http_request (rd_reqID rd) (rd_logged rd) (request.truncate (chi_RealIP C (chi_RequestID C r)))
       (recorded answer) (Sub (rd_stop rd) (rd_start rd))"

definition one_more :: "nat \<Rightarrow> duration \<Rightarrow> Metrics \<Rightarrow> Metrics" where
  "one_more status d m =
     leave_flight (count_error status (add_latency d (count_response (enter_flight (count_request m)))))"

lemma serve_law:
  assumes ok: "gateway_ok g" and sv: "serve P J C rd r g = (rs, g')"
  shows "gateway_ok g'" "gw_cfg g' = gw_cfg g"
    "contents_step P J (rd_clk rd) (routed_request C (gw_cfg g) r) g g'"
    "\<exists>answer. rs = chi_Recoverer C (chi_Timeout C (30 * second) (Done answer))
       \<and> gw_log g' = gw_log g @ [request_line C rd r answer]
       \<and> gw_metrics g' = one_more (rs_status answer) (Sub (rd_stop rd) (rd_start rd)) (gw_metrics g)"
proof -
  let ?cfg = "gw_cfg g" and ?r0 = "chi_RealIP C (chi_RequestID C r)"
  let ?raw = "if 0 < MaxRequestBodyBytes ?cfg then ?r0\<lparr>rq_text := take (nat (MaxRequestBodyBytes ?cfg)) (rq_text ?r0)\<rparr> else ?r0"
  define g1 where "g1 = put_metrics (enter_flight (count_request (gw_metrics g))) g"
  have s1: "same_data g g1" by (simp add: same_data_def g1_def put_metrics_def)
  have law: "\<exists>a g2 h. limited P J C rd ?cfg ?r0 g1 = (Done a, h) \<and> same_data g g2 \<and> gateway_ok h \<and> gw_cfg h = ?cfg
      \<and> contents_step P J (rd_clk rd) (decoded_request ?raw) g2 h \<and> gw_metrics h = gw_metrics g1 \<and> gw_log h = gw_log g"
  proof -
    obtain b l where al: "allow (rd_now rd) (clientIP ?raw) (gw_limiter g1) = (b, l)" by fastforce
    define g2 where "g2 = put_limiter l g1"
    have s2: "same_data g g2" using s1 by (simp add: same_data_def g2_def put_limiter_def)
    have ok2: "gateway_ok g2" "gw_cfg g2 = ?cfg" using same_dataD(1,4) [OF s2] ok by simp_all
    have m2: "gw_metrics g2 = gw_metrics g1" "gw_log g2 = gw_log g" by (simp_all add: g2_def g1_def put_limiter_def put_metrics_def)
    have stay: "contents_step P J (rd_clk rd) (decoded_request ?raw) g2 g2"
      by (rule contents_step_same [OF ok2(1) same_contents_refl])
    have rl: "request_law P J (rd_clk rd) (decoded_request ?raw) g2 (router P J C rd ?raw g2)"
      by (rule router_law [OF ok2(1)])
    obtain out h where ro: "router P J C rd ?raw g2 = (out, h)" by fastforce
    have lim: "limited P J C rd ?cfg ?r0 g1 =
        (let (out, h) = RateLimiter_Middleware (rd_now rd) gw_limiter put_limiter
           (cors_Handler C (cors_of ?cfg) (router P J C rd)) ?raw g1 in (with_headers security_headers out, h))"
      by (simp add: limited_def SecurityHeaders_def LimitRequestBody_def)
    show ?thesis
    proof (cases b)
      case False
      then have "\<exists>a. limited P J C rd ?cfg ?r0 g1 = (Done a, g2)"
        unfolding lim using al by (simp add: RateLimiter_Middleware_def g2_def with_headers_def Let_def)
      then show ?thesis using s2 ok2 stay m2 by blast
    next
      case True
      then have mid: "RateLimiter_Middleware (rd_now rd) gw_limiter put_limiter
           (cors_Handler C (cors_of ?cfg) (router P J C rd)) ?raw g1 = cors_Handler C (cors_of ?cfg) (router P J C rd) ?raw g2"
        using al by (simp add: RateLimiter_Middleware_def g2_def Let_def)
      show ?thesis
      proof (cases "chi_Preflight C (cors_of ?cfg) ?raw")
        case (Some a)
        then have "\<exists>a. limited P J C rd ?cfg ?r0 g1 = (Done a, g2)"
          unfolding lim mid by (simp add: cors_Handler_def with_headers_def)
        then show ?thesis using s2 ok2 stay m2 by blast
      next
        case None
        obtain a where "out = Done a" using rl ro by (cases out) (auto simp: request_law_def)
        then have "\<exists>a. limited P J C rd ?cfg ?r0 g1 = (Done a, h)"
          unfolding lim mid using None ro by (simp add: cors_Handler_def with_headers_def)
        moreover have "gateway_ok h" "gw_cfg h = ?cfg" "contents_step P J (rd_clk rd) (decoded_request ?raw) g2 h"
          "gw_metrics h = gw_metrics g1" "gw_log h = gw_log g"
          using rl ro ok2 m2 by (simp_all add: request_law_def same_middleware_def)
        ultimately show ?thesis using s2 by blast
      qed
    qed
  qed
  then obtain a g2 h where l: "limited P J C rd ?cfg ?r0 g1 = (Done a, h)" "same_data g g2" "gateway_ok h" "gw_cfg h = ?cfg"
    "contents_step P J (rd_clk rd) (decoded_request ?raw) g2 h" "gw_metrics h = gw_metrics g1" "gw_log h = gw_log g" by blast
  let ?m = "one_more (rs_status a) (Sub (rd_stop rd) (rd_start rd)) (gw_metrics g)"
  have puts: "gw_metrics (put_metrics m k) = m" "gw_metrics (put_log line k) = gw_metrics k"
      "put_metrics m (put_log line (put_metrics m' k)) = put_metrics m (put_log line k)" for m m' line k
    by (simp_all add: put_metrics_def put_log_def)
  have m1: "gw_metrics g1 = enter_flight (count_request (gw_metrics g))" by (simp add: g1_def put_metrics_def)
  have sv': "g' = put_metrics ?m (put_log (request_line C rd r a) h)"
    "rs = chi_Recoverer C (chi_Timeout C (30 * second) (Done a))"
    using sv l(1,6) m1 unfolding serve_def Metrics_Middleware_def
    by (simp_all add: Let_def g1_def [symmetric] puts request_line_def one_more_def recorded_def WriteHeader_def)
  then have s3: "same_data h g'" by (simp add: same_data_def put_metrics_def put_log_def)
  show "gateway_ok g'" "gw_cfg g' = gw_cfg g" using same_dataD(1,4) [OF s3] l(3,4) by simp_all
  show "contents_step P J (rd_clk rd) (routed_request C (gw_cfg g) r) g g'"
    using l(5) same_dataD(2) [OF l(2)] same_dataD(3) [OF s3] by (simp add: routed_request_def Let_def)
  show "\<exists>answer. rs = chi_Recoverer C (chi_Timeout C (30 * second) (Done answer))
       \<and> gw_log g' = gw_log g @ [request_line C rd r answer]
       \<and> gw_metrics g' = one_more (rs_status answer) (Sub (rd_stop rd) (rd_start rd)) (gw_metrics g)"
    using sv' l(7) by (intro exI [of _ a]) (simp add: put_metrics_def put_log_def)
qed

end
