(* ===== verification/GatewayRuns.thy ===== *)
theory GatewayRuns
  imports GatewayLaws Startup ApiKeyProperties AuthRuns CredentialRuns
begin

text \<open>
  Gateways that have been started and have served requests: what the start makes of the environment,
  the tables and the connections, the states requests lead to, and an example.
\<close>

section \<open>What the start builds\<close>

text \<open>The tables and the Redis server hold what gateways have written there, or nothing.\<close>

definition tables_ok :: "outside \<Rightarrow> bool" where
  "tables_ok ot \<longleftrightarrow>
     pg_inv (ot_dids ot) \<and> registry_ok (pg_view (ot_dids ot))
     \<and> redis_inv (ot_redis ot) \<and> (\<forall>i ch. redis_view (ot_redis ot) i = Some ch \<longrightarrow> (\<exists>t. issued t ch))
     \<and> crpg_inv (ot_credentials ot) \<and> (\<forall>i rec. crpg_view (ot_credentials ot) i = Some rec \<longrightarrow> record_wf rec)
     \<and> akp_inv (ot_keys ot)"

lemma seed_loop_inv:
  "akp_inv s \<Longrightarrow> seed_loop (postgres_api_key_store P) clk i seeds s = (r, s') \<Longrightarrow> akp_inv s'"
proof (induction seeds arbitrary: i s)
  case (Cons seed seeds)
  obtain a b c where seed: "seed = (a, b, c)" by (cases seed)
  obtain r1 s1 where "aks_Create (postgres_api_key_store P) (clk i) s a b c = (r1, s1)" by fastforce
  moreover from pgkeys.Create_law [OF Cons.prems(1) this] have "akp_inv s1" by simp
  ultimately show ?case using Cons by (auto simp: seed split: sum.splits if_splits)
qed simp

lemma newAPIKeyStore_cases:
  assumes "newAPIKeyStore P ot cfg db = (Inr s, db')"
  obtains "DatabaseURL cfg = []" "s = Inl (NewMemoryAPIKeyStoreWithDevSeeds P (ot_seeds_clk ot) (\<not> IsProduction cfg))" "db' = db"
  | t where "DatabaseURL cfg \<noteq> []"
      "OpenPostgres (ot_keys_clk ot) (fst (ot_keys_conn ot)) (snd (ot_keys_conn ot)) db = (Inr (), db')" "s = Inr t"
      "NewPostgresAPIKeyStore P (ot_seeds_clk ot) (Inr ()) (\<not> IsProduction cfg) (ot_keys ot) = (Inr (), t)"
proof (cases "DatabaseURL cfg = []")
  case True
  then show ?thesis using assms that(1) by (simp add: newAPIKeyStore_def)
next
  case False
  obtain o1 db1 where o: "OpenPostgres (ot_keys_clk ot) (fst (ot_keys_conn ot)) (snd (ot_keys_conn ot)) db = (o1, db1)" by fastforce
  obtain r t where n: "NewPostgresAPIKeyStore P (ot_seeds_clk ot) o1 (\<not> IsProduction cfg) (ot_keys ot) = (r, t)" by fastforce
  have "r = Inr ()" "s = Inr t" "db' = db1" using assms False o n by (cases r; simp add: newAPIKeyStore_def Let_def)+
  moreover have "o1 = Inr ()" using n \<open>r = Inr ()\<close> by (cases o1) (simp_all add: NewPostgresAPIKeyStore_def)
  ultimately show ?thesis using that(2) False o n by simp
qed

lemma newAPIKeyStore_ok:
  assumes "akp_inv (ot_keys ot)" "newAPIKeyStore P ot cfg db = (Inr s, db')"
  shows "key_backend_inv s"
    and "IsProduction cfg \<Longrightarrow> key_backend_view s = (if DatabaseURL cfg = [] then Map.empty else akp_view (ot_keys ot))"
    and "\<not> IsProduction cfg \<Longrightarrow> DatabaseURL cfg = [] \<Longrightarrow> s = Inl (NewMemoryAPIKeyStore P (ot_seeds_clk ot))"
    and "schema_ok db \<Longrightarrow> schema_ok db'"
proof -
  have mem: "akm_view (NewMemoryAPIKeyStoreWithDevSeeds P clk False) = Map.empty" for clk
    by (simp add: akm_view_def seeded_keys fun_eq_iff)
  show "key_backend_inv s"
    by (rule newAPIKeyStore_cases [OF assms(2)])
      (use assms(1) seeded_inv seed_loop_inv in \<open>auto simp: key_backend_inv_def NewPostgresAPIKeyStore_def
        seedDevelopmentAPIKeys_def split: if_splits\<close>)
  show "IsProduction cfg \<Longrightarrow> key_backend_view s = (if DatabaseURL cfg = [] then Map.empty else akp_view (ot_keys ot))"
    by (rule newAPIKeyStore_cases [OF assms(2)])
      (simp_all add: key_backend_view_def mem NewPostgresAPIKeyStore_def)
  show "\<not> IsProduction cfg \<Longrightarrow> DatabaseURL cfg = [] \<Longrightarrow> s = Inl (NewMemoryAPIKeyStore P (ot_seeds_clk ot))"
    by (rule newAPIKeyStore_cases [OF assms(2)]) (simp_all add: NewMemoryAPIKeyStore_def)
  show "schema_ok db \<Longrightarrow> schema_ok db'"
    by (rule newAPIKeyStore_cases [OF assms(2)]) (simp, erule (1) OpenPostgres_law(1))
qed

text \<open>The parts of a gateway that has been started, and the database after the start.\<close>

lemma startup_parts:
  assumes "startup P ot db = (Inr g, db')"
  obtains logged db1 db2 where "Load (ot_env ot) = Inr (gw_cfg g)"
    "start_chain ot (gw_cfg g) db = (Inr (gw_chain g), logged, db1)"
    "newChallengeStore ot (gw_cfg g) = Inr (gw_challenges g)"
    "newAPIKeyStore P ot (gw_cfg g) db1 = (Inr (gw_keys g), db2)"
    "newCredentialStore ot (gw_cfg g) db2 = (Inr (gw_credentials g), db')"
    "gw_metrics g = NewMetrics (ot_now ot)"
proof -
  obtain cfg where cfg: "Load (ot_env ot) = Inr cfg"
    using assms by (cases "Load (ot_env ot)") (simp_all add: startup_def)
  obtain rc logged db1 where c: "start_chain ot cfg db = (rc, logged, db1)" by (metis surj_pair)
  obtain chain where chain: "rc = Inr chain"
    using assms by (cases rc) (simp_all add: startup_def cfg c)
  obtain rk db2 where k: "newAPIKeyStore P ot cfg db1 = (rk, db2)" by fastforce
  obtain rr db3 where r: "newCredentialStore ot cfg db2 = (rr, db3)" by fastforce
  obtain logged' where nr: "NewRouter P ot cfg chain (NewService (ZKPServiceURL cfg)) logged' db1 = (Inr g, db')"
    using assms by (auto simp: startup_def cfg c chain Let_def split: prod.splits sum.splits)
  then show thesis
    using that [of logged db1 db2] cfg c chain k r
    by (cases "newChallengeStore ot cfg"; cases rk; cases rr) (auto simp: NewRouter_def)
qed

lemma start_chain_store:
  "start_chain ot cfg db = (Inr c, logged, db') \<Longrightarrow>
     c = NewClientWithStore (BlockchainRPC cfg) (if DatabaseURL cfg = [] then Inl NewMemoryDIDStore else Inr (ot_dids ot))"
  by (auto simp: start_chain_def split: if_splits prod.splits sum.splits)

lemma newChallengeStore_ok:
  assumes "newChallengeStore ot cfg = Inr s" "redis_inv (ot_redis ot)"
    and "\<forall>i ch. redis_view (ot_redis ot) i = Some ch \<longrightarrow> (\<exists>t. issued t ch)"
  shows "challenge_backend_inv s" "\<forall>i ch. challenge_backend_view s i = Some ch \<longrightarrow> (\<exists>t. issued t ch)"
proof -
  have "s = Inl NewMemoryChallengeStore \<or> s = Inr (ot_redis ot)"
    using assms(1) by (auto simp: newChallengeStore_def NewRedisChallengeStore_def split: if_splits option.splits)
  then have "challenge_backend_inv s \<and> (\<forall>i ch. challenge_backend_view s i = Some ch \<longrightarrow> (\<exists>t. issued t ch))"
  proof
    assume s: "s = Inl NewMemoryChallengeStore"
    show ?thesis unfolding s by (simp add: challenge_backend_inv_def challenge_backend_view_def NewMemoryChallengeStore_def
        memch_inv_def memch_view_def)
  next
    assume s: "s = Inr (ot_redis ot)"
    show ?thesis unfolding s using assms(2,3) by (simp add: challenge_backend_inv_def challenge_backend_view_def)
  qed
  then show "challenge_backend_inv s" "\<forall>i ch. challenge_backend_view s i = Some ch \<longrightarrow> (\<exists>t. issued t ch)" by auto
qed

lemma newCredentialStore_cases:
  assumes "newCredentialStore ot cfg db = (Inr s, db')"
  obtains "DatabaseURL cfg = []" "s = Inl NewMemoryCredentialStore" "db' = db"
  | "DatabaseURL cfg \<noteq> []"
      "OpenPostgres (ot_credentials_clk ot) (fst (ot_credentials_conn ot)) (snd (ot_credentials_conn ot)) db = (Inr (), db')"
      "s = Inr (ot_credentials ot)"
  using assms by (auto simp: newCredentialStore_def NewPostgresCredentialStore_def Let_def split: if_splits prod.splits sum.splits)

lemma newCredentialStore_ok:
  assumes "newCredentialStore ot cfg db = (Inr s, db')" "crpg_inv (ot_credentials ot)"
    and "\<forall>i rec. crpg_view (ot_credentials ot) i = Some rec \<longrightarrow> record_wf rec"
  shows "memory_credentials s \<or> postgres_credentials s" "\<forall>i rec. credential_backend_view s i = Some rec \<longrightarrow> record_wf rec"
    "DatabaseURL cfg \<noteq> [] \<Longrightarrow> schema_ok db \<Longrightarrow> schema_ok db' \<and> versions db' = {1, 2, 3}"
proof -
  have "s = Inl NewMemoryCredentialStore \<or> s = Inr (ot_credentials ot)"
    by (rule newCredentialStore_cases [OF assms(1)]) simp_all
  then show "memory_credentials s \<or> postgres_credentials s" "\<forall>i rec. credential_backend_view s i = Some rec \<longrightarrow> record_wf rec"
    using assms(2,3) by (auto simp: memory_credentials_def postgres_credentials_def credential_backend_view_def
        NewMemoryCredentialStore_def crmem_inv_def crmem_view_def)
  show "DatabaseURL cfg \<noteq> [] \<Longrightarrow> schema_ok db \<Longrightarrow> schema_ok db' \<and> versions db' = {1, 2, 3}"
    by (rule newCredentialStore_cases [OF assms(1)]) (use OpenPostgres_law(1,3) in blast)+
qed

lemma startup_ok:
  assumes "startup P ot db = (Inr g, db')" "tables_ok ot"
  shows "gateway_ok g"
  using assms(1)
proof (rule startup_parts)
  fix logged db1 db2
  assume c: "start_chain ot (gw_cfg g) db = (Inr (gw_chain g), logged, db1)"
    and ch: "newChallengeStore ot (gw_cfg g) = Inr (gw_challenges g)"
    and k: "newAPIKeyStore P ot (gw_cfg g) db1 = (Inr (gw_keys g), db2)"
    and cr: "newCredentialStore ot (gw_cfg g) db2 = (Inr (gw_credentials g), db')"
  have did: "did_backend_inv (cl_store (gw_chain g))" "registry_ok (gdocs g)"
    using start_chain_store [OF c] assms(2)
    by (auto simp: tables_ok_def NewClientWithStore_def did_backend_inv_def did_backend_view_def NewMemoryDIDStore_def
        mem_inv_def mem_view_def registry_ok_def)
  then show ?thesis
    using newChallengeStore_ok [OF ch] newCredentialStore_ok(1,2) [OF cr] newAPIKeyStore_ok(1) [OF _ k] assms(2)
    unfolding gateway_ok_def tables_ok_def by blast
qed

section \<open>The states requests lead to\<close>

text \<open>Between requests the main goroutine may log a line of its own.\<close>

definition access_line :: "log_line \<Rightarrow> bool" where
  "access_line line \<longleftrightarrow> lg_msg line = ''http_request''"

inductive gateway_reach :: "prims \<Rightarrow> jsonb \<Rightarrow> chi \<Rightarrow> gateway \<Rightarrow> gateway \<Rightarrow> bool"
  for P :: prims and J :: jsonb and C :: chi and g0 :: gateway where
  start: "gateway_reach P J C g0 g0"
| request: "gateway_reach P J C g0 g \<Longrightarrow> serve P J C rd r g = (rs, g') \<Longrightarrow> gateway_reach P J C g0 g'"
| logged: "gateway_reach P J C g0 g \<Longrightarrow> \<not> access_line line \<Longrightarrow> gateway_reach P J C g0 (put_log line g)"

lemma put_log_same [simp]:
  "gateway_ok (put_log line g) \<longleftrightarrow> gateway_ok g" "gw_cfg (put_log line g) = gw_cfg g" "gdocs (put_log line g) = gdocs g"
  "grecs (put_log line g) = grecs g" "gheld (put_log line g) = gheld g" "gkeys_view (put_log line g) = gkeys_view g"
  "gw_metrics (put_log line g) = gw_metrics g" "gw_log (put_log line g) = gw_log g @ [line]"
  by (simp_all add: put_log_def gateway_ok_def)

lemma reach_gateway_ok: "gateway_reach P J C g0 g \<Longrightarrow> gateway_ok g0 \<Longrightarrow> gateway_ok g \<and> gw_cfg g = gw_cfg g0"
  by (induction rule: gateway_reach.induct) (auto dest: serve_law(1,2))

section \<open>An example\<close>

text \<open>
  A process without any variable set: the default configuration, with the stores in memory. The
  router of the example matches a method and a path that has no parameters.
\<close>

definition demo_out :: outside where
  "demo_out = \<lparr>ot_env = [], ot_clk = (\<lambda>_. demo_clock), ot_conn = (\<lambda>_. (None, None)),
     ot_keys_clk = demo_clock, ot_keys_conn = (None, None), ot_seeds_clk = demo_clock,
     ot_credentials_clk = demo_clock, ot_credentials_conn = (None, None), ot_redis_err = None,
     ot_dids = empty_dids [], ot_keys = empty_api_keys [], ot_credentials = empty_credentials [],
     ot_redis = \<lparr>rd_data = [], rd_faults = []\<rparr>, ot_now = demo_clock 0, ot_text = (\<lambda>_. ''error'')\<rparr>"

definition demo_db :: pgdb where
  "demo_db = \<lparr>pg_catalog = [], pg_versions = [], pg_script = []\<rparr>"

definition demo_chi :: chi where
  "demo_chi = \<lparr>chi_RequestID = (\<lambda>r. r), chi_RealIP = (\<lambda>r. r),
     chi_Recoverer = (\<lambda>out. case out of Panic \<Rightarrow> Error 500 ''panic'' | Done rs \<Rightarrow> rs), chi_Timeout = (\<lambda>_ out. out),
     chi_Preflight = (\<lambda>_ _. None), chi_CorsHeaders = (\<lambda>_ _. []),
     chi_Match = (\<lambda>rts r. case filter (\<lambda>i. rts ! i = (rq_method r, concat (rq_path r))) [0..<length rts] of
        [] \<Rightarrow> Missing Root | i # _ \<Rightarrow> Found i (\<lambda>_. [])),
     chi_NotFound = (\<lambda>_. Error 404 ''not found''), chi_OpenAPIYAML = []\<rparr>"

definition demo_offline :: zkp_net where
  "demo_offline = \<lparr>url_Parse = Inr, url_Resolve = (\<lambda>base path. base @ path), http_Post = (\<lambda>_ _. Inl (NotSent ''offline'')), json_error = (\<lambda>s. s), marshal_error = (\<lambda>_. ''unsupported'')\<rparr>"

definition demo_rd :: readings where
  "demo_rd = \<lparr>rd_now = demo_clock 0, rd_start = demo_clock 0, rd_stop = demo_clock 0, rd_logged = demo_clock 0,
     rd_reqID = ''request-1'', rd_clk = demo_clock,
     rd_rnd1 = None, rd_rnd2 = None, rd_net = demo_offline\<rparr>"

definition demo_cfg :: Config where "demo_cfg = loaded []"

definition demo_g0 :: gateway where
  "demo_g0 = \<lparr>gw_cfg = demo_cfg, gw_chain = NewClientWithStore (BlockchainRPC demo_cfg) (Inl NewMemoryDIDStore),
     gw_zkp = NewService (ZKPServiceURL demo_cfg), gw_challenges = Inl NewMemoryChallengeStore,
     gw_keys = Inl (NewMemoryAPIKeyStore demo_prims demo_clock), gw_credentials = Inl NewMemoryCredentialStore,
     gw_metrics = NewMetrics (demo_clock 0), gw_limiter = NewRateLimiter 120 (60 * second),
     gw_log = [Info ''DID registry using in-memory store'' [], Info ''auth challenges using in-memory store'' []]\<rparr>"

lemma demo_chi_rd [simp]:
  "chi_RequestID demo_chi r = r" "chi_RealIP demo_chi r = r" "chi_Timeout demo_chi d out = out"
  "chi_Recoverer demo_chi (Done rs) = rs" "chi_Preflight demo_chi co r = None" "chi_CorsHeaders demo_chi co r = []"
  "rd_now demo_rd = demo_clock 0" "rd_start demo_rd = demo_clock 0" "rd_stop demo_rd = demo_clock 0"
  by (simp_all add: demo_chi_def demo_rd_def)

lemma env_default [simp]: "env [] key fallback = fallback" "envInt [] key n = n"
  by (simp_all add: env_def envInt_def Getenv_def)

lemma demo_cfg_fields [simp]:
  "Environment demo_cfg = ''development''" "DatabaseURL demo_cfg = []" "RedisURL demo_cfg = []" "AdminToken demo_cfg = []"
  "MaxRequestBodyBytes demo_cfg = 1048576" "RateLimitRequests demo_cfg = 120" "RateLimitWindow demo_cfg = 60 * second"
  "\<not> IsProduction demo_cfg"
proof -
  show env: "Environment demo_cfg = ''development''" by (simp add: demo_cfg_def loaded_def)
  have "\<not> EqualFold ''development'' ''production''" by code_simp
  then show "\<not> IsProduction demo_cfg" by (simp add: IsProduction_def env)
qed (simp_all add: demo_cfg_def loaded_def second_def int64_def)

lemma demo_load: "Load [] = Inr demo_cfg"
  using demo_cfg_fields(8) by (simp add: Load_def validate_def demo_cfg_def [symmetric])

lemma demo_startup: "startup demo_prims demo_out demo_db = (Inr demo_g0, demo_db)"
  by (simp add: startup_def demo_out_def demo_load start_chain_def NewRouter_def newChallengeStore_def newAPIKeyStore_def
      newCredentialStore_def NewMemoryAPIKeyStore_def demo_g0_def Let_def)

lemma demo_tables: "tables_ok demo_out"
  by (auto simp: tables_ok_def demo_out_def new_client_ok new_credentials_ok akp_inv_def db_wf_def empty_api_keys_def
      empty_dids_def pg_inv_def pg_view_def registry_ok_def redis_inv_def redis_view_def)

definition demo_post :: "string \<Rightarrow> json \<Rightarrow> raw_request" where
  "demo_post path j = \<lparr>rq_method = ''POST'', rq_path = [path], rq_headers = [], rq_RemoteAddr = ''10.0.0.1'', rq_body = None,
     rq_text = json_text j\<rparr>"

lemma demo_finds:
  "filter (\<lambda>i. map (\<lambda>(_, method, pattern, _). (method, pattern)) routes ! i = (''POST'', ''/v1/did/register'')) [0..<length routes] = [5]"
  "filter (\<lambda>i. map (\<lambda>(_, method, pattern, _). (method, pattern)) routes ! i = (''POST'', ''/v1/did/revoke'')) [0..<length routes] = [7]"
  by code_simp+

lemma demo_routes:
  "routes ! 5 = (DIDs, ''POST'', ''/v1/did/register'', RegisterDID)" "routes ! 7 = (DIDs, ''POST'', ''/v1/did/revoke'', RevokeDID)"
  "length routes = 21"
  by (simp_all add: routes_def)

text \<open>The two requests of the example: what the router sees, and what they do to the contents and the limiter.\<close>

lemma demo_request:
  assumes "length (json_text j) \<le> 1000" "json_ok j" "json_depth j \<le> maxNestingDepth"
  shows "decoded_request (demo_post path j) = \<lparr>rq_method = ''POST'', rq_path = [path], rq_headers = [],
      rq_RemoteAddr = ''10.0.0.1'', rq_body = Some j\<rparr>"
    and "clientIP (demo_post path j) = ''10.0.0.1''"
    and "demo_post path j\<lparr>rq_text := take (nat 1048576) (rq_text (demo_post path j))\<rparr> = demo_post path j"
proof -
  have first: "first_value (json_text j) = Some (j, [])"
    using scan_json_text [OF assms(2), of 0 "[]" "2 * length (json_text j) + 1"] assms(3)
    by (simp add: first_value_def ends_value_def)
  show "decoded_request (demo_post path j) = \<lparr>rq_method = ''POST'', rq_path = [path], rq_headers = [],
      rq_RemoteAddr = ''10.0.0.1'', rq_body = Some j\<rparr>"
    by (simp add: decoded_request_def demo_post_def first request.truncate_def)
  show "clientIP (demo_post path j) = ''10.0.0.1''"
    by (simp add: clientIP_def demo_post_def Header_Get_def request.truncate_def SplitHost_def LastIndexByte_def IndexByte_def Let_def)
  have "take (nat 1048576) (json_text j) = json_text j" using assms(1) by simp
  then show "demo_post path j\<lparr>rq_text := take (nat 1048576) (rq_text (demo_post path j))\<rparr> = demo_post path j"
    by (simp add: demo_post_def)
qed

lemma demo_match:
  assumes "length (json_text j) \<le> 1000" "json_ok j" "json_depth j \<le> maxNestingDepth"
    and "path = ''/v1/did/register'' \<or> path = ''/v1/did/revoke''"
  shows "chi_Match demo_chi (map (\<lambda>(_, method, pattern, _). (method, pattern)) routes) (decoded_request (demo_post path j))
      = Found (if path = ''/v1/did/register'' then 5 else 7) (\<lambda>_. [])"
  using assms(4) unfolding demo_request(1) [OF assms(1-3)] by (auto simp: demo_chi_def demo_finds)

lemma demo_serve:
  assumes "gw_cfg g = demo_cfg" "allow (demo_clock 0) ''10.0.0.1'' (gw_limiter g) = (True, l)"
    and "length (json_text j) \<le> 1000" "json_ok j" "json_depth j \<le> maxNestingDepth"
    and "path = ''/v1/did/register'' \<and> f = (\<lambda>c. DIDHandler_Register demo_prims did_backend_store demo_clock c (Some j))
      \<or> path = ''/v1/did/revoke'' \<and> f = (\<lambda>c. DIDHandler_Revoke demo_prims did_backend_store demo_clock c (Some j))"
    and "f (gw_chain g) = (Done a, c)"
  shows "\<exists>m lg. snd (serve demo_prims J demo_chi demo_rd (demo_post path j) g)
      = g\<lparr>gw_limiter := l, gw_chain := c, gw_log := lg, gw_metrics := m\<rparr>"
proof -
  note req = demo_request [OF assms(3-5), of path]
  have raw: "LimitRequestBody 1048576 nxt (demo_post path j) = nxt (demo_post path j)" for nxt :: "gateway raw_handler"
    using req(3) by (simp add: LimitRequestBody_def fun_eq_iff)
  have match: "chi_Match demo_chi (map (\<lambda>(_, method, pattern, _). (method, pattern)) routes) (decoded_request (demo_post path j))
      = Found (if path = ''/v1/did/register'' then 5 else 7) (\<lambda>_. [])"
    by (rule demo_match [OF assms(3-5)]) (use assms(6) in blast)
  have router: "router demo_prims J demo_chi demo_rd (demo_post path j) h = (Done a, h\<lparr>gw_chain := c\<rparr>)"
    if "gw_chain h = gw_chain g" for h
    using assms(6,7) that unfolding router_def Let_def match
    by (auto simp: demo_routes guard_def run_endpoint_def on_chain_def demo_rd_def req(1))
  show ?thesis
    unfolding serve_def assms(1)
    by (rule exI, rule exI) (simp add: router Metrics_Middleware_def limited_def SecurityHeaders_def raw RateLimiter_Middleware_def req(2) assms(2)
        cors_Handler_def with_headers_def put_metrics_def put_limiter_def put_log_def Let_def)
qed

definition demo_register_json :: json where "demo_register_json = the demo_register"
definition demo_revoke_json :: json where "demo_revoke_json = the demo_revoke"

lemma demo_texts [simp]:
  "length (json_text demo_register_json) \<le> 1000" "length (json_text demo_revoke_json) \<le> 1000"
  by code_simp+

lemma demo_jsons:
  "json_ok demo_register_json" "json_depth demo_register_json \<le> maxNestingDepth"
  "json_ok demo_revoke_json" "json_depth demo_revoke_json \<le> maxNestingDepth"
  by (simp_all add: demo_register_json_def demo_revoke_json_def demo_register_def demo_revoke_def
      utf8_ok_ascii ascii_StdEncode demo_sig64_def demo_key64_def demo_did_utf8 maxNestingDepth_def)

lemma demo_json_some: "Some demo_register_json = demo_register" "Some demo_revoke_json = demo_revoke"
  by (simp_all add: demo_register_json_def demo_revoke_json_def demo_register_def demo_revoke_def)

definition demo_g1 :: "jsonb \<Rightarrow> gateway" where
  "demo_g1 J = snd (serve demo_prims J demo_chi demo_rd (demo_post ''/v1/did/register'' demo_register_json) demo_g0)"

definition demo_g2 :: "jsonb \<Rightarrow> gateway" where
  "demo_g2 J = snd (serve demo_prims J demo_chi demo_rd (demo_post ''/v1/did/revoke'' demo_revoke_json) (demo_g1 J))"

lemma demo_admitted:
  "\<exists>l. allow (demo_clock 0) ''10.0.0.1'' (gw_limiter demo_g0) = (True, l)
     \<and> (\<exists>l'. allow (demo_clock 0) ''10.0.0.1'' l = (True, l'))"
  by (simp add: demo_g0_def allow_def sweep_def NewRateLimiter_def demo_clock_def zero_time_def zero_bucket_def second_def Sub_def)

lemma demo_g1_eq:
  "\<exists>l m lg. demo_g1 J = demo_g0\<lparr>gw_limiter := l, gw_chain := \<lparr>cl_rpc = BlockchainRPC demo_cfg, cl_store = Inl (cl_store demo_m1)\<rparr>, gw_log := lg, gw_metrics := m\<rparr>
    \<and> (\<exists>l'. allow (demo_clock 0) ''10.0.0.1'' l = (True, l'))"
proof -
  obtain l where l: "allow (demo_clock 0) ''10.0.0.1'' (gw_limiter demo_g0) = (True, l)" "\<exists>l'. allow (demo_clock 0) ''10.0.0.1'' l = (True, l')"
    using demo_admitted by blast
  have "\<exists>a. DIDHandler_Register demo_prims did_backend_store demo_clock (gw_chain demo_g0) (Some demo_register_json)
      = (Done a, \<lparr>cl_rpc = BlockchainRPC demo_cfg, cl_store = Inl (cl_store demo_m1)\<rparr>)"
    by (simp add: demo_run_defs did_backend_store_def demo_g0_def demo_m1_eq demo_doc_def demo_json_some dispatch_def)
  then show ?thesis
    using demo_serve [where g = demo_g0 and j = demo_register_json and path = "''/v1/did/register''" and J = J, OF _ l(1) demo_texts(1) demo_jsons(1,2)]
      l(2)
    by (fastforce simp: demo_g1_def demo_g0_def)
qed

lemma demo_g2_eq:
  "\<exists>l m lg. demo_g2 J = demo_g0\<lparr>gw_limiter := l, gw_chain := \<lparr>cl_rpc = BlockchainRPC demo_cfg, cl_store = Inl (cl_store demo_m2)\<rparr>, gw_log := lg, gw_metrics := m\<rparr>"
proof -
  obtain l m lg l' where g1: "demo_g1 J = demo_g0\<lparr>gw_limiter := l, gw_chain := \<lparr>cl_rpc = BlockchainRPC demo_cfg, cl_store = Inl (cl_store demo_m1)\<rparr>, gw_log := lg, gw_metrics := m\<rparr>"
    and l: "allow (demo_clock 0) ''10.0.0.1'' l = (True, l')"
    using demo_g1_eq by blast
  have "\<exists>a. DIDHandler_Revoke demo_prims did_backend_store demo_clock (gw_chain (demo_g1 J)) (Some demo_revoke_json)
      = (Done a, \<lparr>cl_rpc = BlockchainRPC demo_cfg, cl_store = Inl (cl_store demo_m2)\<rparr>)"
    by (simp add: demo_run_defs did_backend_store_def g1 demo_m1_eq demo_m2_eq demo_json_some dispatch_def)
  then show ?thesis
    using demo_serve [where g = "demo_g1 J" and j = demo_revoke_json and path = "''/v1/did/revoke''" and J = J and l = l',
        OF _ _ demo_texts(2) demo_jsons(3,4)] l
    by (fastforce simp: demo_g2_def g1 demo_g0_def)
qed

lemma demo_reached:
  "gateway_reach demo_prims J demo_chi demo_g0 (demo_g1 J)" "gateway_reach demo_prims J demo_chi (demo_g1 J) (demo_g2 J)"
  unfolding demo_g1_def demo_g2_def
  by (rule gateway_reach.request [OF gateway_reach.start surjective_pairing])+

lemma demo_registries:
  "gdocs demo_g0 = Map.empty" "gdocs (demo_g1 J) demo_did = Some demo_doc"
  "gdocs (demo_g2 J) demo_did = Some (demo_doc\<lparr>doc_Deactivated := True, doc_Updated := FormatRFC3339 (demo_clock 0)\<rparr>)"
  using demo_g1_eq [of J] demo_g2_eq [of J]
  by (auto simp: demo_g0_def did_backend_view_def mem_view_def NewMemoryDIDStore_def NewClientWithStore_def demo_m1_eq demo_m2_eq)

end
