(* ===== verification/GatewayProperties.thy ===== *)
theory GatewayProperties
  imports GatewayRuns Interference
begin

text \<open>
  The gateway as a whole, from its start on: what a request may change and who authorises it, that
  revocations are final across all endpoints, and what production excludes.
\<close>

section \<open>What a request may change\<close>

lemma group_of_simps [simp]:
  "group_of IssueCredential = Credentials" "group_of RevokeCredential = Credentials" "group_of VerifyCredential = Credentials"
  "group_of NewChallenge = Verify" "group_of VerifyAuthentication = Verify"
  "group_of CreateKey = Admin" "group_of RevokeKey = Admin"
  by (simp_all add: group_of_def routes_def)

lemma reach_law:
  assumes "startup P ot db = (Inr g0, db')" "tables_ok ot" "gateway_reach P J C g0 g"
  shows "gateway_ok g" "gw_cfg g = gw_cfg g0"
  using reach_gateway_ok [OF assms(3) startup_ok [OF assms(1,2)]] by simp_all

text \<open>
  C1: one request to a running gateway, whatever it is, changes its data only with authorisation. The
  registry changes only by one of the signed operations of the DID endpoints; the credentials only
  when the request presents a valid API key, by issuing a proved credential or revoking a stored
  one; the challenges only with a valid API key; the API keys only when the request presents the
  configured administration token, by creating or revoking one key. No handler panics. This holds
  for every choice of stores, for every failure of their drivers and for every behaviour of the
  router library.
\<close>

theorem gateway_requests_authorised:
  assumes "startup P ot db = (Inr g0, db')" "tables_ok ot" "gateway_reach P J C g0 g"
    and "serve P J C rd r g = (rs, g')" "q = routed_request C (gw_cfg g) r"
  shows "(gdocs g' \<noteq> gdocs g \<longrightarrow> (\<exists>op. authorised P op (gdocs g) (gdocs g')))
    \<and> (grecs g' \<noteq> grecs g \<longrightarrow> key_presented P g q
        \<and> (\<exists>body. issuance P (kept J g) (gdocs g) (grecs g) (rd_clk rd 0) body (grecs g')
              \<or> withdrawal (grecs g) (rd_clk rd 0) body (grecs g')))
    \<and> (gheld g' \<noteq> gheld g \<longrightarrow> key_presented P g q)
    \<and> (gkeys_view g' \<noteq> gkeys_view g \<longrightarrow>
        token_presented (gw_cfg g0) q \<and> key_change P (rd_clk rd 0) (gkeys_view g) (gkeys_view g'))
    \<and> (\<exists>answer. rs = chi_Recoverer C (chi_Timeout C (30 * second) (Done answer)))"
proof -
  note ok = reach_law [OF assms(1-3)]
  note law = serve_law [OF ok(1) assms(4)]
  obtain e where e: "let_in P g q (group_of e)" "endpoint_step P J (rd_clk rd) e g g'"
    using law(3) assms(5) unfolding contents_step_def by blast
  then have docs: "gdocs g' \<noteq> gdocs g \<longrightarrow> (\<exists>op. authorised P op (gdocs g) (gdocs g'))"
    unfolding endpoint_step_def by blast
  have recs: "grecs g' \<noteq> grecs g \<longrightarrow> key_presented P g q
        \<and> (\<exists>body. issuance P (kept J g) (gdocs g) (grecs g) (rd_clk rd 0) body (grecs g')
              \<or> withdrawal (grecs g) (rd_clk rd 0) body (grecs g'))"
  proof
    assume "grecs g' \<noteq> grecs g"
    then have s: "(e = IssueCredential \<or> e = RevokeCredential)
        \<and> (\<exists>body. issuance P (kept J g) (gdocs g) (grecs g) (rd_clk rd 0) body (grecs g')
              \<or> withdrawal (grecs g) (rd_clk rd 0) body (grecs g'))"
      using e(2) unfolding endpoint_step_def by blast
    then have "key_presented P g q" using e(1) by (auto simp: let_in_def)
    then show "key_presented P g q \<and> (\<exists>body. issuance P (kept J g) (gdocs g) (grecs g) (rd_clk rd 0) body (grecs g')
              \<or> withdrawal (grecs g) (rd_clk rd 0) body (grecs g'))" using s by simp
  qed
  have held: "gheld g' \<noteq> gheld g \<longrightarrow> key_presented P g q"
  proof
    assume "gheld g' \<noteq> gheld g"
    then have "e = NewChallenge \<or> e = VerifyAuthentication" using e(2) unfolding endpoint_step_def by blast
    then show "key_presented P g q" using e(1) by (auto simp: let_in_def)
  qed
  have keys: "gkeys_view g' \<noteq> gkeys_view g \<longrightarrow>
        token_presented (gw_cfg g0) q \<and> key_change P (rd_clk rd 0) (gkeys_view g) (gkeys_view g')"
  proof
    assume "gkeys_view g' \<noteq> gkeys_view g"
    then have s: "e \<in> {CreateKey, RevokeKey}" "key_change P (rd_clk rd 0) (gkeys_view g) (gkeys_view g')"
      using e(2) unfolding endpoint_step_def by blast+
    then have "token_presented (gw_cfg g0) q" using e(1) ok(2) by (auto simp: let_in_def)
    then show "token_presented (gw_cfg g0) q \<and> key_change P (rd_clk rd 0) (gkeys_view g) (gkeys_view g')"
      using s(2) by simp
  qed
  show ?thesis using docs recs held keys law(4) by blast
qed

theorem gateway_requests_authorised_witness:
  "\<forall>J. gdocs (demo_g1 J) demo_did \<noteq> gdocs demo_g0 demo_did
     \<and> (\<exists>op. authorised demo_prims op (gdocs demo_g0) (gdocs (demo_g1 J)))"
proof
  fix J
  have ne: "gdocs (demo_g1 J) demo_did \<noteq> gdocs demo_g0 demo_did" by (simp add: demo_registries)
  then have "gdocs (demo_g1 J) \<noteq> gdocs demo_g0" by metis
  then show "gdocs (demo_g1 J) demo_did \<noteq> gdocs demo_g0 demo_did
     \<and> (\<exists>op. authorised demo_prims op (gdocs demo_g0) (gdocs (demo_g1 J)))"
    using ne gateway_requests_authorised [OF demo_startup demo_tables gateway_reach.start surjective_pairing refl,
        of J demo_chi demo_rd "demo_post ''/v1/did/register'' demo_register_json"]
    unfolding demo_g1_def by blast
qed

section \<open>Revocations\<close>

text \<open>What any requests may have made of a document, a record and a key.\<close>

definition gateway_succ :: "gateway \<Rightarrow> gateway \<Rightarrow> bool" where
  "gateway_succ g g' \<longleftrightarrow>
     carried doc_succ (gdocs g) (gdocs g') \<and> carried rec_succ (grecs g) (grecs g')
     \<and> carried key_kept (gkeys_view g) (gkeys_view g')"

lemma gateway_succ_refl: "gateway_succ g g"
  by (simp add: gateway_succ_def carried_refl)

lemma gateway_succ_trans: "gateway_succ g g1 \<Longrightarrow> gateway_succ g1 g2 \<Longrightarrow> gateway_succ g g2"
  unfolding gateway_succ_def
  by (elim conjE, intro conjI; rule carried_trans, rule doc_succ_trans rec_succ_trans key_kept_trans; assumption)

lemma key_change_kept:
  assumes "key_change P now v v'" "v i = Some a" shows "\<exists>b. v' i = Some b \<and> key_kept a b"
proof -
  have "v' i = Some a \<or> (\<exists>rec k. a = (rec, k) \<and> v' i = Some (revoked_key now rec, k))"
    using assms by (auto simp: key_change_def)
  then show ?thesis
  proof
    assume "v' i = Some a" then show ?thesis by simp
  qed (auto simp: revoked_key_def key_kept_def)
qed

lemma issuance_kept: "issuance P stored v r now body r' \<Longrightarrow> r i = Some a \<Longrightarrow> r' i = Some a"
  by (erule issuanceE) auto

lemma withdrawal_kept:
  assumes "withdrawal r now body r'" "r i = Some a" shows "\<exists>b. r' i = Some b \<and> rec_succ a b"
proof -
  obtain req :: CredentialRevokeRequest and rec why where w: "r (crv_ID req) = Some rec"
    "r' = r(crv_ID req \<mapsto> revoked_record now why rec)" using assms(1) by (rule withdrawalE)
  show ?thesis using w assms(2) by (cases "i = crv_ID req") auto
qed

lemma request_succ:
  assumes ok: "gateway_ok g" and sv: "serve P J C rd r g = (rs, g')"
  shows "gateway_succ g g'"
proof -
  obtain e where "endpoint_step P J (rd_clk rd) e g g'"
    using serve_law(3) [OF ok sv] unfolding contents_step_def by blast
  then have e: "gdocs g' = gdocs g \<or> (\<exists>op. authorised P op (gdocs g) (gdocs g'))"
    "grecs g' = grecs g \<or> (\<exists>body. issuance P (kept J g) (gdocs g) (grecs g) (rd_clk rd 0) body (grecs g'))
      \<or> (\<exists>body. withdrawal (grecs g) (rd_clk rd 0) body (grecs g'))"
    "gkeys_view g' = gkeys_view g \<or> key_change P (rd_clk rd 0) (gkeys_view g) (gkeys_view g')"
    unfolding endpoint_step_def by blast+
  have reg: "registry_ok (gdocs g)" using ok by (simp add: gateway_ok_def)
  show ?thesis unfolding gateway_succ_def carried_def
  proof (intro conjI allI impI)
    fix d a assume a: "gdocs g d = Some a"
    from e(1) show "\<exists>b. gdocs g' d = Some b \<and> doc_succ a b"
    proof
      assume "\<exists>op. authorised P op (gdocs g) (gdocs g')"
      then obtain op where "authorised P op (gdocs g) (gdocs g')" ..
      then show ?thesis by (rule authorised_at [OF _ reg a]) blast
    qed (use a in simp)
  next
    fix i a assume a: "grecs g i = Some a"
    from e(2) show "\<exists>b. grecs g' i = Some b \<and> rec_succ a b"
      using issuance_kept withdrawal_kept a rec_succ_refl by metis
  next
    fix i a assume a: "gkeys_view g i = Some a"
    from e(3) show "\<exists>b. gkeys_view g' i = Some b \<and> key_kept a b"
      using key_change_kept a key_kept_refl by metis
  qed
qed

lemma gateway_reach_succ: "gateway_reach P J C g g' \<Longrightarrow> gateway_ok g \<Longrightarrow> gateway_succ g g'"
proof (induction rule: gateway_reach.induct)
  case (request g1 rd r rs g2)
  then have "gateway_ok g1" using reach_gateway_ok by blast
  then show ?case using request gateway_succ_trans request_succ by blast
next
  case (logged g1 line)
  then show ?case by (simp add: gateway_succ_def)
qed (simp add: gateway_succ_refl)

lemma revoked_record_invalid:
  "r i = Some rec \<Longrightarrow> cr_RevokedAt rec \<noteq> [] \<Longrightarrow> \<not> valid_now P v r t i"
  by (auto simp: valid_now_def)

lemma deactivated_issuer_invalid:
  "r i = Some rec \<Longrightarrow> v (cr_IssuerDID rec) = Some doc \<Longrightarrow> doc_Deactivated doc \<Longrightarrow> \<not> valid_now P v r t i"
  by (auto simp: valid_now_def proof_by_def)

lemma rec_succ_fields:
  "rec_succ a b \<Longrightarrow> cr_IssuerDID b = cr_IssuerDID a \<and> (cr_RevokedAt a \<noteq> [] \<longrightarrow> cr_RevokedAt b \<noteq> [])"
  unfolding rec_succ_def rec_core_def by (metis CredentialRecord.select_convs(2) CredentialRecord.surjective
      CredentialRecord.update_convs(9) CredentialRecord.update_convs(10))

text \<open>Behind its guard, \<open>Verify\<close> answers that a credential is valid only when it is.\<close>

lemma run_verify_valid:
  assumes ok: "gateway_ok g" and sv: "says_valid (fst (run_endpoint P J C rd VerifyCredential params q g))"
  shows "valid_now P (gdocs g) (grecs g) (rd_clk rd 0) (params ''id'')"
proof -
  let ?h = "NewCredentialHandler (gw_chain g) (gw_credentials g)"
  have h: "crh_chain ?h = gw_chain g" "crh_store ?h = gw_credentials g" by (simp_all add: NewCredentialHandler_def)
  obtain out h' where v: "CredentialHandler_Verify P did_backend_store (credential_backend_store J) (rd_clk rd) ?h (params ''id'') = (out, h')"
    by fastforce
  have says: "says_valid out" using sv v by (simp add: run_endpoint_def on_credentials_def)
  have chain: "did_backend_inv (cl_store (gw_chain g))" using ok by (simp add: gateway_ok_def)
  from ok have "memory_credentials (gw_credentials g) \<or> postgres_credentials (gw_credentials g)" by (simp add: gateway_ok_def)
  then show ?thesis
  proof
    assume "memory_credentials (gw_credentials g)"
    then have "gmemcreds.sinv ?h" using chain h by (simp add: gmemcreds.sinv_def)
    from gmemcreds.Verify_law(5) [OF this v says] show ?thesis using h by simp
  next
    assume "postgres_credentials (gw_credentials g)"
    then have "gpgcreds.sinv ?h" using chain h by (simp add: gpgcreds.sinv_def)
    from gpgcreds.Verify_law(5) [OF this v says] show ?thesis using h by simp
  qed
qed

lemma guarded_verify_valid:
  assumes ok: "gateway_ok g"
    and sv: "says_valid (fst (guard P (gw_cfg g) Credentials (run_endpoint P J C rd VerifyCredential params) q g))"
  shows "valid_now P (gdocs g) (grecs g) (rd_clk rd 0) (params ''id'')"
  using guard_key [OF ok disjI1 [OF refl], of P "run_endpoint P J C rd VerifyCredential params" q]
proof (elim disjE conjE exE, goal_cases)
  case (2 g')
  note sc = same_contentsD [OF 2(3) ok]
  then show ?case using run_verify_valid [OF sc(1)] sv 2(2) by simp
qed (use sv in auto)

text \<open>
  C5: whatever requests of whatever endpoints follow, in any order and with any failures of the
  stores, revocations are final: a deactivated DID stays deactivated and keeps its key; the endpoint
  that verifies credentials never again answers that a credential is valid when it has been revoked
  or its issuer is deactivated; and a request that names a service whose API key has been revoked
  is answered 401 by the guards of the credential and the verification endpoints, whatever key it
  presents, and does not reach the handler.
\<close>

theorem gateway_revocations_final:
  assumes "startup P ot db = (Inr g0, db')" "tables_ok ot" "gateway_reach P J C g0 g" "gateway_reach P J C g g'"
  shows "(\<forall>d doc. gdocs g d = Some doc \<and> doc_Deactivated doc \<longrightarrow>
        (\<exists>doc'. gdocs g' d = Some doc' \<and> doc_Deactivated doc' \<and> doc_PublicKeyBase64 doc' = doc_PublicKeyBase64 doc))
    \<and> (\<forall>rec rd params q. grecs g (params ''id'') = Some rec
          \<and> (cr_RevokedAt rec \<noteq> [] \<or> (\<exists>doc. gdocs g (cr_IssuerDID rec) = Some doc \<and> doc_Deactivated doc)) \<longrightarrow>
        \<not> says_valid (fst (guard P (gw_cfg g') (group_of VerifyCredential) (run_endpoint P J C rd VerifyCredential params) q g')))
    \<and> (\<forall>rec h q grp nxt. gkeys_view g (Header_Get q ''X-Service-ID'') = Some (rec, h) \<and> ak_RevokedAt rec \<noteq> []
          \<and> (grp = Credentials \<or> grp = Verify) \<longrightarrow>
        (\<exists>m g''. guard P (gw_cfg g') grp nxt q g' = (Done (Error 401 m), g'')))"
proof -
  note ok = reach_law(1) [OF assms(1-3)]
  have ok': "gateway_ok g'" using reach_gateway_ok [OF assms(4) ok] by simp
  have s: "gateway_succ g g'" by (rule gateway_reach_succ [OF assms(4) ok])
  have docs: "\<exists>doc'. gdocs g' d = Some doc' \<and> doc_Deactivated doc' \<and> doc_PublicKeyBase64 doc' = doc_PublicKeyBase64 doc"
    if "gdocs g d = Some doc" "doc_Deactivated doc" for d doc
    using s that unfolding gateway_succ_def carried_def doc_succ_def by blast
  have recs: "\<not> valid_now P (gdocs g') (grecs g') t i"
    if r: "grecs g i = Some rec"
      and why: "cr_RevokedAt rec \<noteq> [] \<or> (\<exists>doc. gdocs g (cr_IssuerDID rec) = Some doc \<and> doc_Deactivated doc)" for i rec t
  proof -
    obtain rec' where rec': "grecs g' i = Some rec'" "rec_succ rec rec'" using s r unfolding gateway_succ_def carried_def by blast
    note f = rec_succ_fields [OF rec'(2)]
    from why show ?thesis
    proof
      assume "cr_RevokedAt rec \<noteq> []"
      then show ?thesis using revoked_record_invalid rec'(1) f by blast
    next
      assume "\<exists>doc. gdocs g (cr_IssuerDID rec) = Some doc \<and> doc_Deactivated doc"
      then show ?thesis using docs deactivated_issuer_invalid rec'(1) f by metis
    qed
  qed
  have keys: "\<not> key_presented P g' q" if "gkeys_view g (Header_Get q ''X-Service-ID'') = Some (rec, h)" "ak_RevokedAt rec \<noteq> []" for rec h q
    using s that unfolding gateway_succ_def carried_def key_kept_def key_presented_def key_valid_def by fastforce
  have verify: "\<not> says_valid (fst (guard P (gw_cfg g') Credentials (run_endpoint P J C rd VerifyCredential params) q g'))"
    if "grecs g (params ''id'') = Some rec"
      "cr_RevokedAt rec \<noteq> [] \<or> (\<exists>doc. gdocs g (cr_IssuerDID rec) = Some doc \<and> doc_Deactivated doc)" for rec rd params q
    using guarded_verify_valid [OF ok'] recs [OF that] by blast
  have refused: "\<exists>m g''. guard P (gw_cfg g') grp nxt q g' = (Done (Error 401 m), g'')"
    if "gkeys_view g (Header_Get q ''X-Service-ID'') = Some (rec, h)" "ak_RevokedAt rec \<noteq> []" "grp = Credentials \<or> grp = Verify"
    for rec h q grp nxt
    using guard_key [OF ok' that(3), of P nxt q] keys [OF that(1,2)] by blast
  show ?thesis unfolding group_of_simps using docs verify refused by blast
qed

theorem gateway_revocations_final_witness:
  "\<forall>J rd r. \<exists>doc. gdocs (snd (serve demo_prims J demo_chi rd r (demo_g2 J))) demo_did = Some doc \<and> doc_Deactivated doc"
proof (intro allI)
  fix J rd r
  let ?g = "snd (serve demo_prims J demo_chi rd r (demo_g2 J))"
  have "gateway_reach demo_prims J demo_chi demo_g0 (demo_g2 J)"
    using demo_reached unfolding demo_g2_def by (blast intro: gateway_reach.request surjective_pairing)
  moreover have "gateway_reach demo_prims J demo_chi (demo_g2 J) ?g"
    by (rule gateway_reach.request [OF gateway_reach.start surjective_pairing])
  ultimately show "\<exists>doc. gdocs ?g demo_did = Some doc \<and> doc_Deactivated doc"
    using gateway_revocations_final [OF demo_startup demo_tables] demo_registries(3) [of J]
    by fastforce
qed

section \<open>The log and the counters\<close>

definition line_int :: "string \<Rightarrow> log_line \<Rightarrow> int" where
  "line_int key line = (case map_of (lg_attrs line) key of Some (GInt i) \<Rightarrow> i | _ \<Rightarrow> 0)"

definition access_log :: "gateway \<Rightarrow> log_line list" where
  "access_log g = filter access_line (gw_log g)"

lemma request_line [simp]:
  "access_line (request_line C rd r answer)" "line_int ''status'' (request_line C rd r answer) = int (rs_status answer)"
  "line_int ''duration_ms'' (request_line C rd r answer) = Milliseconds (Sub (rd_stop rd) (rd_start rd))"
  by (simp_all add: request_line_def access_line_def line_int_def http_request_def recorded_def WriteHeader_def)

definition log_agrees :: "gateway \<Rightarrow> bool" where
  "log_agrees g \<longleftrightarrow>
     (let m = gw_metrics g; lines = access_log g in
      mt_requestsTotal m = of_nat (length lines) \<and> mt_responsesTotal m = of_nat (length lines)
      \<and> mt_errorsTotal m = of_nat (length (filter (\<lambda>line. 500 \<le> line_int ''status'' line) lines))
      \<and> mt_latencyTotalMS m = (\<Sum>line\<leftarrow>lines. word_of_int (line_int ''duration_ms'' line))
      \<and> mt_inFlightRequests m = 0)"

lemma serve_agrees:
  assumes "gateway_ok g" "serve P J C rd r g = (rs, g')" "log_agrees g" shows "log_agrees g'"
proof -
  obtain answer where "gw_log g' = gw_log g @ [request_line C rd r answer]"
    "gw_metrics g' = one_more (rs_status answer) (Sub (rd_stop rd) (rd_start rd)) (gw_metrics g)"
    using serve_law(4) [OF assms(1,2)] by blast
  then show ?thesis
    using assms(3) by (simp add: log_agrees_def access_log_def one_more_def metric_defs Let_def)
qed

lemma reach_agrees: "gateway_reach P J C g0 g \<Longrightarrow> gateway_ok g0 \<Longrightarrow> log_agrees g0 \<Longrightarrow> log_agrees g"
proof (induction rule: gateway_reach.induct)
  case (request g rd r rs g')
  then show ?case using serve_agrees reach_gateway_ok by blast
qed (simp_all add: log_agrees_def access_log_def)

lemma startup_logs:
  assumes "startup P ot db = (Inr g, db')" shows "access_log g = []" "gw_metrics g = NewMetrics (ot_now ot)"
proof -
  show "access_log g = []"
    using startup_lines(2) [OF assms] by (simp add: access_log_def access_line_def filter_empty_conv)
  show "gw_metrics g = NewMetrics (ot_now ot)" using assms by (rule startup_parts)
qed

text \<open>
  C16: the counters agree with the log. After any requests, a running gateway has written one access
  line for each of them: the totals of requests and responses are the number of the lines, the
  errors those with a status of 500 or more, the latency the sum of their durations, all modulo
  \<open>2 ^ 64\<close>, and nothing is in flight. The next request adds exactly one line, with its own method,
  path and address, and the status its handler has answered.
\<close>

theorem counters_agree_with_log:
  assumes "startup P ot db = (Inr g0, db')" "tables_ok ot" "gateway_reach P J C g0 g" "serve P J C rd r g = (rs, g')"
  shows "mt_requestsTotal (gw_metrics g) = of_nat (length (access_log g))
    \<and> mt_responsesTotal (gw_metrics g) = of_nat (length (access_log g))
    \<and> mt_errorsTotal (gw_metrics g) = of_nat (length (filter (\<lambda>line. 500 \<le> line_int ''status'' line) (access_log g)))
    \<and> mt_latencyTotalMS (gw_metrics g) = (\<Sum>line\<leftarrow>access_log g. word_of_int (line_int ''duration_ms'' line))
    \<and> mt_inFlightRequests (gw_metrics g) = 0
    \<and> (\<exists>answer line. rs = chi_Recoverer C (chi_Timeout C (30 * second) (Done answer)) \<and> access_log g' = access_log g @ [line]
        \<and> line_int ''status'' line = int (rs_status answer)
        \<and> (let q = chi_RealIP C (chi_RequestID C r) in
            map_of (lg_attrs line) ''method'' = Some (GStr (rq_method q))
            \<and> map_of (lg_attrs line) ''path'' = Some (GStr (concat (rq_path q)))
            \<and> map_of (lg_attrs line) ''remote_addr'' = Some (GStr (rq_RemoteAddr q))))"
proof -
  have "log_agrees g0"
    using startup_logs [OF assms(1)] by (simp add: log_agrees_def NewMetrics_def)
  then have a: "log_agrees g" using reach_agrees [OF assms(3) startup_ok [OF assms(1,2)]] by simp
  obtain answer where n: "rs = chi_Recoverer C (chi_Timeout C (30 * second) (Done answer))"
    "gw_log g' = gw_log g @ [request_line C rd r answer]"
    using serve_law(4) [OF reach_law(1) [OF assms(1-3)] assms(4)] by blast
  let ?line = "request_line C rd r answer"
  have "access_log g' = access_log g @ [?line]" using n(2) by (simp add: access_log_def)
  moreover have "map_of (lg_attrs ?line) ''method'' = Some (GStr (rq_method (chi_RealIP C (chi_RequestID C r))))"
    "map_of (lg_attrs ?line) ''path'' = Some (GStr (concat (rq_path (chi_RealIP C (chi_RequestID C r)))))"
    "map_of (lg_attrs ?line) ''remote_addr'' = Some (GStr (rq_RemoteAddr (chi_RealIP C (chi_RequestID C r))))"
    by (simp_all add: request_line_def http_request_def request.truncate_def)
  ultimately show ?thesis
    using a n(1) unfolding log_agrees_def Let_def by (intro conjI exI [of _ answer] exI [of _ ?line]) simp_all
qed

text \<open>After the registration of the example.\<close>

theorem counters_agree_with_log_witness:
  "\<forall>J. mt_requestsTotal (gw_metrics (demo_g1 J)) = of_nat (length (access_log (demo_g1 J)))
     \<and> length (access_log (demo_g2 J)) = length (access_log (demo_g1 J)) + 1"
proof
  fix J
  show "mt_requestsTotal (gw_metrics (demo_g1 J)) = of_nat (length (access_log (demo_g1 J)))
     \<and> length (access_log (demo_g2 J)) = length (access_log (demo_g1 J)) + 1"
    using counters_agree_with_log [OF demo_startup demo_tables demo_reached(1) surjective_pairing,
        of J demo_rd "demo_post ''/v1/did/revoke'' demo_revoke_json"]
    unfolding demo_g2_def by auto
qed

section \<open>Production\<close>

text \<open>
  C11: a gateway that starts in production has an administration token that is neither empty nor the
  published one of the development setup, does not list the origin \<open>*\<close> among the allowed ones, and
  adds no key of its own: its API keys are exactly those of its database, none if it has none. (The
  list of origins may be empty, see \<open>empty_origins_pass\<close>; what the cors package makes of an empty list
  is not excluded.) Outside production and without a database the two development keys are valid.
  With a database, no gateway starts before every migration is recorded and its relations exist.
\<close>

theorem production_excludes_development_access:
  assumes "startup P ot db = (Inr g, db')" "tables_ok ot" "schema_ok db"
  shows "(IsProduction (gw_cfg g) \<longrightarrow>
        AdminToken (gw_cfg g) \<noteq> [] \<and> AdminToken (gw_cfg g) \<noteq> dev_admin_token \<and> ''*'' \<notin> set (AllowedOrigins (gw_cfg g))
        \<and> gkeys_view g = (if DatabaseURL (gw_cfg g) = [] then Map.empty else akp_view (ot_keys ot)))
    \<and> (\<not> IsProduction (gw_cfg g) \<and> DatabaseURL (gw_cfg g) = [] \<longrightarrow>
        key_valid P (gkeys_view g) ''dev-service'' ''dev-api-key'' \<and> key_valid P (gkeys_view g) ''test-service'' ''test-key'')
    \<and> (DatabaseURL (gw_cfg g) \<noteq> [] \<longrightarrow> schema_ok db' \<and> versions db' = {1, 2, 3})"
  using assms(1)
proof (rule startup_parts)
  fix logged db1 db2
  assume l: "Load (ot_env ot) = Inr (gw_cfg g)"
    and c: "start_chain ot (gw_cfg g) db = (Inr (gw_chain g), logged, db1)"
    and k: "newAPIKeyStore P ot (gw_cfg g) db1 = (Inr (gw_keys g), db2)"
    and cr: "newCredentialStore ot (gw_cfg g) db2 = (Inr (gw_credentials g), db')"
  have inv: "akp_inv (ot_keys ot)" "crpg_inv (ot_credentials ot)"
    "\<forall>i rec. crpg_view (ot_credentials ot) i = Some rec \<longrightarrow> record_wf rec" using assms(2) by (simp_all add: tables_ok_def)
  note ks = newAPIKeyStore_ok [OF inv(1) k]
  have schema: "schema_ok db' \<and> versions db' = {1, 2, 3}" if "DatabaseURL (gw_cfg g) \<noteq> []"
    using newCredentialStore_ok(3) [OF cr inv(2,3) that] ks(4) start_chain_schema [OF c assms(3)] by blast
  have dev: "key_valid P (gkeys_view g) ''dev-service'' ''dev-api-key'' \<and> key_valid P (gkeys_view g) ''test-service'' ''test-key''"
    if "\<not> IsProduction (gw_cfg g)" "DatabaseURL (gw_cfg g) = []"
    using ks(3) [OF that] by (simp add: key_valid_def key_backend_view_def akm_view_def NewMemoryAPIKeyStore_def seeded_keys)
  show ?thesis using Load_production [OF l] ks(2) schema dev by blast
qed

text \<open>A start in production, on a database that is still empty.\<close>

definition demo_production :: outside where
  "demo_production = demo_out\<lparr>ot_env :=
     [(''UDDI_ENV'', ''production''), (''UDDI_ADMIN_TOKEN'', ''secret''), (''UDDI_ALLOWED_ORIGINS'', ''https://app.example''),
      (''UDDI_DATABASE_URL'', ''postgres://db'')]\<rparr>"

definition demo_prod_cfg :: Config where "demo_prod_cfg = loaded (ot_env demo_production)"

lemma demo_trims:
  "TrimSpace ''production'' = ''production''" "TrimSpace ''secret'' = ''secret''" "TrimSpace ''postgres://db'' = ''postgres://db''"
  "TrimSpace ''https://app.example'' = ''https://app.example''" "EqualFold ''production'' ''production''"
  "splitCSV ''https://app.example'' = [''https://app.example'']"
  by code_simp+

lemma demo_prod_cfg [simp]:
  "IsProduction demo_prod_cfg" "validate demo_prod_cfg = None" "DatabaseURL demo_prod_cfg = ''postgres://db''"
  "RedisURL demo_prod_cfg = []"
  by (simp_all add: demo_prod_cfg_def validate_def IsProduction_def loaded_def env_def Getenv_def demo_production_def demo_trims
      dev_admin_token_def)

lemma demo_migrates:
  assumes "schema_ok db" "calm db" shows "\<exists>db'. OpenPostgres clk None None db = (Inr (), db') \<and> schema_ok db' \<and> calm db'"
proof -
  obtain r db' where m: "OpenPostgres clk None None db = (r, db')" by fastforce
  then have "Migrate clk db = (r, db')" by (simp add: OpenPostgres_def)
  then have "r = Inr ()" "calm db'" using Migrate_calm [OF assms, of clk] by simp_all
  then show ?thesis using m OpenPostgres_law(1) [OF m assms(1)] by blast
qed

lemma demo_prod_startup:
  "\<exists>g db'. startup demo_prims demo_production demo_db = (Inr g, db') \<and> gw_cfg g = demo_prod_cfg"
proof -
  have l: "Load (ot_env demo_production) = Inr demo_prod_cfg"
    using demo_prod_cfg(2) by (simp add: Load_def demo_prod_cfg_def [symmetric])
  have fields: "ot_clk demo_production n = demo_clock" "ot_conn demo_production n = (None, None)"
    "ot_keys_clk demo_production = demo_clock" "ot_credentials_clk demo_production = demo_clock"
    "ot_keys_conn demo_production = (None, None)" "ot_credentials_conn demo_production = (None, None)" for n
    by (simp_all add: demo_production_def demo_out_def)
  have "schema_ok demo_db" "calm demo_db" by (simp_all add: schema_ok_def demo_db_def schema_simps calm_def)
  from demo_migrates [OF this] obtain db1 where 1: "OpenPostgres demo_clock None None demo_db = (Inr (), db1)" "schema_ok db1" "calm db1"
    by blast
  from demo_migrates [OF 1(2,3)] obtain db2 where 2: "OpenPostgres demo_clock None None db1 = (Inr (), db2)" "schema_ok db2" "calm db2"
    by blast
  from demo_migrates [OF 2(2,3)] obtain db3 where 3: "OpenPostgres demo_clock None None db2 = (Inr (), db3)" by blast
  have chain: "\<exists>c logged. start_chain demo_production demo_prod_cfg demo_db = (Inr c, logged, db1)"
    by (simp add: start_chain_def connectPostgresDIDStore_def connect_loop.simps NewPostgresDIDStore_def fields 1
        startupDependencyAttempts_def)
  then show ?thesis
    by (auto simp: startup_def l fields 2 3 newChallengeStore_def newAPIKeyStore_def NewPostgresAPIKeyStore_def
        newCredentialStore_def NewPostgresCredentialStore_def NewRouter_def Let_def)
qed

theorem production_excludes_development_access_witness:
  "\<exists>g db'. startup demo_prims demo_production demo_db = (Inr g, db') \<and> IsProduction (gw_cfg g)
     \<and> gkeys_view g = Map.empty \<and> versions db' = {1, 2, 3}"
proof -
  obtain g db' where g: "startup demo_prims demo_production demo_db = (Inr g, db')" "gw_cfg g = demo_prod_cfg"
    using demo_prod_startup by blast
  have "tables_ok demo_production" using demo_tables by (simp add: tables_ok_def demo_production_def)
  moreover have "schema_ok demo_db" by (simp add: schema_ok_def demo_db_def schema_simps)
  moreover have "akp_view (ot_keys demo_production) = Map.empty"
    by (simp add: demo_production_def demo_out_def empty_api_keys_def akp_view_def fun_eq_iff)
  ultimately have "gkeys_view g = Map.empty \<and> versions db' = {1, 2, 3}"
    using production_excludes_development_access [OF g(1)] g(2) by simp
  then show ?thesis using g demo_prod_cfg(1) by metis
qed

end
