(* ===== verification/GatewayRequests.thy ===== *)
theory GatewayRequests
  imports GatewayProperties AuthProperties
begin

text \<open>
  One request from the connection to the answer: which requests reach their endpoint, what the signed
  requests of the DID endpoints answer there, and what becomes of the others.
\<close>

section \<open>The way of a request\<close>

definition did_backend_quiet :: "did_backend \<Rightarrow> bool" where
  "did_backend_quiet s = (case s of Inl m \<Rightarrow> mem_inv m | Inr p \<Rightarrow> pg_quiet p)"

interpretation gdidq: reliable_did_store did_backend_store did_backend_view did_backend_quiet
proof (unfold_locales, goal_cases)
  case (1 s d doc)
  then show ?case by (cases s) (auto simp: did_backend_defs did_backend_quiet_def dest: mem.view_ID pgq.view_ID)
next
  case (2 s)
  then show ?case by (cases s) (auto simp: did_backend_defs did_backend_quiet_def dest: mem.finite_view pgq.finite_view)
next
  case (3 s d rb s')
  then show ?case by (cases s) (auto simp: did_backend_defs did_backend_quiet_def dest: mem.Exists_law pgq.Exists_law)
next
  case (4 s doc ru s')
  then show ?case by (cases s) (auto simp: did_backend_defs did_backend_quiet_def dest: mem.Create_law pgq.Create_law)
next
  case (5 s d rd s')
  then show ?case by (cases s) (auto simp: did_backend_defs did_backend_quiet_def dest: mem.Resolve_law pgq.Resolve_law)
next
  case (6 s now doc ru s')
  then show ?case by (cases s) (auto simp: did_backend_defs did_backend_quiet_def dest: mem.Update_law pgq.Update_law)
next
  case (7 s rs s')
  then show ?case by (cases s) (auto simp: did_backend_defs did_backend_quiet_def dest: mem.Stats_law pgq.Stats_law)
next
  case (8 s d rb s')
  then show ?case by (cases s) (auto simp: did_backend_defs did_backend_quiet_def dest: mem.Exists_ok pgq.Exists_ok)
next
  case (9 s doc ru s')
  then show ?case by (cases s) (auto simp: did_backend_defs did_backend_quiet_def dest: mem.Create_ok pgq.Create_ok)
next
  case (10 s d rd s')
  then show ?case by (cases s) (auto simp: did_backend_defs did_backend_quiet_def dest: mem.Resolve_ok pgq.Resolve_ok)
next
  case (11 s doc now ru s')
  then show ?case by (cases s) (auto simp: did_backend_defs did_backend_quiet_def dest: mem.Update_ok pgq.Update_ok)
next
  case (12 s rs s')
  then show ?case by (cases s) (auto simp: did_backend_defs did_backend_quiet_def dest: mem.Stats_ok pgq.Stats_ok)
qed

text \<open>The request behind the limit on its body; whether the limiter admits it; where the router takes it.\<close>

definition arriving :: "chi \<Rightarrow> Config \<Rightarrow> raw_request \<Rightarrow> raw_request" where
  "arriving C cfg r =
     (let r = chi_RealIP C (chi_RequestID C r); maxBytes = MaxRequestBodyBytes cfg in
      if 0 < maxBytes then r\<lparr>rq_text := take (nat maxBytes) (rq_text r)\<rparr> else r)"

lemma routed_arriving: "routed_request C cfg r = decoded_request (arriving C cfg r)"
  by (simp add: routed_request_def arriving_def Let_def)

definition admission :: "chi \<Rightarrow> readings \<Rightarrow> gateway \<Rightarrow> raw_request \<Rightarrow> bool \<times> RateLimiter" where
  "admission C rd g r = allow (rd_now rd) (clientIP (arriving C (gw_cfg g) r)) (gw_limiter g)"

definition arrives_at :: "chi \<Rightarrow> gateway \<Rightarrow> raw_request \<Rightarrow> endpoint \<Rightarrow> (string \<Rightarrow> string) \<Rightarrow> bool" where
  "arrives_at C g r e params \<longleftrightarrow>
     chi_Preflight C (cors_of (gw_cfg g)) (arriving C (gw_cfg g) r) = None
     \<and> (\<exists>i < length routes. e = snd (snd (snd (routes ! i)))
          \<and> chi_Match C (map (\<lambda>(_, method, pattern, _). (method, pattern)) routes) (routed_request C (gw_cfg g) r) = Found i params)"

text \<open>The gateway a handler finds: counted, and with the limiter after the decision.\<close>

definition entered :: "chi \<Rightarrow> readings \<Rightarrow> gateway \<Rightarrow> raw_request \<Rightarrow> gateway" where
  "entered C rd g r =
     put_limiter (snd (admission C rd g r)) (put_metrics (enter_flight (count_request (gw_metrics g))) g)"

lemma entered_data: "same_data g (entered C rd g r)" "gw_cfg (entered C rd g r) = gw_cfg g"
  "gw_chain (entered C rd g r) = gw_chain g"
  by (simp_all add: entered_def same_data_def put_limiter_def put_metrics_def)

lemma limited_arrives:
  assumes "fst (admission C rd g r)" "arrives_at C g r e params"
    and "guard P (gw_cfg g) (group_of e) (run_endpoint P J C rd e params) (routed_request C (gw_cfg g) r) (entered C rd g r) = (Done a, h)"
  shows "\<exists>hs. limited P J C rd (gw_cfg g) (chi_RealIP C (chi_RequestID C r))
      (put_metrics (enter_flight (count_request (gw_metrics g))) g) = (Done (a\<lparr>rs_headers := hs\<rparr>), h)"
proof -
  let ?g1 = "put_metrics (enter_flight (count_request (gw_metrics g))) g" and ?raw = "arriving C (gw_cfg g) r"
  have lim: "gw_limiter ?g1 = gw_limiter g" by (simp add: put_metrics_def)
  obtain i where i: "i < length routes" "e = snd (snd (snd (routes ! i)))"
    "chi_Match C (map (\<lambda>(_, method, pattern, _). (method, pattern)) routes) (routed_request C (gw_cfg g) r) = Found i params"
    "chi_Preflight C (cors_of (gw_cfg g)) ?raw = None"
    using assms(2) unfolding arrives_at_def by blast
  obtain grp m p where rt: "routes ! i = (grp, m, p, e)" using i(2) by (metis prod.collapse)
  have "group_of e = grp" using nth_mem [OF i(1)] rt group_of_route by metis
  then have ro: "router P J C rd ?raw (entered C rd g r) = (Done a, h)"
    using assms(3) i(1,3) rt by (simp add: router_def routed_arriving entered_data Let_def)
  obtain l where al: "allow (rd_now rd) (clientIP ?raw) (gw_limiter g) = (True, l)"
    using assms(1) by (cases "allow (rd_now rd) (clientIP ?raw) (gw_limiter g)") (simp add: admission_def)
  have "put_limiter l ?g1 = entered C rd g r" using al by (simp add: entered_def admission_def)
  then have "RateLimiter_Middleware (rd_now rd) gw_limiter put_limiter
      (cors_Handler C (cors_of (gw_cfg g)) (router P J C rd)) ?raw ?g1
      = (with_headers (chi_CorsHeaders C (cors_of (gw_cfg g)) ?raw) (Done a), h)"
    using al lim ro i(4) by (simp add: RateLimiter_Middleware_def cors_Handler_def)
  moreover have "limited P J C rd (gw_cfg g) (chi_RealIP C (chi_RequestID C r)) ?g1 =
        (let (out, h) = RateLimiter_Middleware (rd_now rd) gw_limiter put_limiter
           (cors_Handler C (cors_of (gw_cfg g)) (router P J C rd)) ?raw ?g1 in (with_headers security_headers out, h))"
    by (simp add: limited_def SecurityHeaders_def LimitRequestBody_def arriving_def Let_def)
  ultimately have "limited P J C rd (gw_cfg g) (chi_RealIP C (chi_RequestID C r)) ?g1
      = (Done (a\<lparr>rs_headers := security_headers @ chi_CorsHeaders C (cors_of (gw_cfg g)) ?raw @ rs_headers a\<rparr>), h)"
    by (simp add: with_headers_def)
  then show ?thesis by blast
qed

lemma serve_limited:
  assumes "limited P J C rd (gw_cfg g) (chi_RealIP C (chi_RequestID C r))
      (put_metrics (enter_flight (count_request (gw_metrics g))) g) = (Done a, h)"
    and "serve P J C rd r g = (rs, g')"
  shows "rs = chi_Recoverer C (chi_Timeout C (30 * second) (Done a)) \<and> same_data h g'"
  using assms by (auto simp: serve_def Metrics_Middleware_def Let_def same_data_def put_metrics_def put_log_def)

section \<open>Signed requests\<close>

definition did_answer :: "prims \<Rightarrow> readings \<Rightarrow> endpoint \<Rightarrow> (string \<Rightarrow> string) \<Rightarrow> json option \<Rightarrow> did_backend Client \<Rightarrow> did_backend Client handled" where
  "did_answer P rd e params body c =
     (case e of
        RegisterDID \<Rightarrow> DIDHandler_Register P did_backend_store (rd_clk rd) c body
      | RevokeDID \<Rightarrow> DIDHandler_Revoke P did_backend_store (rd_clk rd) c body
      | _ \<Rightarrow> DIDHandler_Update P did_backend_store (rd_clk rd) c (params ''did'') body)"

lemma serve_did:
  assumes ok: "gateway_ok g" and e: "e \<in> {RegisterDID, RevokeDID, UpdateDID}"
    and at: "fst (admission C rd g r)" "arrives_at C g r e params" and sv: "serve P J C rd r g = (rs, g')"
  obtains a hs c where "did_answer P rd e params (rq_body (routed_request C (gw_cfg g) r)) (gw_chain g) = (Done a, c)"
    "rs = chi_Recoverer C (chi_Timeout C (30 * second) (Done (a\<lparr>rs_headers := hs\<rparr>)))" "gw_chain g' = c"
proof -
  let ?q = "routed_request C (gw_cfg g) r" and ?g2 = "entered C rd g r"
  obtain out c where h: "did_answer P rd e params (rq_body ?q) (gw_chain g) = (out, c)" by fastforce
  have "\<exists>op. did_serve P did_backend_store (rd_clk rd) op (gw_chain g) = (out, c)"
    using h e did_serve_def [of P did_backend_store "rd_clk rd" "OpRegister (rq_body ?q)"]
      did_serve_def [of P did_backend_store "rd_clk rd" "OpRevoke (rq_body ?q)"]
      did_serve_def [of P did_backend_store "rd_clk rd" "OpUpdate (params ''did'') (rq_body ?q)"]
    by (auto simp: did_answer_def) metis+
  then obtain a where a: "out = Done a" using chain_law(2) [OF ok] by (metis outcome.exhaust)
  have grp: "group_of e = DIDs" using e by (auto simp: group_of_def routes_def)
  have "guard P (gw_cfg g) (group_of e) (run_endpoint P J C rd e params) ?q ?g2 = (Done a, ?g2\<lparr>gw_chain := c\<rparr>)"
    using e h a unfolding grp by (auto simp: guard_def run_endpoint_def on_chain_def did_answer_def entered_data)
  from limited_arrives [OF at this] obtain hs where
    "limited P J C rd (gw_cfg g) (chi_RealIP C (chi_RequestID C r))
      (put_metrics (enter_flight (count_request (gw_metrics g))) g) = (Done (a\<lparr>rs_headers := hs\<rparr>), ?g2\<lparr>gw_chain := c\<rparr>)"
    by blast
  from serve_limited [OF this sv] show thesis using that h a by (auto simp: same_data_def)
qed

text \<open>
  C12: signed requests are accepted from the connection on. When the limiter admits a request, the router
  takes it to an endpoint that changes a DID, and the store of the DIDs does not fail, the answer
  has the status of success exactly when the request is valid: a DID of the format, a
  registry entry as the operation needs it, and a signature of the key that the operation names. Then
  the registry has changed as the request says. This is the handler's answer up to headers, as the
  library outside passes it on.
\<close>

theorem signed_requests_accepted:
  assumes "startup P ot db = (Inr g0, db')" "tables_ok ot" "gateway_reach P J C g0 g"
    and "did_backend_quiet (cl_store (gw_chain g))" "fst (admission C rd g r)" "arrives_at C g r e params"
    and "serve P J C rd r g = (rs, g')" "body = rq_body (routed_request C (gw_cfg g) r)"
    and "e \<in> {RegisterDID, RevokeDID, UpdateDID}"
  shows "\<exists>answer. rs = chi_Recoverer C (chi_Timeout C (30 * second) (Done answer))
    \<and> (e = RegisterDID \<longrightarrow> (rs_status answer = 201 \<longleftrightarrow> (\<exists>req key. register_valid P (gdocs g) body req key))
        \<and> (\<forall>req key. register_valid P (gdocs g) body req key \<longrightarrow>
            gdocs g' = (gdocs g)(reg_DID req \<mapsto> registered_doc (rd_clk rd 0) \<lparr>rp_DID = reg_DID req, rp_PublicKey = key\<rparr>)))
    \<and> (e = RevokeDID \<longrightarrow> (rs_status answer = 200 \<longleftrightarrow> (\<exists>req doc. revoke_valid P (gdocs g) body req doc))
        \<and> (\<forall>req doc. revoke_valid P (gdocs g) body req doc \<longrightarrow> writes (gdocs g) (doc\<lparr>doc_Deactivated := True\<rparr>) (gdocs g')))
    \<and> (e = UpdateDID \<longrightarrow>
        (rs_status answer = 200 \<longleftrightarrow> (\<exists>req doc key. update_valid P (gdocs g) (params ''did'') body req doc key))
        \<and> (\<forall>req doc key. update_valid P (gdocs g) (params ''did'') body req doc key \<longrightarrow>
            writes (gdocs g) (updated_doc (rd_clk rd 0)
              \<lparr>up_DID = params ''did'', up_PublicKey = key, up_Context = upd_Context req\<rparr> doc) (gdocs g')))"
proof -
  have ok: "gateway_ok g" using reach_law [OF assms(1-3)] by simp
  then have reg: "registry_ok (gdocs g)" by (simp add: gateway_ok_def)
  obtain a hs c where h: "did_answer P rd e params body (gw_chain g) = (Done a, c)"
    "rs = chi_Recoverer C (chi_Timeout C (30 * second) (Done (a\<lparr>rs_headers := hs\<rparr>)))" "gw_chain g' = c"
    using serve_did [OF ok assms(9,5,6,7)] unfolding assms(8) by blast
  note q = assms(4)
  from assms(9) consider "e = RegisterDID" | "e = RevokeDID" | "e = UpdateDID" by blast
  then show ?thesis
  proof cases
    case 1
    then have "DIDHandler_Register P did_backend_store (rd_clk rd) (gw_chain g) body = (Done a, c)"
      using h(1) by (simp add: did_answer_def)
    from gdidq.Register_iff [OF q this] show ?thesis using 1 h(2,3) by (intro exI conjI) (assumption, simp_all)
  next
    case 2
    then have "DIDHandler_Revoke P did_backend_store (rd_clk rd) (gw_chain g) body = (Done a, c)"
      using h(1) by (simp add: did_answer_def)
    from gdidq.Revoke_iff [OF q reg this] show ?thesis using 2 h(2,3) by (intro exI conjI) (assumption, simp_all)
  next
    case 3
    then have "DIDHandler_Update P did_backend_store (rd_clk rd) (gw_chain g) (params ''did'') body = (Done a, c)"
      using h(1) by (simp add: did_answer_def)
    from gdidq.Update_iff [OF q reg this] show ?thesis using 3 h(2,3) by (intro exI conjI) (assumption, simp_all)
  qed
qed

lemma demo_arrives:
  assumes "length (json_text j) \<le> 1000" "json_ok j" "json_depth j \<le> maxNestingDepth" "gw_cfg g = demo_cfg"
  shows "arriving demo_chi demo_cfg (demo_post path j) = demo_post path j"
    and "routed_request demo_chi demo_cfg (demo_post path j)
      = \<lparr>rq_method = ''POST'', rq_path = [path], rq_headers = [], rq_RemoteAddr = ''10.0.0.1'', rq_body = Some j\<rparr>"
    and "admission demo_chi demo_rd g (demo_post path j) = allow (demo_clock 0) ''10.0.0.1'' (gw_limiter g)"
    and "arrives_at demo_chi g (demo_post ''/v1/did/register'' j) RegisterDID (\<lambda>_. [])"
proof -
  note req = demo_request [OF assms(1-3)]
  show arr: "arriving demo_chi demo_cfg (demo_post path j) = demo_post path j" for path
    using req(3) [of path] by (simp add: arriving_def)
  show "routed_request demo_chi demo_cfg (demo_post path j)
      = \<lparr>rq_method = ''POST'', rq_path = [path], rq_headers = [], rq_RemoteAddr = ''10.0.0.1'', rq_body = Some j\<rparr>"
    using req(1) by (simp add: routed_arriving arr)
  show "admission demo_chi demo_rd g (demo_post path j) = allow (demo_clock 0) ''10.0.0.1'' (gw_limiter g)"
    using req(2) by (simp add: admission_def arr assms(4))
  show "arrives_at demo_chi g (demo_post ''/v1/did/register'' j) RegisterDID (\<lambda>_. [])"
    using demo_match [OF assms(1-3), of "''/v1/did/register''"]
    by (auto simp: arrives_at_def routed_arriving arr assms(4) demo_routes intro!: exI [of _ 5])
qed

theorem signed_requests_accepted_witness:
  "\<forall>J. rs_status (fst (serve demo_prims J demo_chi demo_rd (demo_post ''/v1/did/register'' demo_register_json) demo_g0)) = 201"
proof
  fix J
  let ?r = "demo_post ''/v1/did/register'' demo_register_json"
  note arr = demo_arrives [OF demo_texts(1) demo_jsons(1,2), of demo_g0]
  have cfg: "gw_cfg demo_g0 = demo_cfg" by (simp add: demo_g0_def)
  have quiet: "did_backend_quiet (cl_store (gw_chain demo_g0))"
    by (simp add: demo_g0_def did_backend_quiet_def NewClientWithStore_def NewMemoryDIDStore_def mem_inv_def)
  have adm: "fst (admission demo_chi demo_rd demo_g0 ?r)" using arr(3) [OF cfg] demo_admitted by auto
  have body: "rq_body (routed_request demo_chi (gw_cfg demo_g0) ?r) = demo_register"
    using arr(2) [OF cfg] by (simp add: cfg demo_json_some)
  have "\<exists>req key. register_valid demo_prims (gdocs demo_g0) demo_register req key"
    by (simp add: register_valid_def demo_registries)
  then show "rs_status (fst (serve demo_prims J demo_chi demo_rd ?r demo_g0)) = 201"
    using signed_requests_accepted [OF demo_startup demo_tables gateway_reach.start quiet adm arr(4) [OF cfg] surjective_pairing body [symmetric]]
    by auto
qed

section \<open>Requests beyond the limit\<close>

text \<open>
  C13: a request that the limiter does not admit changes nothing. Whatever it carries, valid keys and
  signatures included, it is answered 429 before the router sees it, and the registry, the
  challenges, the credentials and the keys stay as they are; it counts as a request in the log
  and the counters, but not as an error.
\<close>

theorem throttled_requests_change_nothing:
  assumes "\<not> fst (admission C rd g r)" "serve P J C rd r g = (rs, g')"
  shows "\<exists>answer. rs = chi_Recoverer C (chi_Timeout C (30 * second) (Done answer)) \<and> rs_status answer = 429
    \<and> gw_chain g' = gw_chain g \<and> gw_challenges g' = gw_challenges g \<and> gw_keys g' = gw_keys g
    \<and> gw_credentials g' = gw_credentials g
    \<and> mt_requestsTotal (gw_metrics g') = mt_requestsTotal (gw_metrics g) + 1
    \<and> mt_errorsTotal (gw_metrics g') = mt_errorsTotal (gw_metrics g)
    \<and> access_log g' = access_log g @ [request_line C rd r answer]"
proof -
  let ?g1 = "put_metrics (enter_flight (count_request (gw_metrics g))) g" and ?raw = "arriving C (gw_cfg g) r"
  obtain l where al: "allow (rd_now rd) (clientIP ?raw) (gw_limiter ?g1) = (False, l)"
    using assms(1) by (cases "allow (rd_now rd) (clientIP ?raw) (gw_limiter g)") (simp add: admission_def put_metrics_def)
  have "limited P J C rd (gw_cfg g) (chi_RealIP C (chi_RequestID C r)) ?g1 =
        (let (out, h) = RateLimiter_Middleware (rd_now rd) gw_limiter put_limiter
           (cors_Handler C (cors_of (gw_cfg g)) (router P J C rd)) ?raw ?g1 in (with_headers security_headers out, h))"
    by (simp add: limited_def SecurityHeaders_def LimitRequestBody_def arriving_def Let_def)
  then obtain a where a: "limited P J C rd (gw_cfg g) (chi_RealIP C (chi_RequestID C r)) ?g1 = (Done a, put_limiter l ?g1)"
    "rs_status a = 429"
    using al by (simp add: RateLimiter_Middleware_def with_headers_def)
  then have "rs = chi_Recoverer C (chi_Timeout C (30 * second) (Done a))"
    "g' = put_metrics (one_more 429 (Sub (rd_stop rd) (rd_start rd)) (gw_metrics g))
       (put_log (request_line C rd r a) (put_limiter l ?g1))"
    using assms(2)
    by (simp_all add: serve_def Metrics_Middleware_def Let_def one_more_def request_line_def recorded_def WriteHeader_def
        put_metrics_def put_log_def put_limiter_def)
  then show ?thesis using a(2)
    by (intro exI [of _ a]) (simp add: put_metrics_def put_log_def put_limiter_def one_more_def metric_defs access_log_def)
qed

text \<open>The example's registration, when its address has already used up a limit of one request a minute.\<close>

definition demo_throttled :: gateway where
  "demo_throttled = demo_g0\<lparr>gw_limiter :=
     \<lparr>rl_limit = 1, rl_window = 60 * second,
      rl_buckets = [(''10.0.0.1'', \<lparr>rb_count = 1, rb_resetAt = demo_clock 0 + 30 * second, rb_updatedAt = demo_clock 0\<rparr>)],
      rl_lastSweep = demo_clock 0\<rparr>\<rparr>"

lemma demo_refused: "\<not> fst (admission demo_chi demo_rd demo_throttled (demo_post ''/v1/did/register'' demo_register_json))"
proof -
  have "gw_cfg demo_throttled = demo_cfg" by (simp add: demo_throttled_def demo_g0_def)
  then show ?thesis
    by (simp add: demo_arrives(3) [OF demo_texts(1) demo_jsons(1,2)] demo_throttled_def allow_def sweep_def demo_clock_def
        zero_time_def second_def Sub_def)
qed

theorem throttled_requests_change_nothing_witness:
  "\<forall>J. rs_status (fst (serve demo_prims J demo_chi demo_rd (demo_post ''/v1/did/register'' demo_register_json)
     demo_throttled)) = 429"
proof
  fix J
  show "rs_status (fst (serve demo_prims J demo_chi demo_rd (demo_post ''/v1/did/register'' demo_register_json)
     demo_throttled)) = 429"
    using throttled_requests_change_nothing [OF demo_refused surjective_pairing, of demo_prims J] by auto
qed

section \<open>Challenges of other services\<close>

text \<open>
  C40: the binding of a challenge to its service is optional. When a request to the authentication
  endpoint authenticates a DID, then so does, in the same state, any request with the same
  presentation that leaves out \<open>serviceId\<close> and comes from any service with a valid API key:
  \<open>VerifyAuth\<close> compares services only if the body names one, and never looks at the service that the
  guard has let in. So any service can redeem a challenge made for another. This holds for every
  choice of stores, and whatever their drivers do.
\<close>

theorem service_binding_is_optional:
  assumes "decode_auth (rq_body q) = Some req" "decode_auth (rq_body q') = Some (req\<lparr>va_ServiceID := []\<rparr>)"
    and "authenticates (fst (guard P (gw_cfg g) (group_of VerifyAuthentication) (run_endpoint P J C rd VerifyAuthentication params) q g)) d"
    and "i = Header_Get q' ''X-Service-ID''" "k = Header_Get q' ''X-API-Key''" "i \<noteq> []" "k \<noteq> []"
    and "fst (aks_Validate (key_backend_store P) (gw_keys g) i k) = Inr ()"
  shows "authenticates (fst (guard P (gw_cfg g) (group_of VerifyAuthentication) (run_endpoint P J C rd VerifyAuthentication params) q' g)) d"
proof -
  let ?h = "NewVerifyHandlerWithChallengeStore (gw_chain g) (gw_zkp g) (gw_challenges g)"
  have run: "fst (run_endpoint P J C rd VerifyAuthentication params r (put_keys s g)) =
      fst (VerifyAuth P did_backend_store challenge_backend_store (rd_clk rd) ?h (rq_body r))" for r s
    by (simp add: run_endpoint_def on_verify_def put_keys_def split: prod.split)
  have g: "guard P (gw_cfg g) (group_of VerifyAuthentication) = RequireAPIKey (key_backend_store P) gw_keys put_keys"
    by (simp add: guard_def)
  have "authenticates (fst (VerifyAuth P did_backend_store challenge_backend_store (rd_clk rd) ?h (rq_body q))) d"
    using assms(3) unfolding g by (auto simp: RequireAPIKey_def Let_def run split: if_splits prod.splits sum.splits)
  note this [THEN VerifyAuth_without_service, OF assms(1,2)]
  moreover obtain s where "aks_Validate (key_backend_store P) (gw_keys g) i k = (Inr (), s)" using assms(8) by (metis prod.collapse)
  ultimately show ?thesis unfolding g using assms(4-7) by (simp add: RequireAPIKey_def Let_def run)
qed

text \<open>The challenge for the service \<open>svc\<close>, presented by two other services.\<close>

lemma VerifyAuth_memory:
  "fst (VerifyAuth P did_backend_store challenge_backend_store clk
      \<lparr>vh_chain = \<lparr>cl_rpc = rpc, cl_store = Inl m\<rparr>, vh_zkp = z, vh_challengeStore = Inl c\<rparr> body)
   = fst (dev_VerifyAuth P clk \<lparr>vh_chain = \<lparr>cl_rpc = rpc, cl_store = m\<rparr>, vh_zkp = z', vh_challengeStore = c\<rparr> body)"
proof -
  have r: "fst (Client_ResolveDID did_backend_store \<lparr>cl_rpc = rpc, cl_store = Inl m\<rparr> d) =
      fst (Client_ResolveDID memory_did_store \<lparr>cl_rpc = rpc, cl_store = m\<rparr> d)" for d
    by (simp add: Client_ResolveDID_def did_backend_store_def dispatch_def case_prod_unfold Let_def)
  show ?thesis
    by (simp add: VerifyAuth_def challenge_backend_store_def dispatch_def Let_def case_prod_unfold if_distrib [of fst]
        option.case_distrib [of fst] sum.case_distrib [of fst] outcome.case_distrib [of fst] bool.case_distrib [of fst] r
        cong: option.case_cong sum.case_cong outcome.case_cong bool.case_cong if_cong)
qed

definition demo_verifying :: gateway where
  "demo_verifying = demo_g0\<lparr>gw_chain := \<lparr>cl_rpc = ''r'', cl_store = Inl (cl_store demo_m1)\<rparr>,
     gw_challenges := Inl (vh_challengeStore (demo_dev demo_m1))\<rparr>"

definition demo_redeem :: "string \<Rightarrow> string \<Rightarrow> string \<Rightarrow> request" where
  "demo_redeem i k service = (key_request i k)\<lparr>rq_body := demo_auth service\<rparr>"

theorem service_binding_is_optional_witness:
  "\<forall>J. authenticates (fst (guard demo_prims (gw_cfg demo_verifying) Verify
      (run_endpoint demo_prims J demo_chi demo_rd VerifyAuthentication (\<lambda>_. [])) (demo_redeem ''test-service'' ''test-key'' []) demo_verifying)) demo_did"
proof
  fix J
  let ?run = "run_endpoint demo_prims J demo_chi demo_rd VerifyAuthentication (\<lambda>_. [])"
  have hd: "Header_Get (demo_redeem i k s) ''X-API-Key'' = k" "Header_Get (demo_redeem i k s) ''X-Service-ID'' = i"
    "rq_body (demo_redeem i k s) = demo_auth s" for i k s
    by (simp_all add: Header_Get_def demo_redeem_def key_request_def upper_char_def)
  have v: "fst (aks_Validate (key_backend_store demo_prims) (gw_keys demo_verifying) i k) = Inr ()"
    if "(i, k) = (''dev-service'', ''dev-api-key'') \<or> (i, k) = (''test-service'', ''test-key'')" for i k
    using that by (auto simp: demo_verifying_def demo_g0_def key_backend_store_def dispatch_def memory_api_key_defs
        NewMemoryAPIKeyStore_def seeded_keys Let_def)
  have c: "\<lparr>cl_rpc = ''r'', cl_store = cl_store demo_m1\<rparr> = demo_m1" by (simp add: demo_m1_eq)
  have "authenticates (fst (VerifyAuth demo_prims did_backend_store challenge_backend_store demo_clock
      (NewVerifyHandlerWithChallengeStore (gw_chain demo_verifying) (gw_zkp demo_verifying) (gw_challenges demo_verifying))
      (demo_auth ''svc''))) demo_did"
    using demo_accepts_dev [OF demo_dev_reach(1), of demo_doc "''svc''"]
    by (simp add: NewVerifyHandlerWithChallengeStore_def demo_verifying_def VerifyAuth_memory [where z' = demo_zkp] c demo_dev_def)
  then have "authenticates (fst (guard demo_prims (gw_cfg demo_verifying) (group_of VerifyAuthentication) ?run
      (demo_redeem ''dev-service'' ''dev-api-key'' ''svc'') demo_verifying)) demo_did"
    using v [of "''dev-service''" "''dev-api-key''"]
    by (auto simp: guard_def RequireAPIKey_def hd run_endpoint_def on_verify_def put_keys_def Let_def demo_rd_def split: prod.splits)
  moreover have "decode_auth (demo_auth []) = Some (demo_auth_req ''svc''\<lparr>va_ServiceID := []\<rparr>)"
    by (simp add: demo_auth_req_def)
  ultimately show "authenticates (fst (guard demo_prims (gw_cfg demo_verifying) Verify ?run
      (demo_redeem ''test-service'' ''test-key'' []) demo_verifying)) demo_did"
    using service_binding_is_optional [of "demo_redeem ''dev-service'' ''dev-api-key'' ''svc''" "demo_auth_req ''svc''"
        "demo_redeem ''test-service'' ''test-key'' []" demo_prims demo_verifying J demo_chi demo_rd "\<lambda>_. []" demo_did
        "''test-service''" "''test-key''"] v [of "''test-service''" "''test-key''"]
    by (simp add: hd)
qed

end
