(* ===== verification/Process.thy ===== *)
theory Process
  imports GatewayRuns
begin

text \<open>
  \<open>main.go\<close> after the start: the goroutine that listens, the main goroutine that waits for a signal and
  shuts the server down, and the requests on their goroutines, as one step relation. Of \<open>net/http\<close> the
  model has what its documentation says: \<open>ListenAndServe\<close> accepts connections until an error or
  until \<open>Shutdown\<close> closes the listener; \<open>Shutdown\<close> waits for the active requests or for the end of its
  context; a write after the deadline of \<open>WriteTimeout\<close>, which starts when the header of the request
  has been read, fails. A handler answers when it is done, so its answer is lost or it is not.
\<close>

section \<open>The process\<close>

record http_server =
  sv_Addr :: string
  sv_ReadTimeout :: duration
  sv_WriteTimeout :: duration
  sv_IdleTimeout :: duration

definition server :: "Config \<Rightarrow> http_server" where
  "server cfg =
     \<lparr>sv_Addr = HTTPAddr cfg,
      sv_ReadTimeout = 15 * second,
      sv_WriteTimeout = 15 * second,
      sv_IdleTimeout = 60 * second\<rparr>"

definition shutdownTimeout :: duration where "shutdownTimeout = 30 * second"

text \<open>
  Where the main goroutine is: before \<open>signal.Notify\<close>, at the receive from \<open>quit\<close>, in \<open>Shutdown\<close> since
  a time, or past its end; or the process was ended by \<open>os.Exit\<close> or by a signal nobody handles.
\<close>

datatype main_at = Started | Waiting | Stopping time | Returned time | Exited nat | Killed

datatype listener_at = Launched | Listening | Closed

text \<open>
  \<open>pc_signalled\<close> is the buffer of \<open>quit\<close>, which holds one signal. An active request has the number
  under which it was accepted and the time its header was read; a reply is \<open>None\<close> when it was lost.
\<close>

record process =
  pc_now :: time
  pc_main :: main_at
  pc_listener :: listener_at
  pc_shut :: bool
  pc_signalled :: bool
  pc_server :: http_server
  pc_gateway :: gateway
  pc_accepted :: nat
  pc_active :: "(nat \<times> raw_request \<times> time) list"
  pc_replies :: "(nat \<times> response option) list"
  pc_store_open :: bool

definition launch :: "gateway \<Rightarrow> time \<Rightarrow> process" where
  "launch g now =
     \<lparr>pc_now = now, pc_main = Started, pc_listener = Launched, pc_shut = False, pc_signalled = False,
      pc_server = server (gw_cfg g), pc_gateway = g, pc_accepted = 0, pc_active = [], pc_replies = [],
      pc_store_open = (DatabaseURL (gw_cfg g) \<noteq> [])\<rparr>"

text \<open>The whole of \<open>main\<close>: a log and the exit status 1, or a process that runs.\<close>

definition main :: "prims \<Rightarrow> outside \<Rightarrow> time \<Rightarrow> pgdb \<Rightarrow> (log_line list + process) \<times> pgdb" where
  "main P ot now db =
     (case startup P ot db of
        (Inl logged, db) \<Rightarrow> (Inl logged, db)
      | (Inr r, db) \<Rightarrow> (Inr (launch r now), db))"

lemma main_starts:
  "main P ot now db = (Inr p, db') \<Longrightarrow> startup P ot db = (Inr (pc_gateway p), db') \<and> p = launch (pc_gateway p) now"
  by (auto simp: main_def launch_def split: prod.splits sum.splits)

fun running :: "main_at \<Rightarrow> bool" where
  "running Started = True"
| "running Waiting = True"
| "running (Stopping since) = True"
| "running _ = False"

section \<open>The operations\<close>

definition main_logs :: "log_line \<Rightarrow> process \<Rightarrow> process" where
  "main_logs line p = p\<lparr>pc_gateway := put_log line (pc_gateway p)\<rparr>"

text \<open>The goroutine of the listener: its line, \<open>ListenAndServe\<close>, and the exit when that fails.\<close>

definition listen :: "process \<Rightarrow> process" where
  "listen p = main_logs (Info ''UDDI API Gateway starting'' [(''addr'', GStr (sv_Addr (pc_server p)))])
     (p\<lparr>pc_listener := (if pc_shut p then Closed else Listening)\<rparr>)"

definition listen_fails :: "string \<Rightarrow> process \<Rightarrow> process" where
  "listen_fails err p =
     main_logs \<lparr>lg_level = LevelError, lg_msg = ''server error'', lg_attrs = [(''error'', GStr err)]\<rparr> (p\<lparr>pc_main := Exited 1\<rparr>)"

text \<open>
  A request is accepted, and later served and answered, as a whole: the handlers of overlapping requests
  interleave at finer grain in \<open>Interference\<close>, and nothing here rests on their order.
\<close>

definition accept_request :: "raw_request \<Rightarrow> process \<Rightarrow> process" where
  "accept_request r p =
     p\<lparr>pc_accepted := pc_accepted p + 1, pc_active := pc_active p @ [(pc_accepted p, r, pc_now p)]\<rparr>"

definition delivered :: "http_server \<Rightarrow> duration \<Rightarrow> response \<Rightarrow> response option" where
  "delivered srv took_time rs = (if took_time < sv_WriteTimeout srv then Some rs else None)"

definition serve_request :: "prims \<Rightarrow> jsonb \<Rightarrow> chi \<Rightarrow> readings \<Rightarrow> nat \<times> raw_request \<times> time \<Rightarrow> process \<Rightarrow> process" where
  "serve_request P J C rd a p =
     (let (i, r, t) = a; (rs, g) = serve P J C rd r (pc_gateway p) in
      p\<lparr>pc_gateway := g, pc_active := filter (\<lambda>b. fst b \<noteq> i) (pc_active p),
        pc_replies := pc_replies p @ [(i, delivered (pc_server p) (pc_now p - t) rs)]\<rparr>)"

text \<open>The main goroutine from the signal on; the deferred calls are the last thing it does.\<close>

definition begin_shutdown :: "process \<Rightarrow> process" where
  "begin_shutdown p =
     main_logs (Info ''Shutting down gracefully...'' []) (p\<lparr>pc_main := Stopping (pc_now p), pc_signalled := False\<rparr>)"

definition close_listener :: "process \<Rightarrow> process" where
  "close_listener p =
     p\<lparr>pc_shut := True, pc_listener := (if pc_listener p = Listening then Closed else pc_listener p)\<rparr>"

definition forced_shutdown :: "string \<Rightarrow> log_line" where
  "forced_shutdown err = \<lparr>lg_level = LevelError, lg_msg = ''forced shutdown'', lg_attrs = [(''error'', GStr err)]\<rparr>"

definition finish_main :: "string option \<Rightarrow> time \<Rightarrow> process \<Rightarrow> process" where
  "finish_main err since p =
     (let p = (case err of Some err \<Rightarrow> main_logs (forced_shutdown err) p | None \<Rightarrow> p);
          p = main_logs (Info ''Server stopped'' []) p
      in p\<lparr>pc_main := Returned since, pc_store_open := False\<rparr>)"

section \<open>The steps\<close>

text \<open>
  The context of \<open>Shutdown\<close> ends after 30 seconds, and \<open>Shutdown\<close> returns at that moment at the latest:
  time does not pass beyond. Closing the listener may give an error, which is returned once no
  request is active.
\<close>

inductive process_step :: "prims \<Rightarrow> jsonb \<Rightarrow> chi \<Rightarrow> process \<Rightarrow> process \<Rightarrow> bool"
  for P :: prims and J :: jsonb and C :: chi where
  passes: "running (pc_main p) \<Longrightarrow> 0 \<le> d \<Longrightarrow> (\<forall>since. pc_main p = Stopping since \<longrightarrow> pc_now p + d \<le> since + shutdownTimeout)
     \<Longrightarrow> process_step P J C p (p\<lparr>pc_now := pc_now p + d\<rparr>)"
| listens: "running (pc_main p) \<Longrightarrow> pc_listener p = Launched \<Longrightarrow> process_step P J C p (listen p)"
| listen_error: "running (pc_main p) \<Longrightarrow> pc_listener p = Listening \<Longrightarrow> process_step P J C p (listen_fails err p)"
| accepts: "running (pc_main p) \<Longrightarrow> pc_listener p = Listening \<Longrightarrow> process_step P J C p (accept_request r p)"
| serves: "running (pc_main p) \<Longrightarrow> a \<in> set (pc_active p) \<Longrightarrow> process_step P J C p (serve_request P J C rd a p)"
| unhandled: "pc_main p = Started \<Longrightarrow> process_step P J C p (p\<lparr>pc_main := Killed\<rparr>)"
| notifies: "pc_main p = Started \<Longrightarrow> process_step P J C p (p\<lparr>pc_main := Waiting\<rparr>)"
| signalled: "pc_main p = Waiting \<or> pc_main p = Stopping since \<Longrightarrow> process_step P J C p (p\<lparr>pc_signalled := True\<rparr>)"
| receives: "pc_main p = Waiting \<Longrightarrow> pc_signalled p \<Longrightarrow> process_step P J C p (begin_shutdown p)"
| closes: "pc_main p = Stopping since \<Longrightarrow> \<not> pc_shut p \<Longrightarrow> process_step P J C p (close_listener p)"
| drained: "pc_main p = Stopping since \<Longrightarrow> pc_shut p \<Longrightarrow> pc_active p = [] \<Longrightarrow> process_step P J C p (finish_main err since p)"
| expires: "pc_main p = Stopping since \<Longrightarrow> pc_shut p \<Longrightarrow> pc_active p \<noteq> [] \<Longrightarrow> since + shutdownTimeout \<le> pc_now p
     \<Longrightarrow> process_step P J C p (finish_main (Some ''context deadline exceeded'') since p)"

inductive_cases process_stepE: "process_step P J C p p'"

abbreviation process_steps :: "prims \<Rightarrow> jsonb \<Rightarrow> chi \<Rightarrow> process \<Rightarrow> process \<Rightarrow> bool" where
  "process_steps P J C \<equiv> (process_step P J C)\<^sup>*\<^sup>*"

section \<open>The invariant\<close>

lemma main_logs_simps [simp]:
  "pc_now (main_logs line p) = pc_now p" "pc_main (main_logs line p) = pc_main p"
  "pc_listener (main_logs line p) = pc_listener p" "pc_shut (main_logs line p) = pc_shut p"
  "pc_server (main_logs line p) = pc_server p" "pc_gateway (main_logs line p) = put_log line (pc_gateway p)"
  "pc_accepted (main_logs line p) = pc_accepted p" "pc_active (main_logs line p) = pc_active p"
  "pc_replies (main_logs line p) = pc_replies p" "pc_store_open (main_logs line p) = pc_store_open p"
  by (simp_all add: main_logs_def)

definition numbers :: "process \<Rightarrow> nat list" where
  "numbers p = map fst (pc_active p) @ map fst (pc_replies p)"

text \<open>Every accepted request is active or answered, and only once.\<close>

definition accounted :: "process \<Rightarrow> bool" where
  "accounted p \<longleftrightarrow> distinct (numbers p) \<and> set (numbers p) = {..<pc_accepted p}"

definition in_time :: "process \<Rightarrow> bool" where
  "in_time p \<longleftrightarrow>
     (case pc_main p of
        Stopping since \<Rightarrow> since \<le> pc_now p \<and> pc_now p \<le> since + shutdownTimeout
      | Returned since \<Rightarrow> since \<le> pc_now p \<and> pc_now p \<le> since + shutdownTimeout
          \<and> (pc_active p = [] \<or> pc_now p = since + shutdownTimeout
               \<and> forced_shutdown ''context deadline exceeded'' \<in> set (gw_log (pc_gateway p)))
      | _ \<Rightarrow> True)"

definition store_kept :: "gateway \<Rightarrow> process \<Rightarrow> bool" where
  "store_kept g0 p \<longleftrightarrow>
     (pc_store_open p = (DatabaseURL (gw_cfg g0) \<noteq> [] \<and> (\<forall>since. pc_main p \<noteq> Returned since)))
     \<and> pc_server p = server (gw_cfg g0) \<and> (pc_shut p \<longrightarrow> pc_listener p \<noteq> Listening)
     \<and> (pc_main p = Started \<or> pc_main p = Waiting \<longrightarrow> \<not> pc_shut p)"

lemmas process_op_defs = listen_def listen_fails_def accept_request_def serve_request_def begin_shutdown_def close_listener_def
  finish_main_def

lemma launch_invariants: "accounted (launch g now)" "in_time (launch g now)" "store_kept g (launch g now)"
  by (simp_all add: launch_def accounted_def numbers_def in_time_def store_kept_def)

lemma gateway_step:
  "process_step P J C p p' \<Longrightarrow> gateway_reach P J C g0 (pc_gateway p) \<Longrightarrow> gateway_reach P J C g0 (pc_gateway p')"
  by (cases rule: process_step.cases, assumption)
    (auto simp: process_op_defs Info_def forced_shutdown_def access_line_def Let_def
      intro!: gateway_reach.logged intro: gateway_reach.request split: prod.splits option.splits)

lemma accounted_serve:
  assumes "accounted p" "a \<in> set (pc_active p)" shows "accounted (serve_request P J C rd a p)"
proof -
  obtain i r t where a: "a = (i, r, t)" by (metis surj_pair)
  obtain rs g where s: "serve P J C rd r (pc_gateway p) = (rs, g)" by fastforce
  let ?xs = "map fst (pc_active p)" and ?ys = "map fst (pc_replies p)"
  have n: "numbers (serve_request P J C rd a p) = filter (\<lambda>k. k \<noteq> i) ?xs @ ?ys @ [i]"
    by (simp add: numbers_def serve_request_def a s filter_map o_def)
  have "i \<in> set ?xs" using assms(2) a by force
  moreover have "distinct (?xs @ ?ys)" "set (?xs @ ?ys) = {..<pc_accepted p}"
    using assms(1) by (simp_all add: accounted_def numbers_def)
  moreover have "pc_accepted (serve_request P J C rd a p) = pc_accepted p" by (simp add: serve_request_def a s)
  ultimately show ?thesis unfolding accounted_def n by auto
qed

lemma accounted_step:
  assumes "process_step P J C p p'" "accounted p" shows "accounted p'"
  using assms(1)
proof (cases rule: process_step.cases)
  case (accepts r)
  then show ?thesis using assms(2) by (auto simp: accept_request_def accounted_def numbers_def)
next
  case (serves a rd)
  then show ?thesis using accounted_serve [OF assms(2)] by simp
qed (use assms(2) in \<open>auto simp: listen_def listen_fails_def begin_shutdown_def close_listener_def finish_main_def
  accounted_def numbers_def Let_def split: option.splits\<close>)

lemma in_time_step: "process_step P J C p p' \<Longrightarrow> in_time p \<Longrightarrow> in_time p'"
  by (cases rule: process_step.cases, assumption)
    (auto simp: process_op_defs in_time_def shutdownTimeout_def second_def Let_def split: prod.splits option.splits main_at.splits)

lemma store_kept_step: "process_step P J C p p' \<Longrightarrow> store_kept g0 p \<Longrightarrow> store_kept g0 p'"
  by (cases rule: process_step.cases, assumption)
    (auto simp: process_op_defs store_kept_def Let_def split: prod.splits option.splits)

lemma reached:
  assumes "process_steps P J C (launch g0 now) p"
  shows "gateway_reach P J C g0 (pc_gateway p)" "accounted p" "in_time p" "store_kept g0 p"
proof -
  have "gateway_reach P J C g0 (pc_gateway p) \<and> accounted p \<and> in_time p \<and> store_kept g0 p"
    using assms
  proof (induction rule: rtranclp_induct)
    case base
    then show ?case by (simp add: launch_invariants) (simp add: launch_def gateway_reach.start)
  next
    case (step p p')
    note s = step.hyps(2)
    show ?case
      using gateway_step [OF s] accounted_step [OF s] in_time_step [OF s] store_kept_step [OF s] step.IH by blast
  qed
  then show "gateway_reach P J C g0 (pc_gateway p)" "accounted p" "in_time p" "store_kept g0 p" by blast+
qed

section \<open>The end of the process\<close>

text \<open>Whatever the requests do, the main goroutine gets from \<open>Shutdown\<close> to its end.\<close>

lemma stopping_ends:
  assumes "pc_main p = Stopping since" "in_time p"
  shows "\<exists>p'. process_steps P J C p p' \<and> pc_main p' = Returned since \<and> pc_replies p' = pc_replies p
    \<and> pc_accepted p' = pc_accepted p"
proof -
  define q where "q = (if pc_shut p then p else close_listener p)"
  have q: "pc_main q = Stopping since" "pc_shut q" "pc_active q = pc_active p" "pc_now q = pc_now p"
    "pc_replies q = pc_replies p" "pc_accepted q = pc_accepted p"
    using assms(1) by (simp_all add: q_def close_listener_def)
  have pq: "process_steps P J C p q"
  proof (cases "pc_shut p")
    case False
    have "process_step P J C p (close_listener p)" by (rule process_step.closes [OF assms(1) False])
    then show ?thesis by (simp add: q_def False)
  qed (simp add: q_def)
  show ?thesis
  proof (cases "pc_active p = []")
    case True
    have "process_step P J C q (finish_main None since q)" by (rule process_step.drained [OF q(1,2)]) (use True q(3) in simp)
    then have "process_steps P J C p (finish_main None since q)" using pq by (rule rtranclp.rtrancl_into_rtrancl [rotated])
    then show ?thesis using q(5,6) by (intro exI conjI) (assumption, simp_all add: finish_main_def)
  next
    case False
    define d where "d = since + shutdownTimeout - pc_now p"
    let ?r = "q\<lparr>pc_now := pc_now q + d\<rparr>" and ?e = "Some ''context deadline exceeded''"
    have "process_step P J C q ?r"
      using assms q by (intro process_step.passes) (auto simp: in_time_def d_def)
    moreover have "process_step P J C ?r (finish_main ?e since ?r)"
      using q False by (intro process_step.expires) (simp_all add: d_def)
    ultimately have "process_steps P J C p (finish_main ?e since ?r)" using pq by (meson rtranclp.rtrancl_into_rtrancl)
    then show ?thesis using q(5,6) by (intro exI conjI) (assumption, simp_all add: finish_main_def Let_def)
  qed
qed

lemma waiting_stops:
  assumes "pc_main p = Waiting"
  shows "process_steps P J C p (begin_shutdown (p\<lparr>pc_signalled := True\<rparr>))"
proof -
  have "process_step P J C p (p\<lparr>pc_signalled := True\<rparr>)" using assms by (intro process_step.signalled) simp
  moreover have "process_step P J C (p\<lparr>pc_signalled := True\<rparr>) (begin_shutdown (p\<lparr>pc_signalled := True\<rparr>))"
    using assms by (intro process_step.receives) simp_all
  ultimately show ?thesis by (meson r_into_rtranclp rtranclp.rtrancl_into_rtrancl)
qed

end
