(* ===== verification/ProcessProperties.thy ===== *)
theory ProcessProperties
  imports Process GatewayProperties
begin

text \<open>The gateway as a process: what it serves, how it stops, and which answers reach their clients.\<close>

section \<open>Serving\<close>

text \<open>
  A step of the process serves a request as a whole. At that grain the gateway inside the process is one
  that the gateway of the start reaches by serving requests; what overlapping requests do beyond that is
  the subject of \<open>ConcurrencyProperties\<close>. Every accepted request is active or has its one reply, and as
  long as the main goroutine has not returned, the store of the DIDs is open.
\<close>

lemma served_one_by_one:
  assumes "main P ot now db = (Inr p0, db')" "tables_ok ot" "process_steps P J C p0 p"
  shows "startup P ot db = (Inr (pc_gateway p0), db')
    \<and> gateway_reach P J C (pc_gateway p0) (pc_gateway p) \<and> gateway_ok (pc_gateway p)
    \<and> gw_cfg (pc_gateway p) = gw_cfg (pc_gateway p0)
    \<and> distinct (map fst (pc_active p) @ map fst (pc_replies p))
    \<and> set (map fst (pc_active p) @ map fst (pc_replies p)) = {..<pc_accepted p}
    \<and> (running (pc_main p) \<longrightarrow> pc_store_open p = (DatabaseURL (gw_cfg (pc_gateway p0)) \<noteq> []))"
proof -
  have m: "startup P ot db = (Inr (pc_gateway p0), db')" "p0 = launch (pc_gateway p0) now"
    using main_starts [OF assms(1)] by simp_all
  have "process_steps P J C (launch (pc_gateway p0) now) p" using assms(3) m(2) by simp
  note r = reached [OF this]
  have "gateway_ok (pc_gateway p)" "gw_cfg (pc_gateway p) = gw_cfg (pc_gateway p0)"
    using reach_law [OF m(1) assms(2) r(1)] by simp_all
  moreover have "running (pc_main p) \<longrightarrow> pc_store_open p = (DatabaseURL (gw_cfg (pc_gateway p0)) \<noteq> [])"
    using r(4) by (auto simp: store_kept_def)
  ultimately show ?thesis using m(1) r(1,2) by (simp add: accounted_def numbers_def)
qed

text \<open>The example: one request is accepted and served, then the process is told to stop.\<close>

definition demo_serving :: "jsonb \<Rightarrow> process" where
  "demo_serving J =
     serve_request demo_prims J demo_chi demo_rd (0, demo_post ''/v1/did/register'' demo_register_json, demo_clock 0)
       (accept_request (demo_post ''/v1/did/register'' demo_register_json)
         (listen ((launch demo_g0 (demo_clock 0))\<lparr>pc_main := Waiting\<rparr>)))"

lemma demo_main: "main demo_prims demo_out (demo_clock 0) demo_db = (Inr (launch demo_g0 (demo_clock 0)), demo_db)"
  by (simp add: main_def demo_startup)

lemma demo_serving_steps: "process_steps demo_prims J demo_chi (launch demo_g0 (demo_clock 0)) (demo_serving J)"
proof -
  let ?p0 = "launch demo_g0 (demo_clock 0)" and ?r = "demo_post ''/v1/did/register'' demo_register_json"
  let ?p1 = "?p0\<lparr>pc_main := Waiting\<rparr>"
  have "process_step demo_prims J demo_chi ?p0 ?p1" by (rule process_step.notifies) (simp add: launch_def)
  moreover have "process_step demo_prims J demo_chi ?p1 (listen ?p1)" by (rule process_step.listens) (simp_all add: launch_def)
  moreover have "process_step demo_prims J demo_chi (listen ?p1) (accept_request ?r (listen ?p1))"
    by (rule process_step.accepts) (simp_all add: launch_def listen_def)
  moreover have "process_step demo_prims J demo_chi (accept_request ?r (listen ?p1)) (demo_serving J)"
    unfolding demo_serving_def by (rule process_step.serves) (simp_all add: launch_def listen_def accept_request_def)
  ultimately show ?thesis by (meson r_into_rtranclp rtranclp.rtrancl_into_rtrancl)
qed

lemma demo_serving_fields:
  "pc_main (demo_serving J) = Waiting" "pc_active (demo_serving J) = []" "pc_accepted (demo_serving J) = 1"
  by (simp_all add: demo_serving_def serve_request_def accept_request_def listen_def launch_def Let_def split: prod.split)

lemma served_one_by_one_witness:
  "\<forall>J. gateway_reach demo_prims J demo_chi demo_g0 (pc_gateway (demo_serving J)) \<and> map fst (pc_replies (demo_serving J)) = [0]"
proof
  fix J
  note law = served_one_by_one [OF demo_main demo_tables demo_serving_steps [of J]]
  have "length (map fst (pc_replies (demo_serving J))) = 1"
    using law demo_serving_fields [of J] distinct_card [of "map fst (pc_replies (demo_serving J))"] by auto
  moreover have "0 \<in> set (map fst (pc_replies (demo_serving J)))" using law demo_serving_fields [of J] by auto
  ultimately have "map fst (pc_replies (demo_serving J)) = [0]" by (cases "pc_replies (demo_serving J)") auto
  then show "gateway_reach demo_prims J demo_chi demo_g0 (pc_gateway (demo_serving J)) \<and> map fst (pc_replies (demo_serving J)) = [0]"
    using law by (simp add: launch_def)
qed

section \<open>Stopping\<close>

text \<open>
  C15: the shutdown is graceful and bounded. From the signal on, at most 30 seconds pass until the main
  goroutine returns. When it has returned, every accepted request has been served, unless the 30
  seconds were over, which the log says. Until then the store of the DIDs stays open, and nothing
  but this end closes it: not an exit after an error, which skips the deferred calls.
\<close>

theorem graceful_shutdown:
  assumes "main P ot now db = (Inr p0, db')" "process_steps P J C p0 p"
  shows "(\<forall>since. pc_main p = Stopping since \<longrightarrow> since \<le> pc_now p \<and> pc_now p \<le> since + 30 * second)
    \<and> (\<forall>since. pc_main p = Returned since \<longrightarrow>
        since \<le> pc_now p \<and> pc_now p \<le> since + 30 * second \<and> \<not> pc_store_open p
        \<and> (set (map fst (pc_replies p)) = {..<pc_accepted p} \<and> pc_active p = []
          \<or> pc_now p = since + 30 * second
            \<and> forced_shutdown ''context deadline exceeded'' \<in> set (gw_log (pc_gateway p))))
    \<and> ((\<forall>since. pc_main p \<noteq> Returned since) \<longrightarrow> pc_store_open p = pc_store_open p0)"
proof -
  have m: "p0 = launch (pc_gateway p0) now" using main_starts [OF assms(1)] by simp
  then have "process_steps P J C (launch (pc_gateway p0) now) p" using assms(2) by simp
  note r = reached [OF this]
  have s: "pc_store_open p0 = (DatabaseURL (gw_cfg (pc_gateway p0)) \<noteq> [])" by (subst m) (simp add: launch_def)
  have o: "pc_store_open p = (DatabaseURL (gw_cfg (pc_gateway p0)) \<noteq> [] \<and> (\<forall>since. pc_main p \<noteq> Returned since))"
    using r(4) by (simp add: store_kept_def)
  have all: "pc_active p = [] \<Longrightarrow> set (map fst (pc_replies p)) = {..<pc_accepted p}"
    using r(2) by (simp add: accounted_def numbers_def)
  have stopping: "since \<le> pc_now p \<and> pc_now p \<le> since + 30 * second" if "pc_main p = Stopping since" for since
    using r(3) that by (simp add: in_time_def shutdownTimeout_def)
  have returned: "since \<le> pc_now p \<and> pc_now p \<le> since + 30 * second
      \<and> (pc_active p = [] \<or> pc_now p = since + 30 * second
          \<and> forced_shutdown ''context deadline exceeded'' \<in> set (gw_log (pc_gateway p)))" if "pc_main p = Returned since" for since
    using r(3) that by (simp add: in_time_def shutdownTimeout_def)
  show ?thesis using s o all stopping returned by blast
qed

definition demo_ended :: "jsonb \<Rightarrow> process" where
  "demo_ended J = finish_main None (demo_clock 0)
     (close_listener (begin_shutdown ((demo_serving J)\<lparr>pc_signalled := True\<rparr>)))"

lemma demo_serving_time: "pc_now (demo_serving J) = demo_clock 0" "\<not> pc_shut (demo_serving J)"
  by (simp_all add: demo_serving_def serve_request_def accept_request_def listen_def launch_def Let_def split: prod.split)

lemma demo_ended_steps: "process_steps demo_prims J demo_chi (launch demo_g0 (demo_clock 0)) (demo_ended J)"
proof -
  let ?s = "begin_shutdown ((demo_serving J)\<lparr>pc_signalled := True\<rparr>)"
  note f = demo_serving_fields [of J] demo_serving_time [of J]
  have "process_steps demo_prims J demo_chi (demo_serving J) ?s" by (rule waiting_stops [OF f(1)])
  moreover have "process_step demo_prims J demo_chi ?s (close_listener ?s)"
    using f by (intro process_step.closes [of _ "demo_clock 0"]) (simp_all add: begin_shutdown_def)
  moreover have "process_step demo_prims J demo_chi (close_listener ?s) (demo_ended J)"
    unfolding demo_ended_def using f by (intro process_step.drained) (simp_all add: begin_shutdown_def close_listener_def)
  ultimately show ?thesis
    using demo_serving_steps [of J] by (meson rtranclp.rtrancl_into_rtrancl rtranclp_trans)
qed

theorem graceful_shutdown_witness:
  "\<forall>J. pc_main (demo_ended J) = Returned (demo_clock 0) \<and> \<not> pc_store_open (demo_ended J)
     \<and> set (map fst (pc_replies (demo_ended J))) = {0}"
proof
  fix J
  have e: "pc_main (demo_ended J) = Returned (demo_clock 0)" "pc_now (demo_ended J) = demo_clock 0" "pc_accepted (demo_ended J) = 1"
    using demo_serving_fields [of J] demo_serving_time [of J]
    by (simp_all add: demo_ended_def finish_main_def close_listener_def begin_shutdown_def)
  then show "pc_main (demo_ended J) = Returned (demo_clock 0) \<and> \<not> pc_store_open (demo_ended J)
     \<and> set (map fst (pc_replies (demo_ended J))) = {0}"
    using graceful_shutdown [OF demo_main demo_ended_steps [of J]] by (auto simp: second_def)
qed

text \<open>
  C26: the shutdown completes. From every state in which the main goroutine waits for a signal, or is
  shutting down, it can still return, within 30 seconds of the signal, and without any of the active
  requests coming to an end: a handler that hangs does not keep the process.
\<close>

theorem shutdown_completes:
  assumes "main P ot now db = (Inr p0, db')" "process_steps P J C p0 p"
    and "pc_main p = Waiting \<and> since = pc_now p \<or> pc_main p = Stopping since"
  shows "\<exists>p'. process_steps P J C p p' \<and> pc_main p' = Returned since \<and> pc_now p' \<le> since + 30 * second
    \<and> pc_replies p' = pc_replies p \<and> pc_accepted p' = pc_accepted p"
proof -
  have m: "p0 = launch (pc_gateway p0) now" using main_starts [OF assms(1)] by simp
  obtain q where q: "process_steps P J C p q" "pc_main q = Stopping since" "pc_replies q = pc_replies p" "pc_accepted q = pc_accepted p"
    using assms(3)
  proof
    assume "pc_main p = Waiting \<and> since = pc_now p"
    then show thesis using that waiting_stops [of p P J C] by (simp add: begin_shutdown_def)
  qed (use that in blast)
  have pq: "process_steps P J C (launch (pc_gateway p0) now) q" using assms(2) q(1) m by (metis rtranclp_trans)
  obtain p' where p': "process_steps P J C q p'" "pc_main p' = Returned since" "pc_replies p' = pc_replies q"
    "pc_accepted p' = pc_accepted q"
    using stopping_ends [OF q(2) reached(3) [OF pq]] by blast
  have "process_steps P J C (launch (pc_gateway p0) now) p'" using pq p'(1) by (metis rtranclp_trans)
  then have "pc_now p' \<le> since + 30 * second" using reached(3) p'(2) by (fastforce simp: in_time_def shutdownTimeout_def)
  then show ?thesis using q p' by (metis rtranclp_trans)
qed

text \<open>The example with a second request that is accepted and never served.\<close>

theorem shutdown_completes_witness:
  "\<forall>J r. \<exists>p'. process_steps demo_prims J demo_chi (accept_request r (demo_serving J)) p'
     \<and> pc_main p' = Returned (demo_clock 0) \<and> pc_accepted p' = 2"
proof (intro allI)
  fix J r
  let ?p = "accept_request r (demo_serving J)"
  have "pc_listener (demo_serving J) = Listening"
    by (simp add: demo_serving_def serve_request_def accept_request_def listen_def launch_def Let_def split: prod.split)
  then have "process_step demo_prims J demo_chi (demo_serving J) ?p"
    using demo_serving_fields [of J] by (intro process_step.accepts) simp_all
  then have "process_steps demo_prims J demo_chi (launch demo_g0 (demo_clock 0)) ?p"
    using demo_serving_steps [of J] by (rule rtranclp.rtrancl_into_rtrancl [rotated])
  from shutdown_completes [OF demo_main this, of "demo_clock 0"]
  show "\<exists>p'. process_steps demo_prims J demo_chi ?p p' \<and> pc_main p' = Returned (demo_clock 0) \<and> pc_accepted p' = 2"
    using demo_serving_fields [of J] demo_serving_time [of J] by (auto simp: accept_request_def)
qed

section \<open>Answers that come late\<close>

text \<open>
  C28: an answer reaches its client only when the handler has ended less than 15 seconds after the
  header of the request was read. The log and the counters take it as answered all the same. The
  deadline that the router gives the handlers is 30 seconds, so what it answers at that deadline is
  always lost.
\<close>

theorem late_answers_are_lost:
  assumes "main P ot now db = (Inr p0, db')" "tables_ok ot" "process_steps P J C p0 p"
    and "running (pc_main p)" "(i, r, t) \<in> set (pc_active p)" "p' = serve_request P J C rd (i, r, t) p"
  shows "process_step P J C p p' \<and> (\<exists>answer line.
      pc_replies p' = pc_replies p @ [(i, if pc_now p - t < 15 * second
        then Some (chi_Recoverer C (chi_Timeout C (30 * second) (Done answer))) else None)]
      \<and> access_log (pc_gateway p') = access_log (pc_gateway p) @ [line]
      \<and> line_int ''status'' line = int (rs_status answer)
      \<and> mt_responsesTotal (gw_metrics (pc_gateway p')) = mt_responsesTotal (gw_metrics (pc_gateway p)) + 1
      \<and> (30 * second \<le> pc_now p - t \<longrightarrow> pc_replies p' = pc_replies p @ [(i, None)]))"
proof -
  have m: "startup P ot db = (Inr (pc_gateway p0), db')" "p0 = launch (pc_gateway p0) now"
    using main_starts [OF assms(1)] by simp_all
  have "process_steps P J C (launch (pc_gateway p0) now) p" using assms(3) m(2) by simp
  note r = reached [OF this]
  have ok: "gateway_ok (pc_gateway p)" using reach_law [OF m(1) assms(2) r(1)] by simp
  obtain rs g where s: "serve P J C rd r (pc_gateway p) = (rs, g)" by fastforce
  obtain answer where a: "rs = chi_Recoverer C (chi_Timeout C (30 * second) (Done answer))"
    "gw_log g = gw_log (pc_gateway p) @ [request_line C rd r answer]"
    "gw_metrics g = one_more (rs_status answer) (Sub (rd_stop rd) (rd_start rd)) (gw_metrics (pc_gateway p))"
    using serve_law(4) [OF ok s] by blast
  have srv: "sv_WriteTimeout (pc_server p) = 15 * second" using r(4) by (simp add: store_kept_def server_def)
  have p': "pc_gateway p' = g" "pc_replies p' = pc_replies p @ [(i, if pc_now p - t < 15 * second then Some rs else None)]"
    using assms(6) s by (simp_all add: serve_request_def delivered_def srv)
  have "process_step P J C p p'" unfolding assms(6) by (rule process_step.serves [OF assms(4,5)])
  moreover have "access_log g = access_log (pc_gateway p) @ [request_line C rd r answer]" using a(2) by (simp add: access_log_def)
  moreover have "mt_responsesTotal (gw_metrics g) = mt_responsesTotal (gw_metrics (pc_gateway p)) + 1"
    using a(3) by (simp add: one_more_def metric_defs)
  moreover have "30 * second \<le> pc_now p - t \<longrightarrow> \<not> pc_now p - t < 15 * second" by (simp add: second_def)
  ultimately show ?thesis using p' a(1)
    by (intro conjI exI [of _ answer] exI [of _ "request_line C rd r answer"]) simp_all
qed

text \<open>A request whose handler takes 30 seconds.\<close>

theorem late_answers_are_lost_witness:
  "\<forall>J r rd. \<exists>p. process_steps demo_prims J demo_chi (launch demo_g0 (demo_clock 0)) p
     \<and> (\<exists>t. (1, r, t) \<in> set (pc_active p) \<and> pc_replies (serve_request demo_prims J demo_chi rd (1, r, t) p) = pc_replies p @ [(1, None)])"
proof (intro allI)
  fix J r rd
  let ?q = "accept_request r (demo_serving J)"
  let ?p = "?q\<lparr>pc_now := pc_now ?q + 30 * second\<rparr>"
  have "pc_listener (demo_serving J) = Listening"
    by (simp add: demo_serving_def serve_request_def accept_request_def listen_def launch_def Let_def split: prod.split)
  then have "process_step demo_prims J demo_chi (demo_serving J) ?q"
    using demo_serving_fields [of J] by (intro process_step.accepts) simp_all
  moreover have "process_step demo_prims J demo_chi ?q ?p"
    using demo_serving_fields [of J] by (intro process_step.passes) (simp_all add: accept_request_def second_def)
  ultimately have steps: "process_steps demo_prims J demo_chi (launch demo_g0 (demo_clock 0)) ?p"
    using demo_serving_steps [of J] by (meson rtranclp.rtrancl_into_rtrancl)
  have act: "(1, r, pc_now (demo_serving J)) \<in> set (pc_active ?p)" "running (pc_main ?p)"
    using demo_serving_fields [of J] by (simp_all add: accept_request_def)
  have "pc_replies (serve_request demo_prims J demo_chi rd (1, r, pc_now (demo_serving J)) ?p) = pc_replies ?p @ [(1, None)]"
    using late_answers_are_lost [OF demo_main demo_tables steps act(2,1) refl, of rd] by (auto simp: accept_request_def)
  then show "\<exists>p. process_steps demo_prims J demo_chi (launch demo_g0 (demo_clock 0)) p
     \<and> (\<exists>t. (1, r, t) \<in> set (pc_active p) \<and> pc_replies (serve_request demo_prims J demo_chi rd (1, r, t) p) = pc_replies p @ [(1, None)])"
    using steps act(1) by blast
qed

end
