(* ===== verification/Spec2Isabelle.thy ===== *)
theory Spec2Isabelle
  imports DidProperties AuthProperties CredentialProperties ApiKeyProperties ZkpProperties SecurityProperties
    ObservabilityProperties ConcurrencyProperties StartupProperties GatewayProperties GatewayRequests ProcessProperties
begin

text \<open>
  A model of the UDDI gateway, the Go program under \<open>src/packages/api\<close>, with the theorems that make it
  correct. The gateway registers decentralised identifiers (DIDs) with their Ed25519 keys, lets
  services authenticate the holders of DIDs by challenge and response, stores and verifies signed
  credentials, checks zero-knowledge proofs, and guards all that with API keys, a rate limiter and
  metrics. Its data is either in memory or in Postgres and Redis; the configuration decides.

  THE PARTS AND THEIR THEORIES

  Foundations. \<open>Prelude\<close> has the maps of Go as association lists without duplicates (\<open>gomap\<close>), machine
  integers, strings, the collections of simplification rules and the outcome of a handler, which is an
  answer or a panic. \<open>GoTime\<close> models \<open>time\<close> (an instant is the number of nanoseconds since 1970) with
  the formats of RFC 3339, \<open>Base64\<close> models \<open>encoding/base64\<close> and \<open>encoding/hex\<close>, \<open>Json\<close> and
  \<open>JsonText\<close> model \<open>encoding/json\<close>: decoding into structures, the scanner of texts, and the writer.
  \<open>Floats\<close> has the three places where float64 is computed with. \<open>Http\<close> has requests, answers,
  handlers, and \<open>JSON\<close> and \<open>Error\<close> of \<open>internal/response\<close>. \<open>Sql\<close> is a table with a primary key behind
  a driver that fails by a script, before or after a statement had its effect.

  DIDs. \<open>DidStore\<close> is \<open>internal/blockchain/store.go\<close> and \<open>postgres_store.go\<close>; the Go interface is the
  record \<open>DIDStore\<close> of functions and its contract is the locale \<open>did_store\<close>, interpreted on both stores.
  \<open>Client\<close> is \<open>client.go\<close>, \<open>DidHandler\<close> is \<open>internal/handlers/did.go\<close> and \<open>registry.go\<close>, with the
  relation \<open>authorised\<close> that says what one request may change. \<open>DidBackends\<close> proves that two stores that
  keep the contract and do not fail give the same answers. \<open>DidRuns\<close> has runs and examples.

  Authentication. \<open>ChallengeStore\<close> is \<open>challenge_store.go\<close> with the texts and the expiry of Redis,
  \<open>VerifyHandler\<close> is \<open>verify.go\<close>, \<open>AuthProtocol\<close> proves the protocol over any stores of the contracts,
  \<open>AuthRuns\<close> has the two configurations.

  Credentials. \<open>CredentialStore\<close> is \<open>credential_store.go\<close>, \<open>CredentialHandler\<close> is \<open>credential.go\<close>,
  \<open>Canonical\<close> proves that the canonical text determines a credential, \<open>CredentialProtocol\<close> and
  \<open>Credentials\<close> prove the life of a credential over any stores, \<open>CredentialRuns\<close> has the configurations.

  API keys. \<open>ApiKeyStore\<close> is \<open>internal/middleware/api_key_store.go\<close>, \<open>ApiKeys\<close> is \<open>handlers/api_key.go\<close>
  and \<open>middleware/auth.go\<close>.

  Proofs. \<open>Zkp\<close> is \<open>internal/zkp/service.go\<close>, \<open>Proofs\<close> is \<open>handlers/proof.go\<close>; \<open>VerifyClaim\<close> of
  \<open>verify.go\<close> is with the properties of the service.

  Middleware. \<open>Security\<close> is \<open>middleware/security.go\<close>, \<open>Observability\<close> is \<open>observability.go\<close>: there the
  counters are words of 64 bits, and a step relation lets many requests interleave between any two
  atomic additions.

  Overlap. \<open>Interference\<close> puts the handlers, unchanged, on stores that other requests may change before
  each call, and has the sequences of calls a store goes through.

  The whole. \<open>Migrations\<close> is \<open>internal/storage/migrations.go\<close> and \<open>Schema\<close> proves what it does to a
  database; \<open>Config\<close> is \<open>internal/config/config.go\<close>; \<open>Interfaces\<close> makes a value of a Go interface a sum
  of its implementations and interprets every contract on the sums; \<open>Gateway\<close> is
  \<open>internal/server/router.go\<close>, from the raw request through all middleware to the handler; \<open>GatewayLaws\<close>
  composes the laws of the components along the router; \<open>Startup\<close> is \<open>main.go\<close> up to the server, with its log;
  \<open>GatewayRuns\<close> has the gateways that have been started and have served requests; \<open>Process\<close> is the rest of
  \<open>main.go\<close>, the listener, the signal and the shutdown, as a step relation around the gateway.

  STATE AND OPERATIONS

  A structure of Go is a record with the names of its fields, prefixed where two clash. A method of a
  pointer receiver takes the state and returns it updated, beside its result; a handler maps the decoded
  body and the state to an answer and the new state. An error is the left side of a sum, with one
  constructor per error value that the code distinguishes. A read of the clock is an application of
  the argument \<open>clk\<close> to its position in the handler, so that no order between readings is assumed; random
  bytes are arguments, \<open>None\<close> standing for a failure of the generator.

  WHAT THE LEMMAS SHOW

  Contracts: the locales \<open>did_store\<close>, \<open>challenge_store\<close>, \<open>credential_store\<close> and \<open>api_key_store\<close> state what a
  store promises when its driver fails at any statement, and their \<open>reliable\<close> extensions what it promises
  when it does not; the interpretations prove it of the memory stores, of Postgres and Redis, and of
  the sums. Handlers: for every handler a law with its effect on the view of the stores, on every branch.
  Protocols: what an accepted authentication proves, that a challenge authenticates once, that what
  is revoked stays so, that a valid request is accepted. The whole gateway: the properties of
  \<open>GatewayProperties\<close> quantify over every request, every behaviour of the router library, and every script
  of failures; those of \<open>GatewayRequests\<close> follow one request from the connection to the answer: what the
  limiter refuses changes nothing, what it admits is accepted exactly when it is valid, and a challenge
  may be redeemed by another service. Overlap: \<open>ConcurrencyProperties\<close> shows that revocations of
  credentials and keys survive any interleaving of store calls, that an accepted authentication is
  proved whatever other requests do between its calls, and three races of what a handler reads by
  one call and writes by another; a request with no overlap does on a shared store what it does on its
  own (\<open>alone\<close>).

  Start: \<open>StartupProperties\<close> bounds the wait for the database, shows that migrations are atomic, and what a
  failed start logs. Process: \<open>ProcessProperties\<close> shows that the shutdown is graceful, bounded and
  always possible, and which answers come too late. Theorems with hypotheses have a closed instance,
  \<open>_witness\<close>, on the examples of \<open>Demo\<close> and the \<open>Runs\<close> theories. Some theorems state where the code
  falls short of its intent.

  BOUNDS

  The JSON scanner has fuel twice the length of the text plus one, which each call uses up more slowly
  than the text (\<open>scan_json_text\<close> and the lemmas before it); its nesting limit of 10000 is Go's. The loop
  that waits for the database ends by a measure, after 12 attempts; the shutdown has 30 seconds. Everything else is structural.

  PARAMETERS

  Ed25519 verification, SHA-256 and the conversions between decimal texts and float64 (\<open>prims\<close>); what a
  JSONB column gives back (\<open>jsonb\<close>); the network, the URL parser and the texts of library errors for the
  proof service (\<open>zkp_net\<close>); chi and its cors package (\<open>chi\<close>); the scripts by which the drivers of
  Postgres and Redis fail; the clocks; the environment, the connections and the texts of errors (\<open>outside\<close>).

  NOT MODELLED

  In the properties of the whole gateway, and in a step of the process, a request is one step; nothing is
  concluded from that for requests that overlap. The finer grain, where a request is a
  sequence of atomic calls of its stores, is modelled for the DID endpoints and for \<open>VerifyAuth\<close>, and for
  the credential and key stores as arbitrary sequences of calls; below a store call, a mutex section
  or a statement of the database is atomic, and the memory model of Go is not looked at.

  The read and idle timeouts of the server are data, and connections below the requests are not
  modelled; \<open>net/http\<close> is its documented behaviour. Deadlines of contexts show only in the failure of the
  statement they interrupt. Left out are the bytes of the API document that the compiler embeds, and the
  TypeScript packages, the circuits, the scripts and the container files, which are not part of the
  gateway.
\<close>

end
